(* ===== verification/Prelude.thy ===== *)
theory Prelude
  imports Main "HOL-Library.Word" "HOL-Library.State_Monad"
begin

text \<open>
  What every component of the development shares: the fixed-width integers of the C and C++
  sources, the state monad in which stateful code is written (a computation reads and updates
  a state and returns a value, so a member function of the driver reads like its source), its
  weakest-precondition calculus, and generic facts on byte lists and words.

  A C \<open>int\<close>, \<open>kern_return_t\<close> or \<open>IOReturn\<close> is the 32-bit word of its bit pattern; \<open>size_t\<close>
  is 64 bits wide, as on the only architecture the driver is built for (arm64e).
\<close>

unbundle bit_operations_syntax

section \<open>Machine integers\<close>

type_synonym u8 = "8 word"
type_synonym u16 = "16 word"
type_synonym u32 = "32 word"
type_synonym u64 = "64 word"
type_synonym size_t = "64 word"
type_synonym kern_return = "32 word"

named_theorems wp_simps \<open>the weakest-precondition calculus, as rewrite rules\<close>
named_theorems keeps_intros \<open>syntax-directed rules for computations that keep a predicate\<close>

section \<open>The state monad\<close>

abbreviation return :: "'a \<Rightarrow> ('s, 'a) state" where
  "return \<equiv> State_Monad.return"

definition gets :: "('s \<Rightarrow> 'a) \<Rightarrow> ('s, 'a) state" where
  "gets f = State (\<lambda>s. (f s, s))"

definition modify :: "('s \<Rightarrow> 's) \<Rightarrow> ('s, unit) state" where
  "modify f = State (\<lambda>s. ((), f s))"

text \<open>\<open>x = v;\<close> and \<open>x++;\<close> on a field, given the field's update function.\<close>

definition assign :: "(('a \<Rightarrow> 'a) \<Rightarrow> 's \<Rightarrow> 's) \<Rightarrow> 'a \<Rightarrow> ('s, unit) state" where
  "assign upd v = modify (upd (\<lambda>_. v))"

definition incr :: "(('a::plus \<Rightarrow> 'a) \<Rightarrow> 's \<Rightarrow> 's) \<Rightarrow> 'a \<Rightarrow> ('s, unit) state" where
  "incr upd k = modify (upd (\<lambda>n. n + k))"

definition skip :: "('s, unit) state" where
  "skip = return ()"

definition whenever :: "bool \<Rightarrow> ('s, unit) state \<Rightarrow> ('s, unit) state" where
  "whenever b m = (if b then m else skip)"

lemma run_gets [simp]: "run_state (gets f) s = (f s, s)"
  by (simp add: gets_def)

lemma run_modify [simp]: "run_state (modify f) s = ((), f s)"
  by (simp add: modify_def)

lemma run_assign [simp]: "run_state (assign upd v) s = ((), upd (\<lambda>_. v) s)"
  by (simp add: assign_def)

lemma run_incr [simp]: "run_state (incr upd k) s = ((), upd (\<lambda>n. n + k) s)"
  by (simp add: incr_def)

lemma run_skip [simp]: "run_state skip s = ((), s)"
  by (simp add: skip_def)

lemma run_whenever [simp]: "run_state (whenever b m) s = (if b then run_state m s else ((), s))"
  by (simp add: whenever_def)

text \<open>The state a computation ends in, and the value it returns.\<close>

abbreviation exec_state :: "('s, 'a) state \<Rightarrow> 's \<Rightarrow> 's" where
  "exec_state m s \<equiv> snd (run_state m s)"

abbreviation eval_state :: "('s, 'a) state \<Rightarrow> 's \<Rightarrow> 'a" where
  "eval_state m s \<equiv> fst (run_state m s)"

section \<open>Weakest preconditions\<close>

definition wp :: "('s, 'a) state \<Rightarrow> ('a \<Rightarrow> 's \<Rightarrow> bool) \<Rightarrow> 's \<Rightarrow> bool" where
  "wp m Q s = (case run_state m s of (a, s') \<Rightarrow> Q a s')"

lemma wp_return [wp_simps]: "wp (return a) Q s = Q a s"
  by (simp add: wp_def)

lemma wp_bind [wp_simps]: "wp (State_Monad.bind m f) Q s = wp m (\<lambda>a. wp (f a) Q) s"
  by (simp add: wp_def split: prod.splits)

lemma wp_bind_fun: "wp (State_Monad.bind m f) Q = wp m (\<lambda>a. wp (f a) Q)"
  by (rule ext) (rule wp_bind)

lemma wp_gets [wp_simps]: "wp (gets f) Q s = Q (f s) s"
  by (simp add: wp_def)

lemma wp_modify [wp_simps]: "wp (modify f) Q s = Q () (f s)"
  by (simp add: wp_def)

lemma wp_assign [wp_simps]: "wp (assign upd v) Q s = Q () (upd (\<lambda>_. v) s)"
  by (simp add: wp_def)

lemma wp_incr [wp_simps]: "wp (incr upd k) Q s = Q () (upd (\<lambda>n. n + k) s)"
  by (simp add: wp_def)

lemma wp_skip [wp_simps]: "wp skip Q s = Q () s"
  by (simp add: wp_def)

lemma wp_whenever [wp_simps]: "wp (whenever b m) Q s = (if b then wp m Q s else Q () s)"
  by (simp add: wp_def)

lemma wp_if [wp_simps]: "wp (if b then m else n) Q s = (if b then wp m Q s else wp n Q s)"
  by simp

lemma wp_case_option [wp_simps]:
  "wp (case x of None \<Rightarrow> m | Some a \<Rightarrow> f a) Q s
     = (case x of None \<Rightarrow> wp m Q s | Some a \<Rightarrow> wp (f a) Q s)"
  by (simp split: option.split)

lemma wp_case_prod [wp_simps]:
  "wp (case x of (a, b) \<Rightarrow> f a b) Q s = (case x of (a, b) \<Rightarrow> wp (f a b) Q s)"
  by (simp split: prod.split)

lemma wp_mono: "wp m R s \<Longrightarrow> (\<And>a t. R a t \<Longrightarrow> Q a t) \<Longrightarrow> wp m Q s"
  by (auto simp: wp_def split: prod.splits)

lemma wp_conj: "wp m Q s \<Longrightarrow> wp m R s \<Longrightarrow> wp m (\<lambda>a t. Q a t \<and> R a t) s"
  by (auto simp: wp_def split: prod.splits)

lemma wp_run: "wp m Q s \<longleftrightarrow> Q (eval_state m s) (exec_state m s)"
  by (simp add: wp_def split_def)

lemma wp_runI: "(\<And>a t. run_state m s = (a, t) \<Longrightarrow> Q a t) \<Longrightarrow> wp m Q s"
  by (simp add: wp_def split: prod.splits)

lemma wp_runD: "wp m Q s \<Longrightarrow> run_state m s = (a, t) \<Longrightarrow> Q a t"
  by (simp add: wp_def)

lemma wp_exec: "wp m (\<lambda>_. Q) s \<Longrightarrow> Q (exec_state m s)"
  by (simp add: wp_run)

section \<open>Computations that keep a predicate\<close>

text \<open>
  \<open>keeps P m\<close>: whatever \<open>m\<close> returns, \<open>P\<close> still holds after it if it held before. The rules
  follow the syntax of the computation, so \<open>intro keeps_intros\<close> reduces a handler to its
  single updates and calls.
\<close>

definition keeps :: "('s \<Rightarrow> bool) \<Rightarrow> ('s, 'a) state \<Rightarrow> bool" where
  "keeps P m \<longleftrightarrow> (\<forall>s. P s \<longrightarrow> P (exec_state m s))"

lemma keepsI: "(\<And>s. P s \<Longrightarrow> P (exec_state m s)) \<Longrightarrow> keeps P m"
  by (simp add: keeps_def)

lemma keepsD: "keeps P m \<Longrightarrow> P s \<Longrightarrow> P (exec_state m s)"
  by (simp add: keeps_def)

lemma keeps_wp: "keeps P m \<Longrightarrow> P s \<Longrightarrow> wp m (\<lambda>_. P) s"
  by (simp add: keeps_def wp_run)

lemma keeps_return [keeps_intros]: "keeps P (return a)"
  by (simp add: keeps_def)

lemma keeps_bind [keeps_intros]:
  assumes "keeps P m" and "\<And>a. keeps P (f a)"
  shows "keeps P (State_Monad.bind m f)"
  using assms by (simp add: keeps_def split: prod.splits) (metis snd_conv)

lemma keeps_gets [keeps_intros]: "keeps P (gets f)"
  by (simp add: keeps_def)

lemma keeps_modify [keeps_intros]: "(\<And>s. P s \<Longrightarrow> P (f s)) \<Longrightarrow> keeps P (modify f)"
  by (simp add: keeps_def)

lemma keeps_assign [keeps_intros]:
  "(\<And>s. P s \<Longrightarrow> P (upd (\<lambda>_. v) s)) \<Longrightarrow> keeps P (assign upd v)"
  by (simp add: keeps_def)

lemma keeps_incr [keeps_intros]:
  "(\<And>s. P s \<Longrightarrow> P (upd (\<lambda>n. n + k) s)) \<Longrightarrow> keeps P (incr upd k)"
  by (simp add: keeps_def)

lemma keeps_skip [keeps_intros]: "keeps P skip"
  by (simp add: keeps_def)

lemma keeps_whenever [keeps_intros]: "keeps P m \<Longrightarrow> keeps P (whenever b m)"
  by (simp add: keeps_def)

lemma keeps_if [keeps_intros]: "keeps P m \<Longrightarrow> keeps P n \<Longrightarrow> keeps P (if b then m else n)"
  by simp

lemma keeps_case_option [keeps_intros]:
  "keeps P m \<Longrightarrow> (\<And>a. keeps P (f a)) \<Longrightarrow> keeps P (case x of None \<Rightarrow> m | Some a \<Rightarrow> f a)"
  by (simp split: option.split)

lemma keeps_case_prod [keeps_intros]:
  "(\<And>a b. keeps P (f a b)) \<Longrightarrow> keeps P (case x of (a, b) \<Rightarrow> f a b)"
  by (simp split: prod.split)

lemma keeps_let [keeps_intros]: "keeps P (f x) \<Longrightarrow> keeps P (let y = x in f y)"
  by simp

section \<open>Bytes and words\<close>

text \<open>Writing a run of bytes into a buffer, as \<open>memcpy(buf + i, xs, length xs)\<close> does.\<close>

definition overlay :: "'a list \<Rightarrow> nat \<Rightarrow> 'a list \<Rightarrow> 'a list" where
  "overlay buf i xs = take i buf @ xs @ drop (i + length xs) buf"

lemma length_overlay: "i + length xs \<le> length buf \<Longrightarrow> length (overlay buf i xs) = length buf"
  by (simp add: overlay_def)

lemma take_overlay:
  "i + length xs \<le> length buf \<Longrightarrow> take (i + length xs) (overlay buf i xs) = take i buf @ xs"
  by (simp add: overlay_def)

definition slice :: "nat \<Rightarrow> nat \<Rightarrow> 'a list \<Rightarrow> 'a list" where
  "slice i n xs = take n (drop i xs)"

lemma length_slice: "i + n \<le> length xs \<Longrightarrow> length (slice i n xs) = n"
  by (simp add: slice_def)

lemma slice_append_skip: "length xs \<le> i \<Longrightarrow> slice i n (xs @ ys) = slice (i - length xs) n ys"
  by (simp add: slice_def)

lemma slice_0_append: "n = length xs \<Longrightarrow> slice 0 n (xs @ ys) = xs"
  by (simp add: slice_def)

lemma nth_slice: "j < n \<Longrightarrow> i + j < length xs \<Longrightarrow> slice i n xs ! j = xs ! (i + j)"
  by (simp add: slice_def)

lemma unat_add_small:
  fixes a b :: "'a::len word"
  assumes "unat a + unat b < 2 ^ LENGTH('a)"
  shows "unat (a + b) = unat a + unat b"
  using assms by (simp add: unat_word_ariths)

lemma and_bit_iff:
  fixes w :: "'a::len word"
  shows "n < LENGTH('a) \<Longrightarrow> (w AND push_bit n 1 \<noteq> 0) = bit w n"
  by (simp add: bit_iff_and_push_bit_not_eq_0)

text \<open>Little-endian bytes of a 32-bit word, and the word four bytes hold.\<close>

definition le32_bytes :: "u32 \<Rightarrow> u8 list" where
  "le32_bytes v = [ucast (v AND 0xFF), ucast (drop_bit 8 v AND 0xFF),
                   ucast (drop_bit 16 v AND 0xFF), ucast (drop_bit 24 v AND 0xFF)]"

definition le32_word :: "u8 \<Rightarrow> u8 \<Rightarrow> u8 \<Rightarrow> u8 \<Rightarrow> u32" where
  "le32_word a b c d = ucast a OR push_bit 8 (ucast b) OR push_bit 16 (ucast c)
                       OR push_bit 24 (ucast d)"

lemma length_le32_bytes [simp]: "length (le32_bytes v) = 4"
  by (simp add: le32_bytes_def)

lemma mask_255: "(0xFF :: 'a::len word) = mask 8"
  by (simp add: mask_eq_exp_minus_1)

lemma bit_byte_of:
  fixes v :: u32
  shows "bit (ucast (ucast (drop_bit k v AND 0xFF) :: u8) :: u32) n = (n < 8 \<and> bit v (k + n))"
  unfolding mask_255 by (auto simp: bit_simps dest: bit_imp_le_length)

lemma bit_byte_of_0:
  fixes v :: u32
  shows "bit (ucast (ucast (v AND 0xFF) :: u8) :: u32) n = (n < 8 \<and> bit v n)"
  unfolding mask_255 by (auto simp: bit_simps dest: bit_imp_le_length)

lemma le32_word_bytes:
  "le32_word (ucast (v AND 0xFF)) (ucast (drop_bit 8 v AND 0xFF))
     (ucast (drop_bit 16 v AND 0xFF)) (ucast (drop_bit 24 v AND 0xFF)) = v"
proof (rule bit_word_eqI)
  fix n
  assume "n < LENGTH(32)"
  then have n: "n < 32" by simp
  consider "n < 8" | "8 \<le> n" "n < 16" | "16 \<le> n" "n < 24" | "24 \<le> n"
    by linarith
  then show "bit (le32_word (ucast (v AND 0xFF)) (ucast (drop_bit 8 v AND 0xFF))
     (ucast (drop_bit 16 v AND 0xFF)) (ucast (drop_bit 24 v AND 0xFF))) n = bit v n"
    using n by cases (simp_all add: le32_word_def bit_or_iff bit_push_bit_iff bit_byte_of
      bit_byte_of_0 bit_drop_bit_eq less_diff_conv2)
qed

lemma unat_ucast_up:
  fixes w :: "'a::len word"
  assumes "LENGTH('a) \<le> LENGTH('b::len)"
  shows "unat (ucast w :: 'b word) = unat w"
proof -
  have "unat w < 2 ^ LENGTH('a)" by (rule unsigned_less)
  also have "(2::nat) ^ LENGTH('a) \<le> 2 ^ LENGTH('b)" using assms by simp
  finally show ?thesis by (simp add: unsigned_ucast_eq take_bit_nat_eq_self)
qed

lemma le32_bytes_word:
  "le32_bytes (le32_word a b c d) = [a, b, c, d]"
proof -
  have x: "(ucast (drop_bit k (le32_word a b c d) AND 0xFF) :: u8) = w" 
    if "\<And>n. n < 8 \<Longrightarrow> bit (le32_word a b c d) (k + n) = bit w n" for k w
    unfolding mask_255 by (rule bit_word_eqI) (simp add: bit_simps that)
  have y: "(ucast (le32_word a b c d AND 0xFF) :: u8) = a" 
    unfolding mask_255 by (rule bit_word_eqI) (simp add: bit_simps le32_word_def)
  have "(ucast (drop_bit 8 (le32_word a b c d) AND 0xFF) :: u8) = b"
    by (rule x) (auto simp: bit_simps le32_word_def dest: bit_imp_le_length)
  moreover have "(ucast (drop_bit 16 (le32_word a b c d) AND 0xFF) :: u8) = c"
    by (rule x) (auto simp: bit_simps le32_word_def dest: bit_imp_le_length)
  moreover have "(ucast (drop_bit 24 (le32_word a b c d) AND 0xFF) :: u8) = d"
    by (rule x) (auto simp: bit_simps le32_word_def dest: bit_imp_le_length)
  ultimately show ?thesis using y by (simp add: le32_bytes_def)
qed

text \<open>The padding of a length to the next multiple of four.\<close>

lemma unat_align4:
  fixes used :: size_t
  shows "unat ((4 - used mod 4) mod 4) = (4 - unat used mod 4) mod 4"
proof -
  have m: "unat (used mod 4) = unat used mod 4" by (simp add: unat_mod_distrib)
  have "used mod 4 \<le> 4" by (simp add: word_le_nat_alt m)
  then have "unat (4 - used mod 4) = 4 - unat used mod 4" by (simp add: unat_sub m)
  then show ?thesis by (simp add: unat_mod_distrib)
qed

lemma take_bit_word_self:
  fixes w :: "'a::len word"
  assumes "unat w < 2 ^ n"
  shows "take_bit n w = w"
  using assms by (simp add: word_unat_eq_iff unsigned_take_bit_eq take_bit_nat_eq_self)

lemma unat_of_nat_small: "n < 2 ^ LENGTH('a) \<Longrightarrow> unat (of_nat n :: 'a::len word) = n"
  by (simp add: unsigned_of_nat take_bit_nat_eq_self)

section \<open>What an operation returns, from any state\<close>

text \<open>\<open>yields R m\<close>: whatever happens, the result of \<open>m\<close> satisfies \<open>R\<close>.\<close>

definition yields :: "('a \<Rightarrow> bool) \<Rightarrow> ('s, 'a) state \<Rightarrow> bool" where
  "yields R m \<longleftrightarrow> (\<forall>s. R (eval_state m s))"

lemma yields_return: "R a \<Longrightarrow> yields R (return a)"
  by (simp add: yields_def)

lemma yields_bind: "(\<And>a. yields R (f a)) \<Longrightarrow> yields R (State_Monad.bind m f)"
  by (simp add: yields_def split: prod.split)

lemma yields_after: "yields R m \<Longrightarrow> (\<And>a. R a \<Longrightarrow> yields S (f a)) \<Longrightarrow> yields S (State_Monad.bind m f)"
  by (auto simp: yields_def split: prod.split) (metis fst_conv)

lemma yields_if: "(b \<Longrightarrow> yields R m) \<Longrightarrow> (\<not> b \<Longrightarrow> yields R n) \<Longrightarrow> yields R (if b then m else n)"
  by simp

lemma yields_case_prod: "(\<And>a b. x = (a, b) \<Longrightarrow> yields R (f a b)) \<Longrightarrow> yields R (case x of (a, b) \<Rightarrow> f a b)"
  by (simp split: prod.split)

lemmas yields_intros = yields_return yields_bind yields_if yields_case_prod

lemma yields_wp: "yields R m \<Longrightarrow> wp m (\<lambda>a _. R a) s"
  by (simp add: yields_def wp_run)

end
