(* ===== verification/Registers.thy ===== *)
theory Registers
  imports Prelude
begin

text \<open>
  The LAN9500A register map of \<open>common/smsc95xx_regs.h\<close>: offsets, bit masks and the values the
  captured bring-up writes, under the names the C headers give them (without the \<open>SMSC95XX_\<close>
  prefix). Offsets are 16 bits wide, as \<open>wIndex\<close> of a control transfer is; masks and values are
  32 bits wide.
\<close>

section \<open>Vendor requests and register offsets\<close>

definition REQ_WRITE_REGISTER :: u8 where "REQ_WRITE_REGISTER = 0xA0"
definition REQ_READ_REGISTER :: u8 where "REQ_READ_REGISTER = 0xA1"

definition REG_ID_REV :: u16 where "REG_ID_REV = 0x000"
definition REG_INT_STS :: u16 where "REG_INT_STS = 0x008"
definition REG_RX_CFG :: u16 where "REG_RX_CFG = 0x00C"
definition REG_TX_CFG :: u16 where "REG_TX_CFG = 0x010"
definition REG_HW_CFG :: u16 where "REG_HW_CFG = 0x014"
definition REG_PM_CTRL :: u16 where "REG_PM_CTRL = 0x020"
definition REG_LED_GPIO_CFG :: u16 where "REG_LED_GPIO_CFG = 0x024"
definition REG_AFC_CFG :: u16 where "REG_AFC_CFG = 0x02C"
definition REG_E2P_CMD :: u16 where "REG_E2P_CMD = 0x030"
definition REG_E2P_DATA :: u16 where "REG_E2P_DATA = 0x034"
definition REG_BURST_CAP :: u16 where "REG_BURST_CAP = 0x038"
definition REG_INT_EP_CTL :: u16 where "REG_INT_EP_CTL = 0x068"
definition REG_BULK_IN_DLY :: u16 where "REG_BULK_IN_DLY = 0x06C"
definition REG_MAC_CR :: u16 where "REG_MAC_CR = 0x100"
definition REG_ADDRH :: u16 where "REG_ADDRH = 0x104"
definition REG_ADDRL :: u16 where "REG_ADDRL = 0x108"
definition REG_HASHH :: u16 where "REG_HASHH = 0x10C"
definition REG_HASHL :: u16 where "REG_HASHL = 0x110"
definition REG_MII_ADDR :: u16 where "REG_MII_ADDR = 0x114"
definition REG_MII_DATA :: u16 where "REG_MII_DATA = 0x118"
definition REG_FLOW :: u16 where "REG_FLOW = 0x11C"
definition REG_VLAN1 :: u16 where "REG_VLAN1 = 0x120"
definition REG_COE_CR :: u16 where "REG_COE_CR = 0x130"

section \<open>Fields\<close>

definition MII_BUSY :: u32 where "MII_BUSY = 0x00000001"
definition MII_WRITE :: u32 where "MII_WRITE = 0x00000002"
definition MII_PHY_SHIFT :: nat where "MII_PHY_SHIFT = 11"
definition MII_REG_SHIFT :: nat where "MII_REG_SHIFT = 6"
definition MII_PHY_MASK :: u8 where "MII_PHY_MASK = 0x1F"
definition MII_REG_MASK :: u8 where "MII_REG_MASK = 0x1F"

definition E2P_BUSY :: u32 where "E2P_BUSY = 0x80000000"
definition E2P_TIMEOUT :: u32 where "E2P_TIMEOUT = 0x00000400"
definition E2P_LOADED :: u32 where "E2P_LOADED = 0x00000200"
definition E2P_ADDR_MASK :: u32 where "E2P_ADDR_MASK = 0x000001FF"
definition E2P_SIZE :: u32 where "E2P_SIZE = E2P_ADDR_MASK + 1"

definition HW_CFG_BCE :: u32 where "HW_CFG_BCE = 0x00000002"
definition HW_CFG_PSEL :: u32 where "HW_CFG_PSEL = 0x00000004"
definition HW_CFG_LRST :: u32 where "HW_CFG_LRST = 0x00000008"
definition HW_CFG_MEF :: u32 where "HW_CFG_MEF = 0x00000020"
definition HW_CFG_BIR :: u32 where "HW_CFG_BIR = 0x00001000"

definition MAC_CR_RXEN :: u32 where "MAC_CR_RXEN = 0x00000004"
definition MAC_CR_TXEN :: u32 where "MAC_CR_TXEN = 0x00000008"
definition MAC_CR_HPFILT :: u32 where "MAC_CR_HPFILT = 0x00002000"
definition MAC_CR_PRMS :: u32 where "MAC_CR_PRMS = 0x00040000"
definition MAC_CR_FDPX :: u32 where "MAC_CR_FDPX = 0x00100000"
definition MAC_CR_RCVOWN :: u32 where "MAC_CR_RCVOWN = 0x00800000"

definition MII_BMCR :: u8 where "MII_BMCR = 0x00"
definition MII_BMSR :: u8 where "MII_BMSR = 0x01"
definition MII_PHYID1 :: u8 where "MII_PHYID1 = 0x02"
definition MII_PHYID2 :: u8 where "MII_PHYID2 = 0x03"
definition MII_ANAR :: u8 where "MII_ANAR = 0x04"
definition MII_ANLPAR :: u8 where "MII_ANLPAR = 0x05"

definition BMSR_LINK_UP :: u16 where "BMSR_LINK_UP = 0x0004"
definition BMSR_AUTONEG_CAP :: u16 where "BMSR_AUTONEG_CAP = 0x0008"

definition PHY_ADDR :: u8 where "PHY_ADDR = 0"

definition EEPROM_SIG_OFFSET :: u16 where "EEPROM_SIG_OFFSET = 0x00"
definition EEPROM_SIGNATURE :: u8 where "EEPROM_SIGNATURE = 0xA5"
definition EEPROM_MAC_OFFSET :: u16 where "EEPROM_MAC_OFFSET = 0x01"
definition MAC_LEN :: size_t where "MAC_LEN = 6"

section \<open>TX and RX framing\<close>

definition TX_HEADER_LEN :: size_t where "TX_HEADER_LEN = 8"
definition TX_CMD_A_LEN_MASK :: u32 where "TX_CMD_A_LEN_MASK = 0x000007FF"
definition TX_CMD_A_LAST_SEG :: u32 where "TX_CMD_A_LAST_SEG = 0x00001000"
definition TX_CMD_A_FIRST_SEG :: u32 where "TX_CMD_A_FIRST_SEG = 0x00002000"
definition TX_CMD_B_LEN_MASK :: u32 where "TX_CMD_B_LEN_MASK = 0x000007FF"

definition FRAME_MIN :: size_t where "FRAME_MIN = 42"
definition FRAME_MAX :: size_t where "FRAME_MAX = 1514"

definition RX_HEADER_LEN :: size_t where "RX_HEADER_LEN = 4"
definition RX_STS_FILTER_FAIL :: u32 where "RX_STS_FILTER_FAIL = 0x40000000"
definition RX_STS_LEN_MASK :: u32 where "RX_STS_LEN_MASK = 0x3FFF0000"
definition RX_STS_LEN_SHIFT :: nat where "RX_STS_LEN_SHIFT = 16"
definition RX_STS_ERROR_SUM :: u32 where "RX_STS_ERROR_SUM = 0x00008000"
definition RX_CRC_LEN :: size_t where "RX_CRC_LEN = 4"

section \<open>Values the bring-up writes\<close>

definition HW_CFG_INIT_1 :: u32 where "HW_CFG_INIT_1 = 0x00001004"
definition HW_CFG_INIT_2 :: u32 where "HW_CFG_INIT_2 = 0x00001026"
definition BURST_CAP_INIT :: u32 where "BURST_CAP_INIT = 0x00000005"
definition BULK_IN_DLY_INIT :: u32 where "BULK_IN_DLY_INIT = 0x00002000"
definition LED_GPIO_CFG_INIT :: u32 where "LED_GPIO_CFG_INIT = 0x81110007"
definition AFC_CFG_INIT :: u32 where "AFC_CFG_INIT = 0x00F830A1"
definition AFC_CFG_HALF_DUPLEX_BITS :: u32 where "AFC_CFG_HALF_DUPLEX_BITS = 0x0000000F"
definition VLAN1_INIT :: u32 where "VLAN1_INIT = 0x00008100"
definition INT_STS_CLEAR_ALL :: u32 where "INT_STS_CLEAR_ALL = 0xFFFFFFFF"
definition TX_CFG_ON :: u32 where "TX_CFG_ON = 0x00000004"
definition PM_CTRL_PHY_RST :: u32 where "PM_CTRL_PHY_RST = 0x00000010"

lemmas reg_defs = REG_ID_REV_def REG_INT_STS_def REG_RX_CFG_def REG_TX_CFG_def REG_HW_CFG_def
  REG_PM_CTRL_def REG_LED_GPIO_CFG_def REG_AFC_CFG_def REG_E2P_CMD_def REG_E2P_DATA_def
  REG_BURST_CAP_def REG_INT_EP_CTL_def REG_BULK_IN_DLY_def REG_MAC_CR_def REG_ADDRH_def
  REG_ADDRL_def REG_HASHH_def REG_HASHL_def REG_MII_ADDR_def REG_MII_DATA_def REG_FLOW_def
  REG_VLAN1_def REG_COE_CR_def

lemmas e2p_defs = E2P_BUSY_def E2P_TIMEOUT_def E2P_LOADED_def E2P_ADDR_MASK_def E2P_SIZE_def

lemmas mac_cr_defs = MAC_CR_RXEN_def MAC_CR_TXEN_def MAC_CR_HPFILT_def MAC_CR_PRMS_def
  MAC_CR_FDPX_def MAC_CR_RCVOWN_def

lemmas mii_defs = MII_BUSY_def MII_WRITE_def MII_PHY_SHIFT_def MII_REG_SHIFT_def
  MII_PHY_MASK_def MII_REG_MASK_def

lemmas tx_frame_defs = TX_HEADER_LEN_def TX_CMD_A_LEN_MASK_def TX_CMD_A_LAST_SEG_def
  TX_CMD_A_FIRST_SEG_def TX_CMD_B_LEN_MASK_def FRAME_MIN_def FRAME_MAX_def

lemmas rx_frame_defs = RX_HEADER_LEN_def RX_STS_LEN_MASK_def RX_STS_LEN_SHIFT_def RX_CRC_LEN_def

lemmas init_value_defs = HW_CFG_LRST_def HW_CFG_INIT_1_def HW_CFG_INIT_2_def BURST_CAP_INIT_def
  BULK_IN_DLY_INIT_def LED_GPIO_CFG_INIT_def AFC_CFG_INIT_def AFC_CFG_HALF_DUPLEX_BITS_def
  VLAN1_INIT_def INT_STS_CLEAR_ALL_def TX_CFG_ON_def PM_CTRL_PHY_RST_def

text \<open>The composite values are the bits their comments name.\<close>

lemma HW_CFG_INIT_1_bits: "HW_CFG_INIT_1 = HW_CFG_BIR OR HW_CFG_PSEL"
  by (simp add: HW_CFG_INIT_1_def HW_CFG_BIR_def HW_CFG_PSEL_def)

lemma HW_CFG_INIT_2_bits:
  "HW_CFG_INIT_2 = HW_CFG_BIR OR HW_CFG_MEF OR HW_CFG_PSEL OR HW_CFG_BCE"
  by (simp add: HW_CFG_INIT_2_def HW_CFG_BIR_def HW_CFG_MEF_def HW_CFG_PSEL_def HW_CFG_BCE_def)

end
