(* ===== verification/Proto.thy ===== *)
theory Proto
  imports Registers
begin

text \<open>
  The pure protocol layer \<open>common/smsc95xx_proto.c\<close>: MII and EEPROM command words, the station
  address, TX and RX framing, the \<open>vid:pid\<close> parser and the MAC plausibility check. A buffer is
  the list of its bytes, a pointer into it is an index, and an out-parameter is part of the
  result. Every function is total over its integer arguments, as the header says.
\<close>

section \<open>Command words\<close>

definition smsc95xx_mii_addr_word :: "u8 \<Rightarrow> u8 \<Rightarrow> bool \<Rightarrow> u32" where
  "smsc95xx_mii_addr_word phy reg write =
     (let word = MII_BUSY;
          word = word OR push_bit MII_PHY_SHIFT (ucast (phy AND MII_PHY_MASK));
          word = word OR push_bit MII_REG_SHIFT (ucast (reg AND MII_REG_MASK))
      in if write then word OR MII_WRITE else word)"

definition smsc95xx_e2p_read_cmd :: "u16 \<Rightarrow> u32" where
  "smsc95xx_e2p_read_cmd offset = E2P_BUSY OR (ucast offset AND E2P_ADDR_MASK)"

definition smsc95xx_id_rev_split :: "u32 \<Rightarrow> u16 \<times> u16" where
  "smsc95xx_id_rev_split id_rev = (ucast (drop_bit 16 id_rev), ucast (id_rev AND 0xFFFF))"

section \<open>The station address\<close>

definition smsc95xx_mac_to_regs :: "u8 list \<Rightarrow> u32 \<times> u32" where
  "smsc95xx_mac_to_regs mac =
     (ucast (mac ! 0) OR push_bit 8 (ucast (mac ! 1))
        OR push_bit 16 (ucast (mac ! 2)) OR push_bit 24 (ucast (mac ! 3)),
      ucast (mac ! 4) OR push_bit 8 (ucast (mac ! 5)))"

definition smsc95xx_regs_to_mac :: "u32 \<Rightarrow> u32 \<Rightarrow> u8 list" where
  "smsc95xx_regs_to_mac addrl addrh =
     [ucast (addrl AND 0xFF), ucast (drop_bit 8 addrl AND 0xFF),
      ucast (drop_bit 16 addrl AND 0xFF), ucast (drop_bit 24 addrl AND 0xFF),
      ucast (addrh AND 0xFF), ucast (drop_bit 8 addrh AND 0xFF)]"

definition smsc95xx_eeprom_sig_valid :: "u8 \<Rightarrow> bool" where
  "smsc95xx_eeprom_sig_valid sig \<longleftrightarrow> sig = EEPROM_SIGNATURE"

definition smsc95xx_bmsr_link_up :: "u16 \<Rightarrow> bool" where
  "smsc95xx_bmsr_link_up bmsr \<longleftrightarrow> bmsr AND BMSR_LINK_UP \<noteq> 0"

definition smsc95xx_bmsr_autoneg_capable :: "u16 \<Rightarrow> bool" where
  "smsc95xx_bmsr_autoneg_capable bmsr \<longleftrightarrow> bmsr AND BMSR_AUTONEG_CAP \<noteq> 0"

section \<open>TX framing\<close>

text \<open>\<open>put_le32(p, v)\<close> with \<open>p\<close> the index of the first byte written.\<close>

definition put_le32 :: "u8 list \<Rightarrow> nat \<Rightarrow> u32 \<Rightarrow> u8 list" where
  "put_le32 buf p v =
     buf[p := ucast (v AND 0xFF),
         p + 1 := ucast (drop_bit 8 v AND 0xFF),
         p + 2 := ucast (drop_bit 16 v AND 0xFF),
         p + 3 := ucast (drop_bit 24 v AND 0xFF)]"

definition smsc95xx_tx_prepend :: "u8 list \<Rightarrow> size_t \<Rightarrow> size_t \<Rightarrow> size_t \<times> u8 list" where
  "smsc95xx_tx_prepend buf buflen frame_len =
     (if buflen < TX_HEADER_LEN then (0, buf)
      else if frame_len < FRAME_MIN \<or> FRAME_MAX < frame_len then (0, buf)
      else
        let len = (ucast frame_len :: u32);
            cmd_a = (len AND TX_CMD_A_LEN_MASK) OR TX_CMD_A_FIRST_SEG OR TX_CMD_A_LAST_SEG;
            cmd_b = len AND TX_CMD_B_LEN_MASK;
            buf = put_le32 buf 0 cmd_a;
            buf = put_le32 buf 4 cmd_b
        in (TX_HEADER_LEN, buf))"

section \<open>RX framing\<close>

definition get_le32 :: "u8 list \<Rightarrow> nat \<Rightarrow> u32" where
  "get_le32 p i = le32_word (p ! i) (p ! (i + 1)) (p ! (i + 2)) (p ! (i + 3))"

text \<open>
  What a successful call leaves in its out-parameters: the index in the buffer where the frame
  starts (the C code hands out the pointer \<open>buf + frame\<close>), the frame's length with its CRC, the
  raw status word, and the offset of the next record.
\<close>

record rx_record =
  rx_frame :: size_t
  rx_frame_len :: size_t
  rx_status :: u32
  rx_offset :: size_t

definition smsc95xx_rx_next :: "u8 list \<Rightarrow> size_t \<Rightarrow> size_t \<Rightarrow> rx_record option" where
  "smsc95xx_rx_next buf len offset =
     (let at = offset in
      if len < at + RX_HEADER_LEN then None
      else
        let sts = get_le32 buf (unat at);
            flen = (ucast (drop_bit RX_STS_LEN_SHIFT (sts AND RX_STS_LEN_MASK)) :: size_t)
        in
        if flen < RX_CRC_LEN then None
        else if len < at + RX_HEADER_LEN + flen then None
        else
          let used = RX_HEADER_LEN + flen
          in Some \<lparr>rx_frame = at + RX_HEADER_LEN, rx_frame_len = flen, rx_status = sts,
                   rx_offset = at + used + (4 - used mod 4) mod 4\<rparr>)"

section \<open>Parsing vid:pid\<close>

text \<open>The digit loop of \<open>parse_hex16\<close>, over the characters left between \<open>s\<close> and \<open>end\<close>.\<close>

definition hex_digit :: "char \<Rightarrow> u32 option" where
  "hex_digit c =
     (let b = (of_char c :: nat) in
      if of_char CHR ''0'' \<le> b \<and> b \<le> of_char CHR ''9''
        then Some (of_nat (b - of_char CHR ''0''))
      else if of_char CHR ''a'' \<le> b \<and> b \<le> of_char CHR ''f''
        then Some (of_nat (b - of_char CHR ''a'') + 10)
      else if of_char CHR ''A'' \<le> b \<and> b \<le> of_char CHR ''F''
        then Some (of_nat (b - of_char CHR ''A'') + 10)
      else None)"

fun parse_hex_digits :: "u32 \<Rightarrow> string \<Rightarrow> u16 option" where
  "parse_hex_digits v [] = Some (ucast v)"
| "parse_hex_digits v (c # cs) =
     (case hex_digit c of
        None \<Rightarrow> None
      | Some d \<Rightarrow>
          let v = push_bit 4 v OR d
          in if 0xFFFF < v then None else parse_hex_digits v cs)"

definition parse_hex16 :: "string \<Rightarrow> u16 option" where
  "parse_hex16 s =
     (if s = [] then None
      else
        let s = (if 2 < length s \<and> s ! 0 = CHR ''0'' \<and> (s ! 1 = CHR ''x'' \<or> s ! 1 = CHR ''X'')
                 then drop 2 s else s)
        in parse_hex_digits 0 s)"

text \<open>
  A C string is the list of its characters before the terminating NUL, a null pointer is \<open>None\<close>,
  and each out-parameter goes in with the value it points at and comes back with the value it
  points at afterwards.
\<close>

definition smsc95xx_parse_vid_pid ::
    "string option \<Rightarrow> u16 option \<Rightarrow> u16 option \<Rightarrow> bool \<times> u16 option \<times> u16 option" where
  "smsc95xx_parse_vid_pid s vid pid =
     (case (s, vid, pid) of
        (Some s, Some _, Some _) \<Rightarrow>
          (let vid_part = takeWhile (\<lambda>c. c \<noteq> CHR '':'') s;
               rest = dropWhile (\<lambda>c. c \<noteq> CHR '':'') s
           in case rest of
                [] \<Rightarrow> (False, vid, pid)
              | _ # pid_part \<Rightarrow>
                  (case (parse_hex16 vid_part, parse_hex16 pid_part) of
                     (Some v, Some p) \<Rightarrow> (True, Some v, Some p)
                   | _ \<Rightarrow> (False, vid, pid)))
      | _ \<Rightarrow> (False, vid, pid))"

section \<open>MAC plausibility\<close>

datatype smsc95xx_mac_check =
    MAC_PLAUSIBLE
  | MAC_ALL_ZEROS
  | MAC_ALL_ONES
  | MAC_MULTICAST

text \<open>The loop over the six bytes, carrying \<open>(all_zeros, all_ones)\<close>.\<close>

fun mac_scan :: "u8 list \<Rightarrow> nat \<Rightarrow> bool \<times> bool \<Rightarrow> bool \<times> bool" where
  "mac_scan mac 0 flags = flags"
| "mac_scan mac (Suc n) (all_zeros, all_ones) =
     (let i = 5 - n
      in mac_scan mac n (all_zeros \<and> mac ! i = 0x00, all_ones \<and> mac ! i = 0xFF))"

definition smsc95xx_mac_plausible :: "u8 list \<Rightarrow> smsc95xx_mac_check" where
  "smsc95xx_mac_plausible mac =
     (let (all_zeros, all_ones) = mac_scan mac 6 (True, True)
      in if all_zeros then MAC_ALL_ZEROS
         else if all_ones then MAC_ALL_ONES
         else if mac ! 0 AND 0x01 \<noteq> 0 then MAC_MULTICAST
         else MAC_PLAUSIBLE)"

section \<open>Command words: what the chip decodes\<close>

text \<open>
  C40: \<open>smsc95xx_mii_addr_word\<close> packs a PHY address, a register number and a direction into
  MII_ADDR: the chip reads back the low five bits of each argument in its field, the direction
  in bit 1 and the busy bit, and no other bit is set.
\<close>

theorem mii_addr_word_bits:
  "bit (smsc95xx_mii_addr_word phy reg write) n \<longleftrightarrow>
     n = 0 \<or> (n = 1 \<and> write) \<or> (n \<in> {6..<11} \<and> bit reg (n - 6))
       \<or> (n \<in> {11..<16} \<and> bit phy (n - 11))"
proof -
  have m5: "(0x1F :: u8) = mask 5" by (simp add: mask_eq_exp_minus_1)
  have "bit (1 :: u32) n \<longleftrightarrow> n = 0" by (simp add: bit_1_iff)
  moreover have "bit (2 :: u32) n \<longleftrightarrow> n = 1"
    by (auto simp: bit_2_iff)
  moreover have "bit (push_bit k (ucast (w AND mask 5 :: u8)) :: u32) n
      \<longleftrightarrow> n \<in> {k..<k + 5} \<and> bit w (n - k)" if "k \<le> 11" for k w
    using that by (auto simp: bit_simps)
  from this [of 6 reg] this [of 11 phy]
  have "bit (push_bit 6 (ucast (reg AND mask 5)) :: u32) n \<longleftrightarrow> n \<in> {6..<11} \<and> bit reg (n - 6)"
    "bit (push_bit 11 (ucast (phy AND mask 5)) :: u32) n \<longleftrightarrow> n \<in> {11..<16} \<and> bit phy (n - 11)"
    by simp_all
  ultimately show ?thesis
    by (auto simp: smsc95xx_mii_addr_word_def mii_defs m5 Let_def bit_or_iff)
qed

section \<open>The station address: the two registers hold exactly the six bytes\<close>

text \<open>
  C37: Writing a six-byte address to ADDRL and ADDRH with \<open>smsc95xx_mac_to_regs\<close> and decoding the
  two registers with \<open>smsc95xx_regs_to_mac\<close> gives the address back, whatever its bytes.
\<close>

theorem regs_to_mac_to_regs:
  assumes "length mac = 6"
  shows "case_prod smsc95xx_regs_to_mac (smsc95xx_mac_to_regs mac) = mac"
proof -
  obtain a b c d e f where m: "mac = [a, b, c, d, e, f]"
    using assms by (auto simp: length_Suc_conv eval_nat_numeral)
  have hi: "(ucast e OR push_bit 8 (ucast f) :: u32) = le32_word e f 0 0" by (simp add: le32_word_def)
  have lo: "fst (smsc95xx_mac_to_regs mac) = le32_word a b c d" by (simp add: smsc95xx_mac_to_regs_def m le32_word_def)
  have "le32_bytes (le32_word a b c d) = [a,b,c,d]" "le32_bytes (le32_word e f 0 0) = [e,f,0,0]"
    by (rule le32_bytes_word)+
  then show ?thesis 
    by (simp add: smsc95xx_mac_to_regs_def smsc95xx_regs_to_mac_def m le32_bytes_def hi flip: le32_word_def)
qed

lemma regs_to_mac_to_regs_witness:
  "case_prod smsc95xx_regs_to_mac (smsc95xx_mac_to_regs [0x00, 0x80, 0x0F, 0x95, 0x00, 0xFF])
     = [0x00, 0x80, 0x0F, 0x95, 0x00, 0xFF]"
  by (rule regs_to_mac_to_regs) simp

section \<open>Little-endian words in a buffer\<close>

lemma put_le32_eq:
  assumes "p + 4 \<le> length buf"
  shows "put_le32 buf p v = overlay buf p (le32_bytes v)"
proof (rule nth_equalityI)
  show "length (put_le32 buf p v) = length (overlay buf p (le32_bytes v))"
    using assms by (simp add: put_le32_def length_overlay)
next
  fix i assume "i < length (put_le32 buf p v)"
  then have i: "i < length buf" by (simp add: put_le32_def)
  consider "i < p" | "i = p" | "i = p + 1" | "i = p + 2" | "i = p + 3" | "p + 4 \<le> i" by linarith
  then show "put_le32 buf p v ! i = overlay buf p (le32_bytes v) ! i"
    using i assms
    by cases (auto simp: put_le32_def overlay_def le32_bytes_def nth_append numeral_eq_Suc
        Suc_le_eq dest!: less_imp_Suc_add)
qed

lemma get_le32_bytes: "get_le32 (xs @ le32_bytes v @ ys) (length xs) = v"
  by (simp add: get_le32_def le32_bytes_def nth_append le32_word_bytes)

section \<open>TX framing: the header the chip reads\<close>

lemma tx_header_words:
  assumes "unat frame_len \<le> 1514"
  shows "(ucast frame_len :: u32) AND 0x7FF = ucast frame_len"
    and "(ucast frame_len :: u32) OR 0x2000 OR 0x1000 = ucast frame_len OR 0x3000"
proof -
  have "unat frame_len < 2 ^ 11" using assms by simp
  then have "unat (ucast frame_len :: u32) < 2 ^ 11"
    by (simp add: unsigned_ucast_eq take_bit_nat_eq_self)
  then have "take_bit 11 (ucast frame_len :: u32) = ucast frame_len"
    by (rule take_bit_word_self)
  moreover have "(0x7FF :: u32) = mask 11" by (simp add: mask_eq_exp_minus_1)
  ultimately show "(ucast frame_len :: u32) AND 0x7FF = ucast frame_len"
    by (simp add: take_bit_eq_mask)
  have "(0x2000 :: u32) OR 0x1000 = 0x3000" by simp
  then show "(ucast frame_len :: u32) OR 0x2000 OR 0x1000 = ucast frame_len OR 0x3000"
    by (simp only: or.assoc)
qed

text \<open>The two command words of a single-segment frame: its length under the FIRST and LAST
  segment flags, and its length again.\<close>

definition tx_header :: "size_t \<Rightarrow> u8 list" where
  "tx_header frame_len = le32_bytes (ucast frame_len OR 0x3000) @ le32_bytes (ucast frame_len)"

lemma length_tx_header [simp]: "length (tx_header n) = 8"
  by (simp add: tx_header_def)

lemma tx_prepend_result:
  assumes "unat buflen \<le> length buf"
  shows "smsc95xx_tx_prepend buf buflen frame_len =
    (if 8 \<le> unat buflen \<and> 42 \<le> unat frame_len \<and> unat frame_len \<le> 1514
     then (8, tx_header frame_len @ drop 8 buf) else (0, buf))"
proof (cases "8 \<le> unat buflen \<and> 42 \<le> unat frame_len \<and> unat frame_len \<le> 1514")
  case True
  then have guards: "\<not> buflen < 8" "\<not> (frame_len < 42 \<or> 1514 < frame_len)"
    by (simp_all add: word_less_nat_alt word_le_nat_alt)
  have len: "8 \<le> length buf" using True assms by linarith
  have w: "(ucast frame_len :: u32) AND 0x7FF = ucast frame_len"
    "(ucast frame_len :: u32) OR 0x2000 OR 0x1000 = ucast frame_len OR 0x3000"
    using True by (simp_all add: tx_header_words)
  have "put_le32 (put_le32 buf 0 a) 4 b = le32_bytes a @ le32_bytes b @ drop 8 buf" for a b
    using len by (simp add: put_le32_eq length_overlay) (simp add: overlay_def)
  then show ?thesis
    using True guards by (simp add: smsc95xx_tx_prepend_def tx_frame_defs w Let_def tx_header_def)
next
  case False
  then show ?thesis
    by (auto simp: smsc95xx_tx_prepend_def tx_frame_defs word_less_nat_alt)
qed

text \<open>
  C36: \<open>smsc95xx_tx_prepend\<close> accepts exactly the frames of 42 to 1514 bytes when the buffer takes
  the header: it then writes the two command words over the first eight bytes, leaves every other
  byte alone and returns 8. Anything else is refused with 0 and an untouched buffer.
\<close>

theorem tx_prepend_exact:
  assumes "unat buflen \<le> length buf"
  shows "smsc95xx_tx_prepend buf buflen frame_len =
    (if 8 \<le> unat buflen \<and> 42 \<le> unat frame_len \<and> unat frame_len \<le> 1514
     then (8, tx_header frame_len @ drop 8 buf) else (0, buf))"
  using assms by (rule tx_prepend_result)

lemma tx_prepend_exact_witness:
  "smsc95xx_tx_prepend (replicate 60 7) 60 52 = (8, tx_header 52 @ replicate 52 7)"
  using tx_prepend_exact [of 60 "replicate 60 7" 52] by simp

section \<open>RX framing: bounds and progress\<close>

lemma len_field_bound: "unat (ucast (drop_bit 16 (w AND 0x3FFF0000 :: u32)) :: size_t) \<le> 16383"
proof -
  have "drop_bit 16 (w AND 0x3FFF0000) = drop_bit 16 w AND mask 14"
    by (rule bit_word_eqI) (auto simp: bit_simps mask_eq_exp_minus_1 bit_numeral_rec)
  then have "drop_bit 16 (w AND 0x3FFF0000) = take_bit 14 (drop_bit 16 w)" by (simp add: take_bit_eq_mask)
  then have "unat (drop_bit 16 (w AND 0x3FFF0000)) = take_bit 14 (unat (drop_bit 16 w))"
    by (simp add: unsigned_take_bit_eq)
  also have "\<dots> < 2 ^ 14" by (rule take_bit_nat_less_exp)
  finally show ?thesis by (simp add: unat_ucast_up)
qed


definition walk_measure :: "u32 \<Rightarrow> size_t \<Rightarrow> nat" where
  "walk_measure len off =
     (if unat off \<le> unat len + 3 then unat len + 4 - unat off else unat len + 5)"

lemma rx_next_fields:
  assumes "smsc95xx_rx_next buf len off = Some r"
  shows "rx_status r = get_le32 buf (unat off)"
    and "rx_frame_len r = ucast (drop_bit 16 (rx_status r AND 0x3FFF0000))"
    and "rx_frame r = off + 4" and "off + 4 \<le> len" and "4 \<le> rx_frame_len r"
    and "off + 4 + rx_frame_len r \<le> len"
    and "rx_offset r = off + (4 + rx_frame_len r) + (4 - (4 + rx_frame_len r) mod 4) mod 4"
  using assms by (auto simp: smsc95xx_rx_next_def rx_frame_defs Let_def not_less split: if_splits)

definition record_size :: "nat \<Rightarrow> nat" where
  "record_size flen = 4 + flen + (4 - (4 + flen) mod 4) mod 4"

lemma rx_next_nat:
  fixes len :: u32
  assumes nx: "smsc95xx_rx_next buf (ucast len) off = Some r" and off: "unat off \<le> unat len + 3"
  shows "unat (rx_frame r) = unat off + 4" 
    and "unat off + 4 + unat (rx_frame_len r) \<le> unat len"
    and "4 \<le> unat (rx_frame_len r)" "unat (rx_frame_len r) \<le> 16383"
    and "unat (rx_offset r) = unat off + record_size (unat (rx_frame_len r))"
proof -
  note f = rx_next_fields [OF nx]
  have len: "unat len < 2 ^ 32" using unsigned_less [of len] by simp
  have flen: "unat (rx_frame_len r) \<le> 16383" unfolding f(2) by (rule len_field_bound)
  have four: "unat (off + 4) = unat off + 4"
    using off len by (subst unat_add_small) simp_all
  have at: "unat off + 4 \<le> unat len"
    using f(4) by (simp add: word_le_nat_alt four unat_ucast_up)
  have fin: "unat (off + 4 + rx_frame_len r) = unat off + 4 + unat (rx_frame_len r)"
    using at len flen by (subst unat_add_small) (simp_all add: four)
  show "unat (rx_frame r) = unat off + 4" by (simp add: f(3) four)
  show "unat off + 4 + unat (rx_frame_len r) \<le> unat len"
    using f(6) by (simp add: word_le_nat_alt unat_ucast_up fin)
  show "4 \<le> unat (rx_frame_len r)" 
    using f(5) by (simp add: word_le_nat_alt)
  show "unat (rx_frame_len r) \<le> 16383" by (rule flen)
  have used: "unat (4 + rx_frame_len r) = 4 + unat (rx_frame_len r)"
    using flen by (subst unat_add_small) simp_all
  have pad: "unat ((4 - (4 + rx_frame_len r) mod 4) mod 4) = (4 - (4 + unat (rx_frame_len r)) mod 4) mod 4"
    by (simp only: unat_align4 used)
  have "unat (off + (4 + rx_frame_len r)) = unat off + (4 + unat (rx_frame_len r))"
    using at len flen by (subst unat_add_small) (simp_all add: used)
  moreover have "(4 - (4 + unat (rx_frame_len r)) mod 4) mod 4 < (4::nat)" by simp
  ultimately show "unat (rx_offset r) = unat off + record_size (unat (rx_frame_len r))"
    using at len flen unfolding f(7)
    by (subst unat_add_small) (simp_all add: pad record_size_def)
qed

lemma rx_next_wrapped:
  fixes len :: u32
  assumes nx: "smsc95xx_rx_next buf (ucast len) off = Some r" and off: "unat len + 3 < unat off"
  shows "unat (rx_offset r) \<le> unat len + 3"
proof -
  note f = rx_next_fields [OF nx]
  have len: "unat len < 2 ^ 32" using unsigned_less [of len] by simp
  have flen: "unat (rx_frame_len r) \<le> 16383" unfolding f(2) by (rule len_field_bound)
  have at: "unat (off + 4) \<le> unat len"
    using f(4) by (simp add: word_le_nat_alt unat_ucast_up)
  have fin: "unat (off + 4 + rx_frame_len r) = unat (off + 4) + unat (rx_frame_len r)"
    using at len flen by (subst unat_add_small) simp_all
  then have le: "unat (off + 4) + unat (rx_frame_len r) \<le> unat len"
    using f(6) by (simp add: word_le_nat_alt unat_ucast_up)
  have "unat ((4 - (4 + rx_frame_len r) mod 4) mod 4) \<le> 3"
    unfolding unat_align4 by (simp add: less_Suc_eq_le [symmetric])
  moreover have "rx_offset r = off + 4 + rx_frame_len r + (4 - (4 + rx_frame_len r) mod 4) mod 4"
    by (simp add: f(7) add.assoc)
  ultimately show ?thesis
    using le len by (simp only:) (subst unat_add_small, simp_all add: fin)
qed

lemma rx_next_progress:
  fixes len :: u32
  assumes nx: "smsc95xx_rx_next buf (ucast len) off = Some r"
  shows "walk_measure len (rx_offset r) < walk_measure len off"
proof (cases "unat off \<le> unat len + 3")
  case True
  have "unat off + 4 \<le> unat len" using rx_next_nat(2) [OF nx True] by simp
  moreover have "0 < record_size (unat (rx_frame_len r))"
      "record_size (unat (rx_frame_len r)) \<le> 4 + unat (rx_frame_len r) + 3"
    by (simp_all add: record_size_def less_Suc_eq_le [symmetric])
  ultimately show ?thesis
    using rx_next_nat(2,5) [OF nx True] True by (simp add: walk_measure_def)
next
  case False
  then show ?thesis using rx_next_wrapped [OF nx] by (simp add: walk_measure_def)
qed

section \<open>MAC plausibility\<close>

lemma replicate_6: "replicate 6 v = [v, v, v, v, v, v]"
  by (simp add: eval_nat_numeral)

text \<open>
  C39: \<open>smsc95xx_mac_plausible\<close> on a six-byte address: the all-zeros and the all-ones address are
  named as such, any other address with the group bit set is multicast, and everything else, and
  nothing but that, is plausible.
\<close>

theorem mac_plausible_classifies:
  assumes "length mac = 6"
  shows "smsc95xx_mac_plausible mac =
    (if mac = replicate 6 0 then MAC_ALL_ZEROS
     else if mac = replicate 6 0xFF then MAC_ALL_ONES
     else if odd (unat (hd mac)) then MAC_MULTICAST
     else MAC_PLAUSIBLE)"
proof -
  obtain a b c d e f where m: "mac = [a, b, c, d, e, f]"
    using assms by (auto simp: length_Suc_conv eval_nat_numeral)
  have "mac_scan mac 6 (True, True) = (mac = replicate 6 0, mac = replicate 6 0xFF)"
    by (simp add: m eval_nat_numeral)
  moreover have "odd (unat a) \<longleftrightarrow> odd a"
    by (simp only: bit_0 [symmetric] bit_unsigned_iff) simp
  then have "mac ! 0 AND 1 \<noteq> 0 \<longleftrightarrow> odd (unat (hd mac))"
    by (simp add: m and_one_eq odd_iff_mod_2_eq_one)
  ultimately show ?thesis
    by (simp add: smsc95xx_mac_plausible_def)
qed

lemma mac_plausible_classifies_witness:
  "smsc95xx_mac_plausible [0x00, 0x80, 0x0F, 0x95, 0x00, 0x01] = MAC_PLAUSIBLE"
  by (subst mac_plausible_classifies) (simp_all add: replicate_6)

section \<open>The vid:pid parser is the hexadecimal reading of its two halves\<close>

definition hex_digit_value :: "char \<Rightarrow> nat option" where
  "hex_digit_value c =
     (if c \<in> set ''0123456789'' then Some (of_char c - of_char CHR ''0'')
      else if c \<in> set ''abcdef'' then Some (of_char c - of_char CHR ''a'' + 10)
      else if c \<in> set ''ABCDEF'' then Some (of_char c - of_char CHR ''A'' + 10)
      else None)"

text \<open>The value of a string of hexadecimal digits, with no bound on its size.\<close>

fun hex_value :: "nat \<Rightarrow> string \<Rightarrow> nat option" where
  "hex_value acc [] = Some acc"
| "hex_value acc (c # cs) =
     (case hex_digit_value c of None \<Rightarrow> None | Some d \<Rightarrow> hex_value (16 * acc + d) cs)"

definition strip_0x :: "string \<Rightarrow> string" where
  "strip_0x s = (case s of
     z # x # c # cs \<Rightarrow> if z = CHR ''0'' \<and> x \<in> {CHR ''x'', CHR ''X''} then c # cs else s
   | _ \<Rightarrow> s)"

text \<open>What \<open>parse_hex16\<close> should mean: a non-empty hexadecimal number, after an optional \<open>0x\<close>,
  that fits in 16 bits.\<close>

definition hex16_value :: "string \<Rightarrow> nat option" where
  "hex16_value s =
     (if s = [] then None
      else case hex_value 0 (strip_0x s) of
             None \<Rightarrow> None
           | Some n \<Rightarrow> if n < 65536 then Some n else None)"

lemma char_range:
  assumes "map of_char s = [lo..<Suc hi]"
  shows "lo \<le> of_char c \<and> of_char c \<le> hi \<longleftrightarrow> c \<in> set s"
proof -
  have "lo \<le> of_char c \<and> of_char c \<le> hi \<longleftrightarrow> (of_char c :: nat) \<in> of_char ` set s"
    by (simp add: set_map [symmetric] assms less_Suc_eq_le del: set_map upt_Suc)
  also have "\<dots> \<longleftrightarrow> c \<in> set s" by (auto dest: injD [OF inj_of_char])
  finally show ?thesis .
qed

lemma hex_digit_ranges:
  "48 \<le> (of_char c :: nat) \<and> (of_char c :: nat) \<le> 57 \<longleftrightarrow> c \<in> set ''0123456789''"
  "97 \<le> (of_char c :: nat) \<and> (of_char c :: nat) \<le> 102 \<longleftrightarrow> c \<in> set ''abcdef''"
  "65 \<le> (of_char c :: nat) \<and> (of_char c :: nat) \<le> 70 \<longleftrightarrow> c \<in> set ''ABCDEF''"
  by (rule char_range, simp add: upt_rec)+

lemma hex_digit_eq: "hex_digit c = map_option of_nat (hex_digit_value c)"
  using hex_digit_ranges [of c]
  unfolding hex_digit_def hex_digit_value_def Let_def by (simp del: list.set)

lemma hex_digit_value_less: "hex_digit_value c = Some d \<Longrightarrow> d < 16"
  using hex_digit_ranges [of c]
  by (auto simp: hex_digit_value_def simp del: list.set split: if_split_asm)

lemma hex_value_ge: "hex_value acc cs = Some n \<Longrightarrow> acc \<le> n"
  by (induction cs arbitrary: acc) (auto split: option.splits, fastforce)

lemma shift_or_digit:
  fixes v :: u32
  assumes "unat v \<le> 0xFFFF" and "d < 16"
  shows "unat (push_bit 4 v OR of_nat d) = 16 * unat v + d"
proof -
  have d: "unat (of_nat d :: u32) = d" using assms by (simp add: unat_of_nat_small)
  have v: "unat (push_bit 4 v) = 16 * unat v"
    using assms by (simp add: push_bit_eq_mult unat_word_ariths)
  have "push_bit 4 v AND (of_nat d :: u32) = 0"
  proof (rule bit_word_eqI)
    fix n
    have "take_bit 4 (of_nat d :: u32) = of_nat d"
      using assms by (intro take_bit_word_self) (simp add: d)
    then have "bit (of_nat d :: u32) n \<Longrightarrow> n < 4" by (metis bit_take_bit_iff)
    then show "bit (push_bit 4 v AND (of_nat d :: u32)) n = bit (0 :: u32) n"
      by (auto simp: bit_and_iff bit_push_bit_iff)
  qed
  then have "push_bit 4 v OR of_nat d = push_bit 4 v + (of_nat d :: u32)"
    by (simp add: disjunctive_add_eq_or)
  then show ?thesis using assms by (simp add: unat_add_small v d)
qed

lemma parse_hex_digits_value:
  "unat v \<le> 0xFFFF \<Longrightarrow> parse_hex_digits v cs =
     (case hex_value (unat v) cs of
        None \<Rightarrow> None
      | Some n \<Rightarrow> if n < 65536 then Some (of_nat n) else None)"
proof (induction cs arbitrary: v)
  case Nil
  then show ?case by (simp add: of_nat_unat)
next
  case (Cons c cs)
  show ?case
  proof (cases "hex_digit_value c")
    case None
    then show ?thesis by (simp add: hex_digit_eq)
  next
    case (Some d)
    let ?w = "push_bit 4 v OR (of_nat d :: u32)"
    have w: "unat ?w = 16 * unat v + d"
      using Cons.prems hex_digit_value_less [OF Some] by (rule shift_or_digit)
    show ?thesis
    proof (cases "0xFFFF < ?w")
      case True
      then have "65536 \<le> 16 * unat v + d" by (simp add: word_less_nat_alt w)
      moreover have "hex_value (16 * unat v + d) cs = Some n \<Longrightarrow> 16 * unat v + d \<le> n" for n
        by (rule hex_value_ge)
      ultimately show ?thesis using True Some
        by (auto simp: hex_digit_eq Let_def split: option.split)
    next
      case False
      then have "unat ?w \<le> 0xFFFF" by (simp add: word_less_nat_alt)
      then show ?thesis using False Some Cons.IH [of ?w] by (simp add: hex_digit_eq Let_def w)
    qed
  qed
qed

lemma strip_0x_eq:
  "(if 2 < length s \<and> s ! 0 = CHR ''0'' \<and> (s ! 1 = CHR ''x'' \<or> s ! 1 = CHR ''X'')
    then drop 2 s else s) = strip_0x s"
  by (auto simp: strip_0x_def split: list.splits)

lemma parse_hex16_value: "parse_hex16 s = map_option of_nat (hex16_value s)"
  unfolding parse_hex16_def hex16_value_def Let_def strip_0x_eq
  by (simp add: parse_hex_digits_value split: option.split)

text \<open>
  C38: \<open>smsc95xx_parse_vid_pid\<close> accepts \<open>a:b\<close>, split at the first colon, exactly when both halves
  are hexadecimal numbers below 65536 (an optional \<open>0x\<close> before each), and then stores those
  numbers; on anything else, a null pointer included, it returns false and both outputs are
  untouched.
\<close>

theorem parse_vid_pid_value:
  "smsc95xx_parse_vid_pid s vid pid =
     (case (s, vid, pid) of
        (Some s, Some _, Some _) \<Rightarrow>
          (let a = takeWhile (\<lambda>c. c \<noteq> CHR '':'') s; b = drop (length a + 1) s in
           case (hex16_value a, hex16_value b) of
             (Some v, Some p) \<Rightarrow>
               if CHR '':'' \<in> set s then (True, Some (of_nat v), Some (of_nat p))
               else (False, vid, pid)
           | _ \<Rightarrow> (False, vid, pid))
      | _ \<Rightarrow> (False, vid, pid))"
proof (cases s)
  case None
  then show ?thesis by (simp add: smsc95xx_parse_vid_pid_def)
next
  case (Some t)
  define a where "a = takeWhile (\<lambda>c. c \<noteq> CHR '':'') t"
  have split: "t = a @ dropWhile (\<lambda>c. c \<noteq> CHR '':'') t" by (simp add: a_def)
  show ?thesis
  proof (cases "dropWhile (\<lambda>c. c \<noteq> CHR '':'') t")
    case Nil
    then have "CHR '':'' \<notin> set t" by (auto simp: dropWhile_eq_Nil_conv)
    with Nil Some show ?thesis
      by (simp add: smsc95xx_parse_vid_pid_def Let_def del: dropWhile_eq_Nil_conv
          split: option.split)
  next
    case (Cons x b)
    have "dropWhile (\<lambda>c. c \<noteq> CHR '':'') t \<noteq> []" unfolding Cons by (rule list.distinct)
    then have colon: "CHR '':'' \<in> set t" unfolding dropWhile_eq_Nil_conv by blast
    have "drop (length a + 1) t = b"
      using split Cons by (metis append_eq_conv_conj drop_Suc list.sel(3) tl_drop Suc_eq_plus1)
    then have b: "drop (Suc (length (takeWhile (\<lambda>c. c \<noteq> CHR '':'') t))) t = b"
      by (simp add: a_def)
    show ?thesis
      by (cases vid; cases pid) (simp_all add: smsc95xx_parse_vid_pid_def Some Cons Let_def b
        parse_hex16_value colon split: option.split)
  qed
qed

end
