(* ===== verification/Init_Seq.thy ===== *)
theory Init_Seq
  imports Proto "HOL-Library.Sublist"
begin

text \<open>
  The shared bring-up \<open>common/smsc95xx_init.c\<close>, parameterised by the caller's register access:
  the initialisation sequence, the EEPROM reader and the register names. The callbacks work on a
  state \<open>'c\<close> of the caller (what \<open>ctx\<close> points at); a null callback or pointer is \<open>None\<close>. The
  value a read stores through its pointer goes in with the old value and comes back with the new.
\<close>

section \<open>Register access, supplied by the caller\<close>

type_synonym 'c reg_read = "u16 \<Rightarrow> u32 \<Rightarrow> ('c, kern_return \<times> u32) state"
type_synonym 'c reg_write = "u16 \<Rightarrow> u32 \<Rightarrow> ('c, kern_return) state"

record 'c smsc95xx_io =
  read_cb :: "'c reg_read option"
  write_cb :: "'c reg_write option"

text \<open>The null checks: the two callbacks, when the structure and both of them are there.\<close>

definition io_callbacks :: "'c smsc95xx_io option \<Rightarrow> ('c reg_read \<times> 'c reg_write) option" where
  "io_callbacks io =
     (case io of
        None \<Rightarrow> None
      | Some io \<Rightarrow>
          (case (read_cb io, write_cb io) of
             (Some rd, Some wr) \<Rightarrow> Some (rd, wr)
           | _ \<Rightarrow> None))"

definition INIT_ERR_BAD_ARG :: kern_return where "INIT_ERR_BAD_ARG = - 1"
definition INIT_ERR_RESET_TIMEOUT :: kern_return where "INIT_ERR_RESET_TIMEOUT = - 2"
definition INIT_ERR_E2P_TIMEOUT :: kern_return where "INIT_ERR_E2P_TIMEOUT = - 3"
definition INIT_ERR_E2P_NO_EEPROM :: kern_return where "INIT_ERR_E2P_NO_EEPROM = - 4"

definition INIT_RESET_POLLS :: nat where "INIT_RESET_POLLS = 100"
definition INIT_E2P_POLLS :: nat where "INIT_E2P_POLLS = 100"
definition INIT_WRITE_COUNT :: nat where "INIT_WRITE_COUNT = 20"

lemmas init_err_defs = INIT_ERR_BAD_ARG_def INIT_ERR_RESET_TIMEOUT_def INIT_ERR_E2P_TIMEOUT_def
  INIT_ERR_E2P_NO_EEPROM_def

section \<open>The sequence\<close>

text \<open>The macro \<open>WR(off, val)\<close>, with the rest of the function as its continuation.\<close>

definition WR :: "'c reg_write \<Rightarrow> u16 \<Rightarrow> u32 \<Rightarrow> ('c, kern_return) state \<Rightarrow> ('c, kern_return) state" where
  "WR wr off val rest = do {
     wkr \<leftarrow> wr off val;
     if wkr \<noteq> 0 then return wkr else rest
   }"

text \<open>
  The polling loops \<open>for (i = 0; ; i++) { read; if (kr) return kr; if (!(v & bits)) break;
  if (i + 1 >= polls) return err; }\<close>: the result is 0 where the loop breaks, and otherwise the
  code the function returns; the last value read comes with it.
\<close>

function poll_clear :: "'c reg_read \<Rightarrow> u16 \<Rightarrow> u32 \<Rightarrow> nat \<Rightarrow> kern_return \<Rightarrow> nat \<Rightarrow> u32
    \<Rightarrow> ('c, kern_return \<times> u32) state" where
  "poll_clear rd reg bits polls err i v = do {
     (kr, v) \<leftarrow> rd reg v;
     if kr \<noteq> 0 then return (kr, v)
     else if v AND bits = 0 then return (0, v)
     else if polls \<le> i + 1 then return (err, v)
     else poll_clear rd reg bits polls err (i + 1) v
   }"
  by pat_completeness auto

termination
  by (relation "measure (\<lambda>(rd, reg, bits, polls, err, i, v). polls - i)") auto

declare poll_clear.simps [simp del]

definition smsc95xx_init_seq ::
    "'c smsc95xx_io option \<Rightarrow> u8 list option \<Rightarrow> bool \<Rightarrow> ('c, kern_return) state" where
  "smsc95xx_init_seq io mac promiscuous =
     (case (io_callbacks io, mac) of
        (Some (rd, wr), Some mac) \<Rightarrow>
          WR wr REG_HW_CFG HW_CFG_LRST (do {
          (kr, v) \<leftarrow> poll_clear rd REG_HW_CFG HW_CFG_LRST INIT_RESET_POLLS INIT_ERR_RESET_TIMEOUT 0 0;
          if kr \<noteq> 0 then return kr else
          let (addrl, addrh) = smsc95xx_mac_to_regs mac in
          WR wr REG_ADDRL addrl (
          WR wr REG_ADDRH addrh (
          WR wr REG_HW_CFG HW_CFG_INIT_1 (
          WR wr REG_BURST_CAP BURST_CAP_INIT (
          WR wr REG_BULK_IN_DLY BULK_IN_DLY_INIT (
          WR wr REG_HW_CFG HW_CFG_INIT_2 (
          WR wr REG_INT_STS INT_STS_CLEAR_ALL (
          WR wr REG_LED_GPIO_CFG LED_GPIO_CFG_INIT (
          WR wr REG_FLOW 0 (
          WR wr REG_AFC_CFG AFC_CFG_INIT (
          WR wr REG_VLAN1 VLAN1_INIT (
          WR wr REG_HASHH 0 (
          WR wr REG_HASHL 0 (
          let mac_cr = MAC_CR_TXEN OR MAC_CR_RXEN OR MAC_CR_RCVOWN;
              mac_cr = (if promiscuous then mac_cr OR MAC_CR_PRMS else mac_cr) in
          WR wr REG_MAC_CR 0 (
          WR wr REG_MAC_CR MAC_CR_TXEN (
          WR wr REG_TX_CFG TX_CFG_ON (
          WR wr REG_MAC_CR mac_cr (
          WR wr REG_AFC_CFG (AFC_CFG_INIT OR AFC_CFG_HALF_DUPLEX_BITS) (do {
          (kr, v) \<leftarrow> rd REG_PM_CTRL v;
          if kr \<noteq> 0 then return kr else
          WR wr REG_PM_CTRL (v OR PM_CTRL_PHY_RST) (
          return 0)
          }))))))))))))))))))
          })
      | _ \<Rightarrow> return INIT_ERR_BAD_ARG)"

section \<open>The EEPROM reader\<close>

text \<open>The loop over \<open>i < len\<close>, \<open>n\<close> bytes before its end, with the locals \<open>v\<close> and \<open>buf\<close>.\<close>

fun eeprom_bytes :: "'c reg_read \<Rightarrow> 'c reg_write \<Rightarrow> u16 \<Rightarrow> nat \<Rightarrow> size_t \<Rightarrow> u32 \<Rightarrow> u8 list
    \<Rightarrow> ('c, kern_return \<times> u8 list) state" where
  "eeprom_bytes rd wr offset 0 i v buf = return (0, buf)"
| "eeprom_bytes rd wr offset (Suc n) i v buf = do {
     kr \<leftarrow> wr REG_E2P_CMD (smsc95xx_e2p_read_cmd (ucast (ucast offset + i)));
     if kr \<noteq> 0 then return (kr, buf) else do {
     (kr, cmd) \<leftarrow> poll_clear rd REG_E2P_CMD E2P_BUSY INIT_E2P_POLLS INIT_ERR_E2P_TIMEOUT 0 0;
     if kr \<noteq> 0 then return (kr, buf)
     else if cmd AND E2P_TIMEOUT \<noteq> 0 then return (INIT_ERR_E2P_NO_EEPROM, buf)
     else do {
     (kr, v) \<leftarrow> rd REG_E2P_DATA v;
     if kr \<noteq> 0 then return (kr, buf)
     else eeprom_bytes rd wr offset n (i + 1) v (buf[unat i := ucast (v AND 0xFF)])
     }}
   }"

definition smsc95xx_eeprom_read ::
    "'c smsc95xx_io option \<Rightarrow> u16 \<Rightarrow> u8 list option \<Rightarrow> size_t
     \<Rightarrow> ('c, kern_return \<times> u8 list option) state" where
  "smsc95xx_eeprom_read io offset buf len =
     (case (io_callbacks io, buf) of
        (Some (rd, wr), Some b) \<Rightarrow>
          if ucast E2P_SIZE < len \<or> ucast E2P_SIZE - len < ucast offset
          then return (INIT_ERR_BAD_ARG, buf)
          else do {
            (kr, v) \<leftarrow> poll_clear rd REG_E2P_CMD E2P_BUSY INIT_E2P_POLLS INIT_ERR_E2P_TIMEOUT 0 0;
            if kr \<noteq> 0 then return (kr, buf)
            else do {
              (kr, b) \<leftarrow> eeprom_bytes rd wr offset (unat len) 0 v b;
              return (kr, Some b)
            }
          }
      | _ \<Rightarrow> return (INIT_ERR_BAD_ARG, buf))"

section \<open>Reading the EEPROM keeps the buffer's size\<close>

lemma eeprom_bytes_length:
  "yields (\<lambda>(kr, b). length b = length buf) (eeprom_bytes rd wr offset n i v buf)"
proof (induction n arbitrary: i v buf)
  case (Suc n)
  have again: "yields (\<lambda>(kr, b). length b = length buf) (eeprom_bytes rd wr offset n j w (buf[k := x]))"
    for j w k x
    using Suc [of "buf[k := x]" j w] by simp
  show ?case
    unfolding eeprom_bytes.simps by (intro yields_intros again; simp)
qed (simp add: yields_return)

lemma eeprom_read_length:
  "yields (\<lambda>(kr, out). \<exists>b. out = Some b \<and> length b = length buf)
     (smsc95xx_eeprom_read (Some \<lparr>read_cb = Some rd, write_cb = Some wr\<rparr>) offset (Some buf) len)"
  unfolding smsc95xx_eeprom_read_def io_callbacks_def option.case smsc95xx_io.simps prod.case
  by (intro yields_after [OF eeprom_bytes_length] yields_intros) (auto intro: yields_return)

section \<open>Register names\<close>

definition smsc95xx_reg_name :: "u16 \<Rightarrow> string" where
  "smsc95xx_reg_name offset =
     (if offset = REG_ID_REV then ''ID_REV''
      else if offset = REG_INT_STS then ''INT_STS''
      else if offset = REG_RX_CFG then ''RX_CFG''
      else if offset = REG_TX_CFG then ''TX_CFG''
      else if offset = REG_HW_CFG then ''HW_CFG''
      else if offset = REG_PM_CTRL then ''PM_CTRL''
      else if offset = REG_LED_GPIO_CFG then ''LED_GPIO_CFG''
      else if offset = REG_AFC_CFG then ''AFC_CFG''
      else if offset = REG_E2P_CMD then ''E2P_CMD''
      else if offset = REG_E2P_DATA then ''E2P_DATA''
      else if offset = REG_BURST_CAP then ''BURST_CAP''
      else if offset = REG_INT_EP_CTL then ''INT_EP_CTL''
      else if offset = REG_BULK_IN_DLY then ''BULK_IN_DLY''
      else if offset = REG_MAC_CR then ''MAC_CR''
      else if offset = REG_ADDRH then ''ADDRH''
      else if offset = REG_ADDRL then ''ADDRL''
      else if offset = REG_HASHH then ''HASHH''
      else if offset = REG_HASHL then ''HASHL''
      else if offset = REG_MII_ADDR then ''MII_ADDR''
      else if offset = REG_MII_DATA then ''MII_DATA''
      else if offset = REG_FLOW then ''FLOW''
      else if offset = REG_VLAN1 then ''VLAN1''
      else if offset = REG_COE_CR then ''COE_CR''
      else ''?'')"

section \<open>Abstract specification: the script of the bring-up\<close>

text \<open>
  What the sequence promises: a list of steps, each a register write, a wait for bits to clear or a
  read-modify-write, run in order and abandoned at the first failure.
\<close>

datatype init_step =
    Write u16 u32
  | Await u16 u32
  | SetBits u16 u32

definition init_script :: "u8 list \<Rightarrow> bool \<Rightarrow> init_step list" where
  "init_script mac promiscuous =
    [Write REG_HW_CFG 0x8, Await REG_HW_CFG 0x8,
     Write REG_ADDRL (fst (smsc95xx_mac_to_regs mac)), Write REG_ADDRH (snd (smsc95xx_mac_to_regs mac)),
     Write REG_HW_CFG 0x1004, Write REG_BURST_CAP 5, Write REG_BULK_IN_DLY 0x2000,
     Write REG_HW_CFG 0x1026, Write REG_INT_STS 0xFFFFFFFF, Write REG_LED_GPIO_CFG 0x81110007,
     Write REG_FLOW 0, Write REG_AFC_CFG 0xF830A1, Write REG_VLAN1 0x8100,
     Write REG_HASHH 0, Write REG_HASHL 0,
     Write REG_MAC_CR 0, Write REG_MAC_CR 0x8, Write REG_TX_CFG 4,
     Write REG_MAC_CR (if promiscuous then 0x84000C else 0x80000C),
     Write REG_AFC_CFG 0xF830AF, SetBits REG_PM_CTRL 0x10]"

fun run_script :: "'c reg_read \<Rightarrow> 'c reg_write \<Rightarrow> init_step list \<Rightarrow> u32 \<Rightarrow> ('c, kern_return) state" where
  "run_script rd wr [] v = return 0"
| "run_script rd wr (Write reg x # s) v = WR wr reg x (run_script rd wr s v)"
| "run_script rd wr (Await reg bits # s) v = do {
     (kr, v) \<leftarrow> poll_clear rd reg bits INIT_RESET_POLLS INIT_ERR_RESET_TIMEOUT 0 v;
     if kr \<noteq> 0 then return kr else run_script rd wr s v
   }"
| "run_script rd wr (SetBits reg bits # s) v = do {
     (kr, v) \<leftarrow> rd reg v;
     if kr \<noteq> 0 then return kr else WR wr reg (v OR bits) (run_script rd wr s v)
   }"

lemma init_seq_as_script:
  "smsc95xx_init_seq (Some \<lparr>read_cb = Some rd, write_cb = Some wr\<rparr>) (Some mac) promiscuous
     = run_script rd wr (init_script mac promiscuous) 0"
  by (simp add: smsc95xx_init_seq_def io_callbacks_def init_script_def init_value_defs mac_cr_defs
      split_def Let_def cong: if_cong)


section \<open>The register traffic of a run\<close>

text \<open>A completed access and its outcome, and callbacks that record theirs.\<close>

datatype io_event =
    Rd u16 kern_return u32
  | Wr u16 u32 kern_return

definition trace_rd :: "'c reg_read \<Rightarrow> ('c \<times> io_event list) reg_read" where
  "trace_rd rd off v = State (\<lambda>(c, tr).
     case run_state (rd off v) c of ((kr, v'), c') \<Rightarrow> ((kr, v'), (c', tr @ [Rd off kr v'])))"

definition trace_wr :: "'c reg_write \<Rightarrow> ('c \<times> io_event list) reg_write" where
  "trace_wr wr off v = State (\<lambda>(c, tr).
     case run_state (wr off v) c of (kr, c') \<Rightarrow> (kr, (c', tr @ [Wr off v kr])))"

definition traced_io :: "'c reg_read \<Rightarrow> 'c reg_write \<Rightarrow> ('c \<times> io_event list) smsc95xx_io" where
  "traced_io rd wr = \<lparr>read_cb = Some (trace_rd rd), write_cb = Some (trace_wr wr)\<rparr>"

fun writes_of :: "io_event list \<Rightarrow> (u16 \<times> u32) list" where
  "writes_of [] = []"
| "writes_of (Wr reg v kr # tr) = (reg, v) # writes_of tr"
| "writes_of (Rd reg kr v # tr) = writes_of tr"

fun reads_of :: "u16 \<Rightarrow> io_event list \<Rightarrow> u32 list" where
  "reads_of reg [] = []"
| "reads_of reg (Wr r v kr # tr) = reads_of reg tr"
| "reads_of reg (Rd r kr v # tr) = (if r = reg then v # reads_of reg tr else reads_of reg tr)"

lemma writes_of_append [simp]: "writes_of (xs @ ys) = writes_of xs @ writes_of ys"
  by (induction xs rule: writes_of.induct) auto

lemma reads_of_append [simp]: "reads_of reg (xs @ ys) = reads_of reg xs @ reads_of reg ys"
  by (induction reg xs rule: reads_of.induct) auto

lemma wp_trace_rd:
  assumes "\<And>kr v' c'. Q (kr, v') (c', tr @ [Rd off kr v'])"
  shows "wp (trace_rd rd off v) Q (c, tr)"
  using assms by (simp add: wp_def trace_rd_def split: prod.split)

lemma wp_trace_wr:
  assumes "\<And>kr c'. Q kr (c', tr @ [Wr off v kr])"
  shows "wp (trace_wr wr off v) Q (c, tr)"
  using assms by (simp add: wp_def trace_wr_def split: prod.split)

text \<open>What a polling loop does on the bus, with the polls it has left.\<close>

inductive polled :: "u16 \<Rightarrow> u32 \<Rightarrow> kern_return \<Rightarrow> nat \<Rightarrow> io_event list \<Rightarrow> kern_return \<Rightarrow> u32 \<Rightarrow> bool"
  for reg :: u16 and bits :: u32 and err :: kern_return where
  settled: "v AND bits = 0 \<Longrightarrow> polled reg bits err (Suc n) [Rd reg 0 v] 0 v"
| failed: "kr \<noteq> 0 \<Longrightarrow> polled reg bits err (Suc n) [Rd reg kr v] kr v"
| gives_up: "v AND bits \<noteq> 0 \<Longrightarrow> polled reg bits err (Suc 0) [Rd reg 0 v] err v"
| busy: "v AND bits \<noteq> 0 \<Longrightarrow> polled reg bits err (Suc n) tr kr v'
    \<Longrightarrow> polled reg bits err (Suc (Suc n)) (Rd reg 0 v # tr) kr v'"

lemma wp_poll_clear:
  assumes "i < polls"
  shows "wp (poll_clear (trace_rd rd) reg bits polls err i v)
    (\<lambda>(kr, v') (c', t). \<exists>tr'. t = tr @ tr' \<and> polled reg bits err (polls - i) tr' kr v') (c, tr)"
  using assms
proof (induction "polls - i" arbitrary: i v c tr)
  case 0
  then show ?case by simp
next
  case (Suc n)
  have left: "polls - i = Suc n" by (simp add: Suc.hyps(2))
  show ?case
  proof (subst poll_clear.simps, unfold wp_bind, rule wp_trace_rd)
    fix kr :: kern_return and v' :: u32 and c' :: 'a
    consider "kr \<noteq> 0" | "kr = 0" "v' AND bits = 0" | "kr = 0" "v' AND bits \<noteq> 0" "polls \<le> i + 1"
      | "kr = 0" "v' AND bits \<noteq> 0" "i + 1 < polls" by linarith
    then show "wp (case (kr, v') of (kr, v) \<Rightarrow>
        if kr \<noteq> 0 then return (kr, v)
        else if v AND bits = 0 then return (0, v)
        else if polls \<le> i + 1 then return (err, v)
        else poll_clear (trace_rd rd) reg bits polls err (i + 1) v)
      (\<lambda>(kr, v') (c', t). \<exists>tr'. t = tr @ tr' \<and> polled reg bits err (polls - i) tr' kr v')
      (c', tr @ [Rd reg kr v'])"
    proof cases
      case 3
      then have "polls - i = Suc 0" using Suc.prems by simp
      then show ?thesis using 3 by (simp add: wp_simps gives_up)
    next
      case 4
      then have "n = polls - (i + 1)" "0 < n" using Suc.hyps(2) by auto
      then obtain m where m: "n = Suc m" "polls - (i + 1) = Suc m"
        by (metis gr0_implies_Suc)
      have "wp (poll_clear (trace_rd rd) reg bits polls err (i + 1) v')
        (\<lambda>(kr, w) (c', t). \<exists>tr'. t = (tr @ [Rd reg 0 v']) @ tr' \<and>
           polled reg bits err (polls - (i + 1)) tr' kr w) (c', tr @ [Rd reg 0 v'])"
        using 4 \<open>n = polls - (i + 1)\<close> by (intro Suc.hyps(1)) auto
      then show ?thesis using 4
        by (auto simp: left m m(2) [simplified] elim!: wp_mono intro: busy)
    qed (simp_all add: wp_simps left settled failed)
  qed
qed

text \<open>The runs of a script: all of it, or up to and including the first failure.\<close>

inductive follows :: "init_step list \<Rightarrow> io_event list \<Rightarrow> kern_return \<Rightarrow> bool" where
  finished: "follows [] [] 0"
| written: "follows s tr kr \<Longrightarrow> follows (Write reg v # s) (Wr reg v 0 # tr) kr"
| write_fails: "kr \<noteq> 0 \<Longrightarrow> follows (Write reg v # s) [Wr reg v kr] kr"
| await: "polled reg bits INIT_ERR_RESET_TIMEOUT 100 tr 0 v \<Longrightarrow> follows s tr' kr
    \<Longrightarrow> follows (Await reg bits # s) (tr @ tr') kr"
| await_fails: "polled reg bits INIT_ERR_RESET_TIMEOUT 100 tr kr v \<Longrightarrow> kr \<noteq> 0
    \<Longrightarrow> follows (Await reg bits # s) tr kr"
| set_bits: "follows s tr kr
    \<Longrightarrow> follows (SetBits reg bits # s) (Rd reg 0 v # Wr reg (v OR bits) 0 # tr) kr"
| set_bits_read_fails: "kr \<noteq> 0 \<Longrightarrow> follows (SetBits reg bits # s) [Rd reg kr v] kr"
| set_bits_write_fails: "kr \<noteq> 0
    \<Longrightarrow> follows (SetBits reg bits # s) [Rd reg 0 v, Wr reg (v OR bits) kr] kr"

lemma wp_WR_traced:
  assumes "\<And>kr c'. kr \<noteq> 0 \<Longrightarrow> Q kr (c', tr @ [Wr reg v kr])"
    and "\<And>c'. wp rest Q (c', tr @ [Wr reg v 0])"
  shows "wp (WR (trace_wr wr) reg v rest) Q (c, tr)"
  unfolding WR_def wp_bind by (rule wp_trace_wr) (auto simp: wp_simps assms)

lemma wp_run_script:
  "wp (run_script (trace_rd rd) (trace_wr wr) s v)
     (\<lambda>kr (c', t). \<exists>tr'. t = tr @ tr' \<and> follows s tr' kr) (c, tr)"
proof (induction s arbitrary: v c tr)
  case Nil
  then show ?case by (simp add: wp_simps finished)
next
  case (Cons a s)
  have IH: "wp (run_script (trace_rd rd) (trace_wr wr) s v)
     (\<lambda>kr (c', t). \<exists>tr'. t = (tr @ pre) @ tr' \<and> follows s tr' kr) (c, tr @ pre)" for v c pre
    by (rule Cons.IH)
  show ?case
  proof (cases a)
    case (Write reg x)
    show ?thesis unfolding Write run_script.simps
    proof (rule wp_WR_traced)
      show "wp (run_script (trace_rd rd) (trace_wr wr) s v) (\<lambda>kr (c', t). \<exists>tr'. t = tr @ tr' \<and>
          follows (Write reg x # s) tr' kr) (c', tr @ [Wr reg x 0])" for c'
        by (rule wp_mono [OF IH]) (auto intro: written)
    qed (auto intro: write_fails)
  next
    case (Await reg bits)
    have "wp (poll_clear (trace_rd rd) reg bits INIT_RESET_POLLS INIT_ERR_RESET_TIMEOUT 0 v)
      (\<lambda>(kr, v') (c', t). \<exists>tr'. t = tr @ tr' \<and> polled reg bits INIT_ERR_RESET_TIMEOUT 100 tr' kr v')
      (c, tr)"
      using wp_poll_clear [of 0 INIT_RESET_POLLS rd reg bits INIT_ERR_RESET_TIMEOUT v tr c]
      by (simp add: INIT_RESET_POLLS_def)
    then show ?thesis unfolding Await run_script.simps wp_bind
      by (rule wp_mono) (auto simp: wp_simps intro: await_fails intro!: wp_mono [OF IH] dest: await)
  next
    case (SetBits reg bits)
    show ?thesis unfolding SetBits run_script.simps wp_bind
    proof (rule wp_trace_rd)
      fix kr :: kern_return and v' :: u32 and c' :: 'a
      have "wp (WR (trace_wr wr) reg (v' OR bits) (run_script (trace_rd rd) (trace_wr wr) s v'))
        (\<lambda>kr (c', t). \<exists>tr'. t = tr @ tr' \<and> follows (SetBits reg bits # s) tr' kr)
        (c', tr @ [Rd reg 0 v'])"
      proof (rule wp_WR_traced)
        fix c''
        show "wp (run_script (trace_rd rd) (trace_wr wr) s v') (\<lambda>kr (c', t). \<exists>tr'. t = tr @ tr' \<and>
            follows (SetBits reg bits # s) tr' kr)
            (c'', (tr @ [Rd reg 0 v']) @ [Wr reg (v' OR bits) 0])"
          unfolding append_assoc by (rule wp_mono [OF IH]) (auto intro: set_bits)
      qed (auto intro: set_bits_write_fails)
      then show "wp (case (kr, v') of (kr, v) \<Rightarrow> if kr \<noteq> 0 then return kr
            else WR (trace_wr wr) reg (v OR bits) (run_script (trace_rd rd) (trace_wr wr) s v))
          (\<lambda>kr (c', t). \<exists>tr'. t = tr @ tr' \<and> follows (SetBits reg bits # s) tr' kr)
          (c', tr @ [Rd reg kr v'])"
        by (auto simp: wp_simps intro: set_bits_read_fails)
    qed
  qed
qed

section \<open>What every run of the sequence does on the bus\<close>

fun outcome :: "io_event \<Rightarrow> kern_return" where
  "outcome (Rd reg kr v) = kr"
| "outcome (Wr reg v kr) = kr"

text \<open>The writes of a script; \<open>vs\<close> are the values its read-modify-writes read.\<close>

fun expand :: "init_step list \<Rightarrow> u32 list \<Rightarrow> (u16 \<times> u32) list" where
  "expand [] vs = []"
| "expand (Write reg v # s) vs = (reg, v) # expand s vs"
| "expand (Await reg bits # s) vs = expand s vs"
| "expand (SetBits reg bits # s) vs = (reg, hd vs OR bits) # expand s (tl vs)"

text \<open>An upper bound on the number of its register accesses.\<close>

fun accesses :: "init_step list \<Rightarrow> nat" where
  "accesses [] = 0"
| "accesses (Write reg v # s) = 1 + accesses s"
| "accesses (Await reg bits # s) = 100 + accesses s"
| "accesses (SetBits reg bits # s) = 2 + accesses s"

lemma polled_Nil [simp]: "\<not> polled reg bits err n [] kr v"
  by (auto elim: polled.cases)

lemma polled_length: "polled reg bits err n tr kr v \<Longrightarrow> length tr \<le> n"
  by (induction rule: polled.induct) auto

lemma polled_writes: "polled reg bits err n tr kr v \<Longrightarrow> writes_of tr = []"
  by (induction rule: polled.induct) auto

lemma polled_reads: "polled reg bits err n tr kr v \<Longrightarrow> r \<noteq> reg \<Longrightarrow> reads_of r tr = []"
  by (induction rule: polled.induct) auto

lemma polled_outcomes:
  "polled reg bits err n tr kr v \<Longrightarrow> (\<forall>e \<in> set (butlast tr). outcome e = 0) \<and>
     (outcome (last tr) = kr \<or> kr = err \<and> outcome (last tr) = 0)"
proof (induction rule: polled.induct)
  case (busy v n tr kr v')
  then have "tr \<noteq> []" by auto
  with busy show ?case by simp
qed simp_all

lemma reset_err_nonzero: "INIT_ERR_RESET_TIMEOUT \<noteq> 0" "INIT_ERR_E2P_TIMEOUT \<noteq> 0"
  "INIT_ERR_E2P_NO_EEPROM \<noteq> 0" "INIT_ERR_BAD_ARG \<noteq> 0"
  by (simp_all add: init_err_defs)

definition stops_at :: "kern_return \<Rightarrow> io_event list \<Rightarrow> bool" where
  "stops_at kr tr \<longleftrightarrow> (\<forall>e \<in> set (butlast tr). outcome e = 0) \<and>
     (tr \<noteq> [] \<longrightarrow> outcome (last tr) = kr \<or> kr = INIT_ERR_RESET_TIMEOUT \<and> outcome (last tr) = 0)"

lemma stops_at_Nil: "stops_at kr []"
  by (simp add: stops_at_def)

lemma stops_at_single: "outcome e = kr \<Longrightarrow> stops_at kr [e]"
  by (simp add: stops_at_def)

lemma polled_stops_at: "polled reg bits INIT_ERR_RESET_TIMEOUT n tr kr v \<Longrightarrow> stops_at kr tr"
  using polled_outcomes [of reg bits INIT_ERR_RESET_TIMEOUT n tr kr v] by (simp add: stops_at_def)

lemma stops_at_Cons:
  assumes "outcome e = 0" and "stops_at kr tr" and "tr = [] \<Longrightarrow> kr = 0"
  shows "stops_at kr (e # tr)"
  using assms by (auto simp: stops_at_def)

lemma stops_at_append:
  assumes "stops_at 0 tr" and "stops_at kr tr'" and "tr' = [] \<Longrightarrow> kr = 0"
  shows "stops_at kr (tr @ tr')"
proof (cases "tr' = []")
  case True
  then show ?thesis using assms by simp
next
  case False
  have "outcome e = 0" if "e \<in> set tr" for e
    using that assms(1) by (cases tr rule: rev_cases) (auto simp: stops_at_def)
  then show ?thesis using assms(2) False by (auto simp: stops_at_def butlast_append)
qed

lemma follows_empty: "follows s [] kr \<Longrightarrow> kr = 0"
  by (cases rule: follows.cases) auto

lemma follows_stops: "follows s tr kr \<Longrightarrow> stops_at kr tr"
proof (induction rule: follows.induct)
  case (await reg bits tr v s tr' kr)
  have "stops_at 0 tr" by (rule polled_stops_at [OF await(1)])
  then show ?case using await follows_empty by (intro stops_at_append) auto
qed (auto intro!: stops_at_Cons stops_at_single stops_at_Nil dest: polled_stops_at follows_empty)

lemma follows_accesses: "follows s tr kr \<Longrightarrow> length tr \<le> accesses s"
  by (induction rule: follows.induct) (auto dest!: polled_length)

lemma follows_prefix: "follows s tr kr \<Longrightarrow> \<exists>vs. prefix (writes_of tr) (expand s vs)"
proof (induction rule: follows.induct)
  case (set_bits s tr kr reg bits v)
  then obtain vs where "prefix (writes_of tr) (expand s vs)" by blast
  then show ?case by (intro exI [of _ "v # vs"]) simp
next
  case (set_bits_write_fails kr reg bits s v)
  show ?case by (intro exI [of _ "[v]"]) simp
qed (auto dest!: polled_writes)

lemma follows_complete: "follows s tr kr \<Longrightarrow> kr = 0 \<Longrightarrow> \<exists>vs. writes_of tr = expand s vs"
proof (induction rule: follows.induct)
  case (set_bits s tr kr reg bits v)
  then obtain vs where "writes_of tr = expand s vs" by blast
  then show ?case by (intro exI [of _ "v # vs"]) simp
qed (auto dest!: polled_writes)

definition init_writes :: "u8 list \<Rightarrow> bool \<Rightarrow> u32 \<Rightarrow> (u16 \<times> u32) list" where
  "init_writes mac promiscuous v = expand (init_script mac promiscuous) [v]"

lemma expand_init_script:
  "expand (init_script mac promiscuous) vs = init_writes mac promiscuous (hd vs)"
  by (simp add: init_writes_def init_script_def)

lemma length_init_writes: "length (init_writes mac promiscuous v) = INIT_WRITE_COUNT"
  by (simp add: init_writes_def init_script_def INIT_WRITE_COUNT_def)

lemma init_seq_follows:
  assumes "run_state (smsc95xx_init_seq (Some (traced_io rd wr)) (Some mac) promiscuous) (c, [])
     = (kr, (c', tr))"
  shows "follows (init_script mac promiscuous) tr kr"
  using wp_runD [OF wp_run_script, of rd wr "init_script mac promiscuous" 0 c "[]" kr "(c', tr)"]
    assms unfolding traced_io_def init_seq_as_script by simp

text \<open>
  C27: Every run of the initialisation sequence, whatever the chip answers: the registers written
  are a prefix of the twenty captured writes, in their order and with their values; all twenty are
  written whenever it returns 0; it stops at the first access that fails and returns exactly that
  access's code (or its own reset timeout, when the chip never clears LRST); and it makes at most
  121 register accesses.
\<close>

theorem init_seq_traffic:
  "case run_state (smsc95xx_init_seq (Some (traced_io rd wr)) (Some mac) promiscuous) (c, []) of
     (kr, (c', tr)) \<Rightarrow>
       (\<exists>v. prefix (writes_of tr) (init_writes mac promiscuous v) \<and>
            (kr = 0 \<longrightarrow> writes_of tr = init_writes mac promiscuous v)) \<and>
       (\<forall>e \<in> set (butlast tr). outcome e = 0) \<and>
       (outcome (last tr) = kr \<or> kr = INIT_ERR_RESET_TIMEOUT \<and> outcome (last tr) = 0) \<and>
       length tr \<le> 121"
proof (clarsimp)
  fix kr c' tr
  assume run: "run_state (smsc95xx_init_seq (Some (traced_io rd wr)) (Some mac) promiscuous) (c, [])
     = (kr, (c', tr))"
  note f = init_seq_follows [OF run]
  have "\<exists>v. prefix (writes_of tr) (init_writes mac promiscuous v) \<and>
            (kr = 0 \<longrightarrow> writes_of tr = init_writes mac promiscuous v)"
    using follows_prefix [OF f] follows_complete [OF f]
    unfolding expand_init_script by (metis prefix_order.refl)
  moreover have "tr \<noteq> []"
    using f unfolding init_script_def by (cases rule: follows.cases) simp_all
  then have "(\<forall>e \<in> set (butlast tr). outcome e = 0) \<and>
    (outcome (last tr) = kr \<or> kr = INIT_ERR_RESET_TIMEOUT \<and> outcome (last tr) = 0)"
    using follows_stops [OF f] by (simp add: stops_at_def)
  moreover have "length tr \<le> 121"
    using follows_accesses [OF f] by (simp add: init_script_def)
  ultimately show "(\<exists>v. prefix (writes_of tr) (init_writes mac promiscuous v) \<and>
        (kr = 0 \<longrightarrow> writes_of tr = init_writes mac promiscuous v)) \<and>
      (\<forall>e \<in> set (butlast tr). outcome e = 0) \<and>
      (outcome (last tr) = kr \<or> kr = INIT_ERR_RESET_TIMEOUT \<and> outcome (last tr) = 0) \<and>
      length tr \<le> 121" by simp
qed

text \<open>A chip that accepts every write and whose registers hold the last value written to any of
  them, less the self-clearing reset and busy bits.\<close>

definition echo_rd :: "u32 reg_read" where
  "echo_rd reg v = State (\<lambda>w. ((0, w AND 0x7FFFFBF7), w))"

definition echo_wr :: "u32 reg_write" where
  "echo_wr reg v = State (\<lambda>w. (0, v))"

lemma init_seq_traffic_witness:
  "\<exists>tr. snd (snd (run_state (smsc95xx_init_seq (Some (traced_io echo_rd echo_wr))
      (Some [0x00, 0x80, 0x0F, 0x95, 0x00, 0x01]) True) (0, []))) = tr \<and>
    (\<exists>v. writes_of tr = init_writes [0x00, 0x80, 0x0F, 0x95, 0x00, 0x01] True v)"
proof -
  have "fst (run_state (smsc95xx_init_seq (Some (traced_io echo_rd echo_wr))
      (Some [0x00, 0x80, 0x0F, 0x95, 0x00, 0x01]) True) (0, [])) = 0"
    by code_simp
  then show ?thesis
    using init_seq_traffic [where rd = echo_rd and wr = echo_wr and c = 0 and promiscuous = True
      and mac = "[0x00, 0x80, 0x0F, 0x95, 0x00, 0x01]"]
    by (auto simp: split_def)
qed

section \<open>What the EEPROM reader does on the bus\<close>

inductive e2p_reads :: "u16 \<Rightarrow> size_t \<Rightarrow> nat \<Rightarrow> io_event list \<Rightarrow> kern_return \<Rightarrow> u8 list \<Rightarrow> bool"
  for offset :: u16 where
  bytes_done: "e2p_reads offset i 0 [] 0 []"
| command_fails: "kr \<noteq> 0 \<Longrightarrow> e2p_reads offset i (Suc n)
    [Wr REG_E2P_CMD (smsc95xx_e2p_read_cmd (ucast (ucast offset + i))) kr] kr []"
| stuck: "polled REG_E2P_CMD E2P_BUSY INIT_ERR_E2P_TIMEOUT 100 tr kr v \<Longrightarrow> kr \<noteq> 0
    \<Longrightarrow> e2p_reads offset i (Suc n)
      (Wr REG_E2P_CMD (smsc95xx_e2p_read_cmd (ucast (ucast offset + i))) 0 # tr) kr []"
| no_eeprom: "polled REG_E2P_CMD E2P_BUSY INIT_ERR_E2P_TIMEOUT 100 tr 0 v \<Longrightarrow> v AND E2P_TIMEOUT \<noteq> 0
    \<Longrightarrow> e2p_reads offset i (Suc n)
      (Wr REG_E2P_CMD (smsc95xx_e2p_read_cmd (ucast (ucast offset + i))) 0 # tr)
      INIT_ERR_E2P_NO_EEPROM []"
| data_fails: "polled REG_E2P_CMD E2P_BUSY INIT_ERR_E2P_TIMEOUT 100 tr 0 v \<Longrightarrow> v AND E2P_TIMEOUT = 0
    \<Longrightarrow> kr \<noteq> 0 \<Longrightarrow> e2p_reads offset i (Suc n)
      (Wr REG_E2P_CMD (smsc95xx_e2p_read_cmd (ucast (ucast offset + i))) 0 # tr
         @ [Rd REG_E2P_DATA kr d]) kr []"
| byte: "polled REG_E2P_CMD E2P_BUSY INIT_ERR_E2P_TIMEOUT 100 tr 0 v \<Longrightarrow> v AND E2P_TIMEOUT = 0
    \<Longrightarrow> e2p_reads offset (i + 1) n tr' kr bs \<Longrightarrow> e2p_reads offset i (Suc n)
      (Wr REG_E2P_CMD (smsc95xx_e2p_read_cmd (ucast (ucast offset + i))) 0 # tr
         @ Rd REG_E2P_DATA 0 d # tr') kr (ucast (d AND 0xFF) # bs)"

lemma wp_e2p_poll:
  "wp (poll_clear (trace_rd rd) REG_E2P_CMD E2P_BUSY INIT_E2P_POLLS INIT_ERR_E2P_TIMEOUT 0 v)
     (\<lambda>(kr, v') (c', t). \<exists>tr'. t = tr @ tr' \<and>
        polled REG_E2P_CMD E2P_BUSY INIT_ERR_E2P_TIMEOUT 100 tr' kr v') (c, tr)"
  using wp_poll_clear [of 0 INIT_E2P_POLLS rd REG_E2P_CMD E2P_BUSY INIT_ERR_E2P_TIMEOUT v tr c]
  by (simp add: INIT_E2P_POLLS_def)

lemma overlay_update:
  "i < length buf \<Longrightarrow> overlay (buf[i := b]) (Suc i) bs = overlay buf i (b # bs)"
  by (simp add: overlay_def take_Suc_conv_app_nth drop_update_cancel)

lemma wp_eeprom_bytes:
  assumes "unat i + n \<le> 512" and "unat i + n \<le> length buf"
  shows "wp (eeprom_bytes (trace_rd rd) (trace_wr wr) offset n i v buf)
    (\<lambda>(kr, buf') (c', t). \<exists>tr' bs. t = tr @ tr' \<and> e2p_reads offset i n tr' kr bs \<and>
       buf' = overlay buf (unat i) bs) (c, tr)"
  using assms
proof (induction n arbitrary: i v buf c tr)
  case 0
  then show ?case by (auto simp: wp_simps overlay_def intro!: bytes_done)
next
  case (Suc n)
  have i1: "unat (i + 1) = Suc (unat i)"
    using Suc.prems by (subst unat_add_small) simp_all
  have nil: "overlay buf (unat i) [] = buf" by (simp add: overlay_def)
  show ?case unfolding eeprom_bytes.simps wp_bind
  proof (rule wp_trace_wr, goal_cases)
    case (1 kr c')
    let ?cmd = "smsc95xx_e2p_read_cmd (ucast (ucast offset + i))"
    show ?case
    proof (cases "kr = 0")
      case False
      then show ?thesis by (auto simp: wp_simps nil intro!: command_fails)
    next
      case True
      show ?thesis
      proof (simp add: True wp_bind, rule wp_mono [OF wp_e2p_poll], clarsimp, goal_cases)
        case (1 kr' cmd c'' tr')
        show ?case
        proof (cases "kr' \<noteq> 0 \<or> cmd AND E2P_TIMEOUT \<noteq> 0")
          case True
          then show ?thesis using 1
            by (auto simp: wp_simps nil intro: stuck no_eeprom)
        next
          case False
          with 1 have p: "polled REG_E2P_CMD E2P_BUSY INIT_ERR_E2P_TIMEOUT 100 tr' 0 cmd"
            "cmd AND E2P_TIMEOUT = 0" by simp_all
          let ?tr = "tr @ Wr REG_E2P_CMD ?cmd 0 # tr'"
          have "wp (trace_rd rd REG_E2P_DATA v >>= (\<lambda>(kr, v). if kr \<noteq> 0 then return (kr, buf)
              else eeprom_bytes (trace_rd rd) (trace_wr wr) offset n (i + 1) v
                (buf[unat i := ucast (v AND 0xFF)])))
            (\<lambda>(kr, buf') (c', t). \<exists>tr' bs. t = tr @ tr' \<and> e2p_reads offset i (Suc n) tr' kr bs \<and>
              buf' = overlay buf (unat i) bs) (c'', ?tr)"
            unfolding wp_bind
          proof (rule wp_trace_rd, goal_cases)
            case (1 kr d c3)
            show ?case
            proof (cases "kr = 0")
              case False
              then show ?thesis by (auto simp: wp_simps nil intro!: data_fails [OF p])
            next
              case True
              have "wp (eeprom_bytes (trace_rd rd) (trace_wr wr) offset n (i + 1) d
                  (buf[unat i := ucast (d AND 0xFF)]))
                (\<lambda>(kr, buf') (c', t). \<exists>tr' bs. t = (?tr @ [Rd REG_E2P_DATA 0 d]) @ tr' \<and>
                   e2p_reads offset (i + 1) n tr' kr bs \<and>
                   buf' = overlay (buf[unat i := ucast (d AND 0xFF)]) (unat (i + 1)) bs)
                (c3, ?tr @ [Rd REG_E2P_DATA 0 d])"
                using Suc.prems by (intro Suc.IH) (simp_all add: i1)
              then show ?thesis using Suc.prems
                by (auto simp: True i1 overlay_update elim!: wp_mono intro!: byte [OF p])
            qed
          qed
          then show ?thesis using False by simp
        qed
      qed
    qed
  qed
qed

lemma ucast_low_byte: "(ucast (d AND 0xFF :: u32) :: u8) = ucast d"
  unfolding mask_255 by (rule bit_word_eqI) (simp add: bit_simps)

lemma e2p_read_cmd_address:
  fixes offset :: u16
  assumes "unat offset + unat i < 512"
  shows "smsc95xx_e2p_read_cmd (ucast (ucast offset + i :: size_t))
    = E2P_BUSY OR of_nat (unat offset + unat i)"
proof -
  have m: "(0x1FF :: u32) = mask 9" by (simp add: mask_eq_exp_minus_1)
  have "unat (ucast offset + i :: size_t) = unat offset + unat i"
    using assms by (subst unat_add_small) (simp_all add: unat_ucast_up)
  then have "unat (ucast (ucast (ucast offset + i :: size_t) :: u16) :: u32) = unat offset + unat i"
    using assms by (simp add: unat_ucast_up) (simp add: unsigned_ucast_eq take_bit_nat_eq_self)
  then have "(ucast (ucast (ucast offset + i :: size_t) :: u16) :: u32) = of_nat (unat offset + unat i)"
    by (metis of_nat_unat ucast_id)
  moreover have "take_bit 9 (of_nat (unat offset + unat i) :: u32) = of_nat (unat offset + unat i)"
    using assms by (intro take_bit_word_self) (simp add: unat_of_nat_small del: of_nat_add)
  ultimately show ?thesis
    by (simp add: smsc95xx_e2p_read_cmd_def e2p_defs m flip: take_bit_eq_mask)
qed

lemma e2p_reads_facts:
  assumes "e2p_reads offset i n tr kr bs" and "unat offset + unat i + n \<le> 512" and "unat i + n \<le> 512"
  shows "length bs \<le> n \<and> length tr \<le> 102 * n \<and>
     take (length bs) (map ucast (reads_of REG_E2P_DATA tr)) = bs \<and>
     (kr = 0 \<longrightarrow> length bs = n \<and> length (reads_of REG_E2P_DATA tr) = n \<and> writes_of tr =
        map (\<lambda>a. (REG_E2P_CMD, E2P_BUSY OR of_nat a)) [unat offset + unat i..<unat offset + unat i + n])"
  using assms
proof (induction rule: e2p_reads.induct)
  case (byte tr v i n tr' kr bs d)
  have i1: "unat (i + 1) = Suc (unat i)"
    using byte.prems by (subst unat_add_small) simp_all
  have neq: "REG_E2P_DATA \<noteq> REG_E2P_CMD" by (simp add: reg_defs)
  note IH = byte.IH [unfolded i1]
  have cmd: "smsc95xx_e2p_read_cmd (ucast (ucast offset + i)) = E2P_BUSY OR of_nat (unat offset + unat i)"
    using byte.prems by (intro e2p_read_cmd_address) simp
  have range: "[unat offset + unat i..<Suc (unat offset + unat i + n)]
      = (unat offset + unat i) # [Suc (unat offset + unat i)..<Suc (unat offset + unat i + n)]"
    by (simp add: upt_conv_Cons del: upt_Suc)
  show ?case
    using IH byte.prems polled_length [OF byte(1)] polled_writes [OF byte(1)]
      polled_reads [OF byte(1) neq]
    by (simp add: cmd range ucast_low_byte del: upt_Suc of_nat_add)
next
  case (no_eeprom tr v i n)
  then show ?case using polled_length [OF no_eeprom(1)] by (simp add: reset_err_nonzero)
next
  case (stuck tr kr v i n)
  then show ?case using polled_length [OF stuck(1)] by simp
next
  case (data_fails tr v kr i n d)
  then show ?case using polled_length [OF data_fails(1)] by simp
qed simp_all

text \<open>
  C28: The EEPROM reader, whatever the engine answers: a request outside the 512 bytes is refused
  with no register access at all. Otherwise it stores, from the start of the buffer and in order,
  exactly the low bytes of the successive E2P_DATA reads, never more than were asked for, and
  leaves the rest of the buffer alone; when it returns 0 all \<open>len\<close> bytes are there, each read by
  one command carrying its own address, ascending from \<open>offset\<close>. It makes at most
  \<open>100 + 102 * len\<close> register accesses.
\<close>

theorem eeprom_read_exact:
  assumes "unat len \<le> length buf"
  shows "case run_state (smsc95xx_eeprom_read (Some (traced_io rd wr)) offset (Some buf) len) (c, []) of
     ((kr, out), (c', tr)) \<Rightarrow>
       (if 512 < unat offset + unat len then kr = INIT_ERR_BAD_ARG \<and> out = Some buf \<and> tr = []
        else \<exists>bs. out = Some (bs @ drop (length bs) buf) \<and> length bs \<le> unat len \<and>
          take (length bs) (map ucast (reads_of REG_E2P_DATA tr)) = bs \<and>
          length tr \<le> 100 + 102 * unat len \<and>
          (kr = 0 \<longrightarrow> length bs = unat len \<and> writes_of tr = map (\<lambda>a. (REG_E2P_CMD, E2P_BUSY OR of_nat a))
             [unat offset..<unat offset + unat len]))"
proof -
  let ?io = "Some (traced_io rd wr)"
  let ?guard = "ucast E2P_SIZE < len \<or> ucast E2P_SIZE - len < ucast offset"
  have size: "(ucast E2P_SIZE :: size_t) = 512" by (simp add: e2p_defs)
  have guard: "?guard \<longleftrightarrow> 512 < unat offset + unat len"
  proof (cases "512 < len")
    case True
    then show ?thesis by (simp add: size word_less_nat_alt)
  next
    case False
    then have "unat (512 - len) = 512 - unat len" by (simp add: unat_sub word_le_nat_alt not_less)
    with False show ?thesis by (auto simp: size word_less_nat_alt unat_ucast_up)
  qed
  show ?thesis
  proof (cases "512 < unat offset + unat len")
    case True
    then show ?thesis
      using guard by (simp add: smsc95xx_eeprom_read_def io_callbacks_def traced_io_def)
  next
    case False
    then have lens: "unat offset + unat len \<le> 512" "unat len \<le> 512" by simp_all
    have ov: "overlay buf 0 bs = bs @ drop (length bs) buf" for bs by (simp add: overlay_def)
    have neq: "REG_E2P_DATA \<noteq> REG_E2P_CMD" by (simp add: reg_defs)
    have "wp (smsc95xx_eeprom_read ?io offset (Some buf) len)
      (\<lambda>(kr, out) (c', tr). kr \<noteq> 0 \<and> out = Some buf \<and> length tr \<le> 100 \<or>
         (\<exists>p tr' bs. tr = p @ tr' \<and> length p \<le> 100 \<and> writes_of p = [] \<and>
           reads_of REG_E2P_DATA p = [] \<and> out = Some (overlay buf 0 bs) \<and>
           e2p_reads offset 0 (unat len) tr' kr bs)) (c, [])"
      unfolding smsc95xx_eeprom_read_def traced_io_def io_callbacks_def using False guard
    proof (simp add: wp_bind, intro wp_mono [OF wp_e2p_poll], clarsimp, goal_cases)
      case (1 kr v c' tr)
      then have pl: "polled REG_E2P_CMD E2P_BUSY INIT_ERR_E2P_TIMEOUT 100 tr kr v" by simp
      note p = polled_length [OF pl] polled_writes [OF pl] polled_reads [OF pl neq]
      show ?case
      proof (cases "kr = 0")
        case False
        then show ?thesis using p by (auto simp: wp_simps overlay_def)
      next
        case True
        have "wp (eeprom_bytes (trace_rd rd) (trace_wr wr) offset (unat len) 0 v buf)
          (\<lambda>(kr, buf') (c', t). \<exists>tr' bs. t = tr @ tr' \<and> e2p_reads offset 0 (unat len) tr' kr bs \<and>
             buf' = overlay buf (unat (0 :: size_t)) bs) (c', tr)"
          by (rule wp_eeprom_bytes) (use lens assms in simp_all)
        then show ?thesis using p by (auto simp: True wp_simps elim!: wp_mono)
      qed
    qed
    then show ?thesis
    proof (unfold wp_run, clarsimp simp: split_def False, elim disjE conjE exE, goal_cases)
      case 1
      then show ?case by (intro exI [of _ "[]"]) simp
    next
      case (2 p tr' bs)
      then have "e2p_reads offset 0 (unat len) tr'
        (fst (eval_state (smsc95xx_eeprom_read ?io offset (Some buf) len) (c, []))) bs" by simp
      from e2p_reads_facts [OF this] show ?case using 2 lens by (intro exI [of _ bs]) (simp add: ov)
    qed
  qed
qed

text \<open>An EEPROM that holds at each address the address plus three.\<close>

lemma eeprom_read_exact_witness:
  "\<exists>tr. run_state (smsc95xx_eeprom_read (Some (traced_io
      (\<lambda>reg v. State (\<lambda>w. ((0, if reg = REG_E2P_DATA then (w AND 0x1FF) + 3 else 0), w)))
      (\<lambda>reg v. State (\<lambda>w. (0, v))))) 2 (Some [9, 9, 9]) 2) (0 :: u32, [])
    = ((0, Some [5, 6, 9]), (0x80000003, tr)) \<and> length tr \<le> 304"
proof -
  let ?r = "run_state (smsc95xx_eeprom_read (Some (traced_io
      (\<lambda>reg v. State (\<lambda>w. ((0, if reg = REG_E2P_DATA then (w AND 0x1FF) + 3 else 0), w)))
      (\<lambda>reg v. State (\<lambda>w. (0, v))))) 2 (Some [9, 9, 9]) 2) (0 :: u32, [])"
  have "fst ?r = (0, Some [5, 6, 9])" "fst (snd ?r) = 0x80000003" by code_simp+
  moreover define tr where "tr = snd (snd ?r)"
  ultimately have r: "?r = ((0, Some [5, 6, 9]), (0x80000003, tr))"
    by (simp add: prod_eq_iff)
  have "length tr \<le> 304"
    using eeprom_read_exact [where len = 2 and buf = "[9, 9, 9]" and offset = 2 and c = "0 :: u32"
      and rd = "\<lambda>reg v. State (\<lambda>w. ((0, if reg = REG_E2P_DATA then (w AND 0x1FF) + 3 else 0), w))"
      and wr = "\<lambda>reg v. State (\<lambda>w. (0, v))"]
    unfolding r by auto
  then show ?thesis using r by blast
qed

section \<open>The callbacks' interface\<close>

text \<open>
  What the two entry points need of a caller's register access to leave an invariant of the
  caller alone: each callback keeps it. A read also keeps its out-parameter when it fails, as
  the header demands of it.
\<close>

locale register_io =
  fixes rd :: "'c reg_read" and wr :: "'c reg_write" and inv :: "'c \<Rightarrow> bool"
  assumes read_keeps: "keeps inv (rd reg v)"
    and write_keeps: "keeps inv (wr reg v)"
    and read_untouched: "run_state (rd reg v) c = ((kr, v'), c') \<Longrightarrow> kr \<noteq> 0 \<Longrightarrow> v' = v"
begin

lemma WR_keeps: "keeps inv rest \<Longrightarrow> keeps inv (WR wr reg v rest)"
  unfolding WR_def by (intro keeps_intros write_keeps)

lemma poll_clear_keeps: "keeps inv (poll_clear rd reg bits polls err i v)"
proof (induction "polls - i" arbitrary: i v rule: less_induct)
  case less
  have again: "keeps inv (if polls \<le> i + 1 then return (err, w)
      else poll_clear rd reg bits polls err (i + 1) w)" for w
  proof (cases "polls \<le> i + 1")
    case False
    then show ?thesis using less [of "i + 1"] by simp
  qed (simp add: keeps_return)
  show ?case
    by (subst poll_clear.simps) (intro keeps_intros read_keeps again)
qed

lemma run_script_keeps: "keeps inv (run_script rd wr s v)"
proof (induction s arbitrary: v)
  case (Cons a s)
  then show ?case
    by (cases a) (auto intro!: keeps_intros WR_keeps poll_clear_keeps read_keeps)
qed (simp add: keeps_return)

lemma eeprom_bytes_keeps: "keeps inv (eeprom_bytes rd wr offset n i v buf)"
  by (induction n arbitrary: i v buf)
    (auto intro!: keeps_intros poll_clear_keeps read_keeps write_keeps)

lemma init_seq_keeps:
  "keeps inv (smsc95xx_init_seq (Some \<lparr>read_cb = Some rd, write_cb = Some wr\<rparr>) mac promiscuous)"
proof (cases mac)
  case None
  then show ?thesis by (simp add: smsc95xx_init_seq_def io_callbacks_def keeps_return)
next
  case (Some m)
  show ?thesis unfolding Some init_seq_as_script by (rule run_script_keeps)
qed

lemma eeprom_read_keeps:
  "keeps inv (smsc95xx_eeprom_read (Some \<lparr>read_cb = Some rd, write_cb = Some wr\<rparr>) offset buf len)"
  unfolding smsc95xx_eeprom_read_def io_callbacks_def
  by (cases buf) (auto intro!: keeps_intros poll_clear_keeps eeprom_bytes_keeps)

end

end
