(* ===== verification/Rx_Walk.thy ===== *)
theory Rx_Walk
  imports Proto
begin

text \<open>
  Walking a received transfer. Two callers iterate \<open>smsc95xx_rx_next\<close> until it returns false, the
  driver's \<open>RxComplete\<close> and the probe's \<open>cmd_rx\<close>: they rely on the interface \<open>record_source\<close>
  (records in bounds, at least four bytes of frame, a strictly advancing offset), proved here for
  the code's own routine. The last section is the codec: walking an encoded transfer yields
  exactly the frames that were encoded.
\<close>

section \<open>The records of a transfer\<close>

function rx_records :: "u8 list \<Rightarrow> u32 \<Rightarrow> size_t \<Rightarrow> rx_record list" where
  "rx_records buf len off =
     (case smsc95xx_rx_next buf (ucast len) off of
        None \<Rightarrow> []
      | Some r \<Rightarrow> r # rx_records buf len (rx_offset r))"
  by pat_completeness auto

termination
  by (relation "measure (\<lambda>(buf, len, off). walk_measure len off)") (auto intro: rx_next_progress)

declare rx_records.simps [simp del]

section \<open>The interface of a record source\<close>

locale record_source =
  fixes nxt :: "u8 list \<Rightarrow> size_t \<Rightarrow> size_t \<Rightarrow> rx_record option"
  assumes starts: "nxt buf (ucast (len :: u32)) off = Some r \<Longrightarrow> unat off \<le> unat len + 3
      \<Longrightarrow> unat (rx_frame r) = unat off + 4"
    and fits: "nxt buf (ucast (len :: u32)) off = Some r \<Longrightarrow> unat off \<le> unat len + 3
      \<Longrightarrow> unat off + 4 + unat (rx_frame_len r) \<le> unat len"
    and smallest: "nxt buf (ucast (len :: u32)) off = Some r \<Longrightarrow> 4 \<le> unat (rx_frame_len r)"
    and advances: "nxt buf (ucast (len :: u32)) off = Some r \<Longrightarrow> unat off \<le> unat len + 3
      \<Longrightarrow> unat off + 4 + unat (rx_frame_len r) \<le> unat (rx_offset r)"
    and ends: "nxt buf (ucast (len :: u32)) off = Some r \<Longrightarrow> unat off \<le> unat len + 3
      \<Longrightarrow> unat (rx_offset r) \<le> unat len + 3"
begin

text \<open>\<open>rs\<close> are the records a caller sees from \<open>off\<close> on.\<close>

fun chain :: "u8 list \<Rightarrow> u32 \<Rightarrow> size_t \<Rightarrow> rx_record list \<Rightarrow> bool" where
  "chain buf len off [] \<longleftrightarrow> nxt buf (ucast len) off = None"
| "chain buf len off (r # rs) \<longleftrightarrow>
     nxt buf (ucast len) off = Some r \<and> chain buf len (rx_offset r) rs"

lemma chain_unique: "chain buf len off rs \<Longrightarrow> chain buf len off rs' \<Longrightarrow> rs = rs'"
  by (induction rs arbitrary: off rs'; case_tac rs') auto

lemma chain_bounds:
  "chain buf len off rs \<Longrightarrow> unat off \<le> unat len + 3 \<Longrightarrow> r \<in> set rs \<Longrightarrow>
     unat off + 4 \<le> unat (rx_frame r) \<and> 4 \<le> unat (rx_frame_len r) \<and>
     unat (rx_frame r) + unat (rx_frame_len r) \<le> unat len"
proof (induction rs arbitrary: off)
  case (Cons a rs)
  then have a: "nxt buf (ucast len) off = Some a" by simp
  show ?case
  proof (cases "r = a")
    case True
    then show ?thesis
      using starts [OF a Cons.prems(2)] fits [OF a Cons.prems(2)] smallest [OF a] by simp
  next
    case False
    then have "unat (rx_offset a) + 4 \<le> unat (rx_frame r) \<and> 4 \<le> unat (rx_frame_len r) \<and>
      unat (rx_frame r) + unat (rx_frame_len r) \<le> unat len"
      using Cons.prems ends [OF a Cons.prems(2)] by (intro Cons.IH) auto
    then show ?thesis using advances [OF a Cons.prems(2)] by linarith
  qed
qed simp

lemma chain_disjoint:
  "chain buf len off rs \<Longrightarrow> unat off \<le> unat len + 3 \<Longrightarrow>
     sorted_wrt (\<lambda>r r'. unat (rx_frame r) + unat (rx_frame_len r) + 4 \<le> unat (rx_frame r')) rs"
proof (induction rs arbitrary: off)
  case (Cons a rs)
  then have a: "nxt buf (ucast len) off = Some a" by simp
  note e = starts [OF a Cons.prems(2)] advances [OF a Cons.prems(2)] ends [OF a Cons.prems(2)]
  have rest: "chain buf len (rx_offset a) rs" using Cons.prems by simp
  have "unat (rx_frame a) + unat (rx_frame_len a) + 4 \<le> unat (rx_frame r)" if "r \<in> set rs" for r
    using chain_bounds [OF rest e(3) that] e by linarith
  then show ?case using Cons.IH [OF rest e(3)] by simp
qed simp

lemma chain_count:
  "chain buf len off rs \<Longrightarrow> unat off \<le> unat len + 3 \<Longrightarrow> rs \<noteq> [] \<Longrightarrow>
     unat off + 8 * length rs \<le> unat len"
proof (induction rs arbitrary: off)
  case (Cons a rs)
  then have a: "nxt buf (ucast len) off = Some a" by simp
  note e = fits [OF a Cons.prems(2)] smallest [OF a] advances [OF a Cons.prems(2)]
    ends [OF a Cons.prems(2)]
  show ?case
  proof (cases "rs = []")
    case True
    then show ?thesis using e by simp
  next
    case False
    then have "unat (rx_offset a) + 8 * length rs \<le> unat len"
      using Cons e by (intro Cons.IH) auto
    then show ?thesis using e by simp
  qed
qed simp

end

interpretation rx: record_source smsc95xx_rx_next
proof
  fix buf off r and len :: u32
  assume nx: "smsc95xx_rx_next buf (ucast len) off = Some r"
  show "4 \<le> unat (rx_frame_len r)"
    using rx_next_fields(5) [OF nx] by (simp add: word_le_nat_alt)
  assume off: "unat off \<le> unat len + 3"
  note n = rx_next_nat [OF nx off]
  have p: "n + 4 \<le> record_size n" "record_size n \<le> n + 7" for n
    by (simp_all add: record_size_def less_Suc_eq_le [symmetric])
  show "unat (rx_frame r) = unat off + 4" "unat off + 4 + unat (rx_frame_len r) \<le> unat len"
    by (rule n)+
  show "unat off + 4 + unat (rx_frame_len r) \<le> unat (rx_offset r)"
    "unat (rx_offset r) \<le> unat len + 3"
    using n p [of "unat (rx_frame_len r)"] by linarith+
qed

lemma chain_rx_records: "rx.chain buf len off (rx_records buf len off)"
  by (induction buf len off rule: rx_records.induct)
    (subst rx_records.simps, simp split: option.split)

text \<open>
  C15: Whatever bytes a transfer of \<open>len\<close> bytes holds, the frames the callers are handed lie
  inside it, are at least four bytes long (so stripping the CRC cannot underflow), appear in
  order without overlapping, and are at most \<open>len div 8\<close> in number: the parse loop ends and no
  read leaves the buffer.
\<close>

theorem rx_records_safe:
  "(\<forall>r \<in> set (rx_records buf len 0). 4 \<le> unat (rx_frame r) \<and> 4 \<le> unat (rx_frame_len r) \<and>
      unat (rx_frame r) + unat (rx_frame_len r) \<le> unat len) \<and>
   sorted_wrt (\<lambda>r r'. unat (rx_frame r) + unat (rx_frame_len r) + 4 \<le> unat (rx_frame r'))
     (rx_records buf len 0) \<and>
   length (rx_records buf len 0) \<le> unat len div 8"
proof -
  note c = chain_rx_records [of buf len 0]
  have "8 * length (rx_records buf len 0) \<le> unat len"
    using rx.chain_count [OF c] by (cases "rx_records buf len 0 = []") auto
  moreover have "sorted_wrt (\<lambda>r r'. unat (rx_frame r) + unat (rx_frame_len r) + 4
      \<le> unat (rx_frame r')) (rx_records buf len 0)"
    by (rule rx.chain_disjoint [OF c]) simp
  moreover have "4 \<le> unat (rx_frame r) \<and> 4 \<le> unat (rx_frame_len r) \<and>
      unat (rx_frame r) + unat (rx_frame_len r) \<le> unat len" if "r \<in> set (rx_records buf len 0)" for r
    using rx.chain_bounds [OF c _ that] by simp
  ultimately show ?thesis by auto
qed

text \<open>A transfer of two records: a bare CRC with a pad, and a frame of eight bytes.\<close>

definition two_records :: "u8 list" where
  "two_records = [0, 0, 5, 0, 1, 2, 3, 4, 5, 0, 0, 0, 0x20, 0, 8, 0, 1, 2, 3, 4, 5, 6, 7, 8]"

lemma rx_records_safe_witness:
  "rx_frame_len (hd (rx_records two_records 24 0)) = 5 \<and>
   rx_frame (rx_records two_records 24 0 ! 1) = 16 \<and>
   length (rx_records two_records 24 0) = 2 \<and> length (rx_records two_records 24 0) \<le> 24 div 8"
proof -
  have "rx_records two_records 24 0 =
    [\<lparr>rx_frame = 4, rx_frame_len = 5, rx_status = 0x50000, rx_offset = 12\<rparr>,
     \<lparr>rx_frame = 16, rx_frame_len = 8, rx_status = 0x80020, rx_offset = 24\<rparr>]"
    by code_simp
  then show ?thesis using rx_records_safe [of two_records 24] by simp
qed

section \<open>The codec: decoding what was encoded\<close>

text \<open>The status word of a frame: its length in bits 16 to 29, flags in the others.\<close>

definition status_word :: "u32 \<Rightarrow> nat \<Rightarrow> u32" where
  "status_word flags n = (flags AND NOT RX_STS_LEN_MASK) OR push_bit RX_STS_LEN_SHIFT (of_nat n)"

definition encode_record :: "u32 \<times> u8 list \<Rightarrow> u8 list" where
  "encode_record = (\<lambda>(flags, frame). le32_bytes (status_word flags (length frame)) @ frame
     @ replicate ((4 - (4 + length frame) mod 4) mod 4) 0)"

definition encode_records :: "(u32 \<times> u8 list) list \<Rightarrow> u8 list" where
  "encode_records recs = concat (map encode_record recs)"

text \<open>What a caller gets to see of a record: its status word and the bytes of its frame.\<close>

definition seen :: "u8 list \<Rightarrow> rx_record \<Rightarrow> u32 \<times> u8 list" where
  "seen buf r = (rx_status r, slice (unat (rx_frame r)) (unat (rx_frame_len r)) buf)"

lemma len_field_of_status:
  assumes "n \<le> 16383"
  shows "unat (ucast (drop_bit 16 (status_word flags n AND 0x3FFF0000)) :: size_t) = n"
proof -
  have "drop_bit 16 (status_word flags n AND 0x3FFF0000) = take_bit 14 (of_nat n)"
  proof (rule bit_word_eqI)
    fix i assume "i < LENGTH(32)"
    have m: "(0x3FFF0000 :: u32) = push_bit 16 (mask 14)" by (simp add: mask_eq_exp_minus_1)
    show "bit (drop_bit 16 (status_word flags n AND 0x3FFF0000)) i
        = bit (take_bit 14 (of_nat n :: u32)) i"
      unfolding status_word_def rx_frame_defs m
      by (auto simp: bit_simps dest: bit_imp_le_length)
  qed
  also have "\<dots> = of_nat n"
    using assms by (intro take_bit_word_self) (simp add: unat_of_nat_small)
  finally have "unat (drop_bit 16 (status_word flags n AND 0x3FFF0000)) = n"
    using assms by (simp add: unat_of_nat_small)
  then show ?thesis by (simp add: unat_ucast_up)
qed

lemma length_encode_record: "length (encode_record (fl, fr)) = record_size (length fr)"
  by (simp add: encode_record_def record_size_def)

lemma rx_next_encoded:
  assumes buf: "buf = pre @ encode_record (fl, fr) @ post"
    and len: "length (pre @ encode_record (fl, fr)) \<le> unat len" and off: "unat off = length pre"
    and fr: "4 \<le> length fr" "length fr \<le> 16383"
  obtains r where "smsc95xx_rx_next buf (ucast (len :: u32)) off = Some r"
    and "seen buf r = (status_word fl (length fr), fr)"
    and "unat (rx_offset r) = length (pre @ encode_record (fl, fr))"
proof -
  let ?fl = "ucast (drop_bit 16 (status_word fl (length fr) AND 0x3FFF0000)) :: size_t"
  have small: "unat len < 2 ^ 32" using unsigned_less [of len] by simp
  have fl: "unat ?fl = length fr" using fr by (intro len_field_of_status)
  have size: "length pre + 4 + length fr \<le> unat len"
    using len by (simp add: encode_record_def)
  have sts: "get_le32 buf (unat off) = status_word fl (length fr)"
    unfolding off buf encode_record_def by (simp add: get_le32_bytes)
  have four: "unat (off + 4) = length pre + 4"
    using size small off by (subst unat_add_small) simp_all
  have fin: "unat (off + 4 + ?fl) = length pre + 4 + length fr"
    using size small fl by (subst unat_add_small) (simp_all only: four, simp_all)
  have guards: "\<not> ucast len < off + 4" "\<not> ?fl < 4" "\<not> ucast len < off + 4 + ?fl"
    using fr size by (simp_all only: word_less_nat_alt four fin fl) (simp_all add: unat_ucast_up)
  have "\<exists>r. smsc95xx_rx_next buf (ucast len) off = Some r"
    unfolding smsc95xx_rx_next_def rx_frame_defs Let_def sts using guards by simp
  then obtain r where r: "smsc95xx_rx_next buf (ucast len) off = Some r" ..
  note f = rx_next_fields [OF r] and n = rx_next_nat [OF r]
  have o: "unat off \<le> unat len + 3" using size off by simp
  have st: "rx_status r = status_word fl (length fr)" using f(1) sts by simp
  have l: "unat (rx_frame_len r) = length fr" unfolding f(2) st by (rule fl)
  have "seen buf r = (status_word fl (length fr), fr)"
    unfolding seen_def st n(1) [OF o] l off
    by (simp add: slice_def buf encode_record_def)
  moreover have "unat (rx_offset r) = length (pre @ encode_record (fl, fr))"
    using n(5) [OF o] by (simp add: off l length_encode_record)
  ultimately show thesis using r that by blast
qed

text \<open>The buffer may hold more than the transfer: whatever an earlier one left behind it.\<close>

lemma rx_records_encoded:
  assumes "buf = pre @ encode_records recs @ rest" and "k < 4"
    and "unat len = length (pre @ encode_records recs) + k" and "unat off = length pre"
    and "\<forall>(fl, fr) \<in> set recs. 4 \<le> length fr \<and> length fr \<le> 16383"
  shows "map (seen buf) (rx_records buf len off)
    = map (\<lambda>(fl, fr). (status_word fl (length fr), fr)) recs"
  using assms
proof (induction recs arbitrary: pre off)
  case Nil
  have "smsc95xx_rx_next buf (ucast len) off = None"
  proof (rule ccontr)
    assume "smsc95xx_rx_next buf (ucast len) off \<noteq> None"
    then obtain r where r: "smsc95xx_rx_next buf (ucast len) off = Some r" by blast
    have "unat off \<le> unat len + 3" using Nil by (simp add: encode_records_def)
    from rx_next_nat(2) [OF r this] show False using Nil by (simp add: encode_records_def)
  qed
  then show ?case by (subst rx_records.simps) simp
next
  case (Cons a recs)
  obtain fl fr where a: "a = (fl, fr)" by (cases a)
  have buf: "buf = pre @ encode_record (fl, fr) @ (encode_records recs @ rest)"
    using Cons.prems(1) by (simp add: encode_records_def a)
  have len: "length (pre @ encode_record (fl, fr)) \<le> unat len"
    using Cons.prems(3) by (simp add: encode_records_def a)
  obtain r where r: "smsc95xx_rx_next buf (ucast len) off = Some r"
      "seen buf r = (status_word fl (length fr), fr)"
      "unat (rx_offset r) = length (pre @ encode_record (fl, fr))"
    using rx_next_encoded [OF buf len Cons.prems(4)] Cons.prems(5) a by auto
  have "map (seen buf) (rx_records buf len (rx_offset r))
      = map (\<lambda>(fl, fr). (status_word fl (length fr), fr)) recs"
    by (rule Cons.IH [OF _ Cons.prems(2) _ r(3)]) 
      (use Cons.prems(3,5) buf in \<open>auto simp: encode_records_def a\<close>)
  then show ?case using r by (subst rx_records.simps) (simp add: a)
qed

text \<open>
  C8: Walking a transfer decodes exactly what was packed into it: for any sequence of records with
  frames of 4 to 16383 bytes, each padded to four bytes, followed by fewer than four stray bytes,
  the callers see every frame, in order, with its status word, and nothing else.
\<close>

theorem rx_records_roundtrip:
  assumes "\<forall>(flags, frame) \<in> set recs. 4 \<le> length frame \<and> length frame \<le> 16383"
    and "length post < 4"
    and "length (encode_records recs @ post) < 2 ^ 32"
  defines "buf \<equiv> encode_records recs @ post"
  shows "map (seen buf) (rx_records buf (of_nat (length buf)) 0)
    = map (\<lambda>(flags, frame). (status_word flags (length frame), frame)) recs"
proof (rule rx_records_encoded [where pre = "[]" and rest = post and k = "length post"])
  show "unat (of_nat (length buf) :: u32) = length ([] @ encode_records recs) + length post"
    using assms(3) unfolding buf_def by (subst unat_of_nat_small) simp_all
qed (use assms in \<open>simp_all add: buf_def\<close>)

lemma rx_records_roundtrip_witness:
  "let buf = encode_records [(0x20, [1, 2, 3, 4, 5]), (0x8000, [6, 7, 8, 9])] @ [0xEE] in
   map (seen buf) (rx_records buf (of_nat (length buf)) 0)
     = [(0x50020, [1, 2, 3, 4, 5]), (0x48000, [6, 7, 8, 9])]"
proof -
  have "status_word 0x20 (Suc (Suc (Suc (Suc (Suc 0))))) = 0x50020"
    "status_word 0x8000 (Suc (Suc (Suc (Suc 0)))) = 0x48000" by code_simp+
  then show ?thesis
    unfolding Let_def
    by (subst rx_records_roundtrip) (simp_all add: encode_records_def encode_record_def)
qed

end
