(* ===== verification/Platform.thy ===== *)
theory Platform
  imports Init_Seq Rx_Walk "HOL-Library.Multiset"
begin

text \<open>
  What the driver uses of DriverKit, USBDriverKit and NetworkingDriverKit. None of that code is
  part of the repository, so every operation is a parameter of the model: a field of the record
  \<open>dk\<close>, a computation on the state \<open>'e\<close> of everything outside the driver. The model assumes nothing
  of it; what a property relies on is a hypothesis of that property.

  An object or packet pointer is a number, a null pointer is \<open>None\<close>. A \<open>Create\<close>-like operation
  returns its status and what it leaves in its out-parameter. A buffer descriptor is an object, the
  bytes it maps are a list in the driver's variables (\<open>ctrlBytes\<close>, \<open>rxBytes\<close>, \<open>txBytes\<close>); packet
  memory is on the other side, and is reached through \<open>dk_peek\<close> and \<open>dk_poke\<close>, the two ends of a
  \<open>memcpy\<close>.
\<close>

section \<open>Status codes\<close>

definition kIOReturnSuccess :: kern_return where "kIOReturnSuccess = 0"
definition kIOReturnNoMemory :: kern_return where "kIOReturnNoMemory = 0xE00002BD"
definition kIOReturnNoResources :: kern_return where "kIOReturnNoResources = 0xE00002BE"
definition kIOReturnNoDevice :: kern_return where "kIOReturnNoDevice = 0xE00002C0"
definition kIOReturnBadArgument :: kern_return where "kIOReturnBadArgument = 0xE00002C2"
definition kIOReturnUnsupported :: kern_return where "kIOReturnUnsupported = 0xE00002C7"
definition kIOReturnTimeout :: kern_return where "kIOReturnTimeout = 0xE00002D6"
definition kIOReturnOffline :: kern_return where "kIOReturnOffline = 0xE00002D7"
definition kIOReturnNotReady :: kern_return where "kIOReturnNotReady = 0xE00002D8"
definition kIOReturnNotAttached :: kern_return where "kIOReturnNotAttached = 0xE00002D9"
definition kIOReturnUnderrun :: kern_return where "kIOReturnUnderrun = 0xE00002E7"
definition kIOReturnAborted :: kern_return where "kIOReturnAborted = 0xE00002EB"
definition kIOReturnNotResponding :: kern_return where "kIOReturnNotResponding = 0xE00002ED"
definition kIOReturnNotFound :: kern_return where "kIOReturnNotFound = 0xE00002F0"
definition kUSBHostReturnPipeStalled :: kern_return where "kUSBHostReturnPipeStalled = 0xE0005000"

lemmas ioreturn_defs = kIOReturnSuccess_def kIOReturnNoMemory_def kIOReturnNoResources_def
  kIOReturnNoDevice_def kIOReturnBadArgument_def kIOReturnUnsupported_def kIOReturnTimeout_def
  kIOReturnOffline_def kIOReturnNotReady_def kIOReturnNotAttached_def kIOReturnUnderrun_def
  kIOReturnAborted_def kIOReturnNotResponding_def kIOReturnNotFound_def
  kUSBHostReturnPipeStalled_def

section \<open>Objects, packets and actions\<close>

type_synonym obj = nat
type_synonym pkt = nat
type_synonym mac_addr = "u8 list"

datatype action_kind = RxCompleteAction | TxCompleteAction | TxDataAvailableAction
  | RxBackoffExpiredAction

datatype queue_kind = TxSubmission | TxCompletion | RxSubmission | RxCompletion

text \<open>A value published to the registry.\<close>

datatype property = Number u32 | Data "u8 list" | Boolean bool

section \<open>The operations\<close>

record 'e dk =
  dk_super_Start :: "obj \<Rightarrow> ('e, kern_return) state"
  dk_super_Stop :: "obj \<Rightarrow> ('e, kern_return) state"
  dk_super_setInterfaceEnable :: "bool \<Rightarrow> ('e, kern_return) state"
  dk_super_setMaxTransferUnit :: "u32 \<Rightarrow> ('e, kern_return) state"
  dk_cast_interface :: "obj \<Rightarrow> ('e, obj option) state"
  dk_Open :: "obj \<Rightarrow> ('e, kern_return) state"
  dk_Close :: "obj \<Rightarrow> ('e, unit) state"
  dk_DeviceRequest :: "obj \<Rightarrow> u8 \<Rightarrow> u8 \<Rightarrow> u16 \<Rightarrow> u16 \<Rightarrow> u16 \<Rightarrow> u8 list
    \<Rightarrow> ('e, kern_return \<times> u8 list \<times> u16) state"
  dk_CopyPipe :: "obj \<Rightarrow> u8 \<Rightarrow> ('e, kern_return \<times> obj option) state"
  dk_AsyncIO :: "obj \<Rightarrow> obj \<Rightarrow> u8 list \<Rightarrow> u32 \<Rightarrow> obj \<Rightarrow> ('e, kern_return) state"
  dk_Abort :: "obj \<Rightarrow> ('e, kern_return \<times> (kern_return \<times> u32) option) state"
  dk_ClearStall :: "obj \<Rightarrow> ('e, kern_return) state"
  dk_CreateBuffer :: "u64 \<Rightarrow> ('e, kern_return \<times> obj option) state"
  dk_GetAddressRange :: "obj \<Rightarrow> ('e, kern_return \<times> u64 \<times> u8 list option) state"
  dk_CreateAction :: "action_kind \<Rightarrow> ('e, kern_return \<times> obj option) state"
  dk_CopyDataQueue :: "obj \<Rightarrow> ('e, kern_return \<times> obj option) state"
  dk_SetDataAvailableHandler :: "obj \<Rightarrow> obj option \<Rightarrow> ('e, kern_return) state"
  dk_CreateTimer :: "obj option \<Rightarrow> ('e, kern_return \<times> obj option) state"
  dk_SetHandler :: "obj \<Rightarrow> obj option \<Rightarrow> ('e, kern_return) state"
  dk_SetEnable :: "obj \<Rightarrow> bool \<Rightarrow> ('e, kern_return) state"
  dk_WakeAtTime :: "obj \<Rightarrow> u64 \<Rightarrow> u64 \<Rightarrow> ('e, kern_return) state"
  dk_clock_gettime :: "('e, u64) state"
  dk_CopyDispatchQueue :: "('e, kern_return \<times> obj option) state"
  dk_CreatePool :: "('e, kern_return \<times> obj option) state"
  dk_CreateQueue :: "queue_kind \<Rightarrow> obj option \<Rightarrow> obj option \<Rightarrow> ('e, kern_return \<times> obj option) state"
  dk_registerEthernetInterface :: "mac_addr \<Rightarrow> obj option list \<Rightarrow> obj option \<Rightarrow> ('e, kern_return) state"
  dk_reportLinkStatus :: "bool \<Rightarrow> ('e, kern_return) state"
  dk_RegisterService :: "('e, kern_return) state"
  dk_alloc :: "('e, bool) state"
  dk_SetProperties :: "string \<Rightarrow> property \<Rightarrow> ('e, kern_return) state"
  dk_setEnable :: "obj \<Rightarrow> bool \<Rightarrow> ('e, kern_return) state"
  dk_DequeuePackets :: "obj \<Rightarrow> ('e, u32 \<times> pkt option) state"
  dk_enqueuePackets :: "obj \<Rightarrow> pkt \<Rightarrow> ('e, kern_return) state"
  dk_allocatePacket :: "obj \<Rightarrow> ('e, kern_return \<times> pkt option) state"
  dk_deallocatePacket :: "obj \<Rightarrow> pkt \<Rightarrow> ('e, kern_return) state"
  dk_getDataLength :: "pkt \<Rightarrow> ('e, u32) state"
  dk_getDataOff :: "pkt \<Rightarrow> ('e, size_t) state"
  dk_getDataVirtualAddress :: "pkt \<Rightarrow> ('e, u64) state"
  dk_setDataLength :: "pkt \<Rightarrow> u32 \<Rightarrow> ('e, kern_return) state"
  dk_peek :: "u64 \<Rightarrow> nat \<Rightarrow> ('e, u8 list) state"
  dk_poke :: "u64 \<Rightarrow> u8 list \<Rightarrow> ('e, unit) state"
  dk_Cancel :: "obj \<Rightarrow> ('e, kern_return) state"
  dk_release :: "obj \<Rightarrow> ('e, unit) state"

section \<open>The record of a run\<close>

text \<open>
  The calls that matter to a property, with their outcomes, in order. \<open>NullDeref\<close> is a member call
  or access through a null pointer, which ends the process: what the model does after one means
  nothing. \<open>Diverged\<close> marks a loop that never ends.
\<close>

datatype call =
    NullDeref
  | Diverged
  | RegRead u32 kern_return u32
  | RegWrite u32 u32 kern_return
  | SubmitIn obj u32 kern_return
  | SubmitOut obj "u8 list" kern_return
  | RxCompleted kern_return u32
  | TxCompleted kern_return u32
  | TxDequeued pkt
  | TxEnqueued pkt kern_return
  | RxDequeued pkt
  | RxAllocated pkt
  | RxEnqueued pkt kern_return
  | RxFreed pkt kern_return
  | CopyOut u64 size_t nat
  | CopyIn u64 size_t "u8 list"
  | SetLength pkt u32 kern_return
  | StallCleared obj kern_return
  | WokeAt u64 kern_return
  | PipeAborted obj kern_return
  | CancelIssued obj kern_return
  | CancelRan
  | Retained
  | ReleasedRetains
  | Released obj
  | Opened kern_return
  | Closed
  | SuperStarted kern_return
  | SuperStopped kern_return
  | SuperEnabled bool kern_return
  | QueueEnabled obj bool kern_return
  | LinkReported bool kern_return
  | Registered mac_addr kern_return
  | Published string property

section \<open>What a run adds up to\<close>

text \<open>The sum over a run of what each call contributes.\<close>

definition tally :: "(call \<Rightarrow> 'a::comm_monoid_add) \<Rightarrow> call list \<Rightarrow> 'a" where
  "tally f cs = sum_list (map f cs)"

lemma tally_simps [simp]:
  "tally f [] = 0"
  "tally f (c # cs) = f c + tally f cs"
  "tally f (cs @ ds) = tally f cs + tally f ds"
  by (simp_all add: tally_def)

text \<open>Transmit packets taken off the submission queue, and handed to the completion queue.\<close>

fun tx_taken :: "call \<Rightarrow> pkt multiset" where
  "tx_taken (TxDequeued k) = {#k#}"
| "tx_taken _ = {#}"

fun tx_given :: "call \<Rightarrow> pkt multiset" where
  "tx_given (TxEnqueued k ret) = {#k#}"
| "tx_given _ = {#}"

text \<open>Receive packets acquired from either source, and delivered or returned to the pool.\<close>

fun rx_acquired :: "call \<Rightarrow> pkt multiset" where
  "rx_acquired (RxDequeued k) = {#k#}"
| "rx_acquired (RxAllocated k) = {#k#}"
| "rx_acquired _ = {#}"

fun rx_disposed :: "call \<Rightarrow> pkt multiset" where
  "rx_disposed (RxEnqueued k ret) = (if ret = 0 then {#k#} else {#})"
| "rx_disposed (RxFreed k ret) = {#k#}"
| "rx_disposed _ = {#}"

text \<open>Transfers accepted and completed, in each direction.\<close>

fun in_accepted :: "call \<Rightarrow> nat" where
  "in_accepted (SubmitIn p n ret) = (if ret = 0 then 1 else 0)"
| "in_accepted _ = 0"

fun in_completed :: "call \<Rightarrow> nat" where
  "in_completed (RxCompleted status n) = 1"
| "in_completed _ = 0"

fun out_accepted :: "call \<Rightarrow> nat" where
  "out_accepted (SubmitOut p bs ret) = (if ret = 0 then 1 else 0)"
| "out_accepted _ = 0"

fun out_completed :: "call \<Rightarrow> nat" where
  "out_completed (TxCompleted status n) = 1"
| "out_completed _ = 0"

text \<open>
  A copy in or out of packet memory that stays inside the packet buffer: a mapped base, and an
  offset and length within its 2048 bytes. The driver adds the two in 64 bits, so an offset
  within 1518 of \<open>2 ^ 64\<close>, which no buffer has, would wrap.
\<close>

definition fits_packet :: "size_t \<Rightarrow> nat \<Rightarrow> bool" where
  "fits_packet off n \<longleftrightarrow> unat off + n \<le> 2048 \<or> 2 ^ 64 - 1518 \<le> unat off"

fun copy_safe :: "call \<Rightarrow> bool" where
  "copy_safe (CopyIn base off bs) \<longleftrightarrow> 0x100000 \<le> base \<and> length bs \<le> 1518 \<and> fits_packet off (length bs)"
| "copy_safe (CopyOut base off n) \<longleftrightarrow> 0x100000 \<le> base + off \<and> n \<le> 1514 \<and> fits_packet off n"
| "copy_safe _ \<longleftrightarrow> True"

end
