(* ===== verification/Ivars.thy ===== *)
theory Ivars
  imports Platform
begin

text \<open>
  The driver's instance variables (\<open>SMSC95xxDriver_ivars.h\<close>), field by field, and the state every
  member function of the class works on: the variables, the state of the outside world, and the
  record of the calls made so far. The last section gives the ways the code reaches outside.
\<close>

section \<open>Instance variables\<close>

text \<open>The size of a packet buffer, which bounds every copy in or out of one, and the lowest address
  that can be a mapped one.\<close>

definition POOL_BUFFER_SIZE :: size_t where "POOL_BUFFER_SIZE = 2048"
definition LOWEST_MAPPED :: u64 where "LOWEST_MAPPED = 0x100000"

record ivars =
  interface :: "obj option"
  ctrlBuffer :: "obj option"
  ctrlBytes :: "u8 list option"
  interfaceOpened :: bool
  macAddress :: mac_addr
  macValid :: bool
  dispatchQueue :: "obj option"
  pool :: "obj option"
  txSubmit :: "obj option"
  rxSubmit :: "obj option"
  txComplete :: "obj option"
  rxComplete :: "obj option"
  pipeIn :: "obj option"
  pipeOut :: "obj option"
  rxBuffer :: "obj option"
  rxBytes :: "u8 list option"
  txBuffer :: "obj option"
  txBytes :: "u8 list option"
  rxAction :: "obj option"
  txAction :: "obj option"
  txDataQueue :: "obj option"
  txDataAvailableAction :: "obj option"
  txInFlight :: bool
  txPacket :: "pkt option"
  txDatapathReady :: bool
  inTxDataAvailable :: bool
  inRxComplete :: bool
  inTxComplete :: bool
  rxArmed :: bool
  rxRunning :: bool
  stopping :: bool
  stopCancelsPending :: u32
  rxIdleRun :: u64
  rxBackoffActive :: bool
  rxBackoffTimer :: "obj option"
  rxBackoffAction :: "obj option"
  rxBackoffEpisodes :: u64
  rxBackoffWakes :: u64
  rxFrames :: u64
  rxDropped :: u64
  txFrames :: u64
  txErrors :: u64
  txDoorbells :: u64
  txDrains :: u64
  txDequeued :: u64
  txSubmitted :: u64
  txCompletions :: u64
  txReturned :: u64
  txLost :: u64
  txBytesSent :: u64
  txRejected :: u64
  txSubmitFailures :: u64
  txStalls :: u64
  txAborted :: u64
  txDeferred :: u64
  rxCompletions :: u64
  rxCompletionErrors :: u64
  rxZeroLength :: u64
  rxByteCount :: u64
  rxRecords :: u64
  rxZeroRecords :: u64
  rxDropErrSum :: u64
  rxDropShort :: u64
  rxDropOversize :: u64
  rxDropNoBuffer :: u64
  rxDropBadAddr :: u64
  rxDropBadFit :: u64
  rxDropSetLen :: u64
  rxDropEnqueue :: u64
  rxEnqueueFailures :: u64
  rxSubmitDequeued :: u64
  rxSubmitEmpty :: u64
  rxPoolFailures :: u64
  rxLost :: u64
  rxArmCount :: u64
  rxArmFailures :: u64

text \<open>\<open>IONewZero(SMSC95xxDriver_IVars, 1)\<close>.\<close>

definition zero_ivars :: ivars where
  "zero_ivars = \<lparr>interface = None, ctrlBuffer = None, ctrlBytes = None, interfaceOpened = False,
     macAddress = replicate 6 0, macValid = False, dispatchQueue = None, pool = None,
     txSubmit = None, rxSubmit = None, txComplete = None, rxComplete = None,
     pipeIn = None, pipeOut = None, rxBuffer = None, rxBytes = None, txBuffer = None,
     txBytes = None, rxAction = None, txAction = None, txDataQueue = None,
     txDataAvailableAction = None, txInFlight = False, txPacket = None, txDatapathReady = False,
     inTxDataAvailable = False, inRxComplete = False, inTxComplete = False, rxArmed = False,
     rxRunning = False, stopping = False, stopCancelsPending = 0, rxIdleRun = 0,
     rxBackoffActive = False, rxBackoffTimer = None, rxBackoffAction = None,
     rxBackoffEpisodes = 0, rxBackoffWakes = 0, rxFrames = 0, rxDropped = 0, txFrames = 0,
     txErrors = 0, txDoorbells = 0, txDrains = 0, txDequeued = 0, txSubmitted = 0,
     txCompletions = 0, txReturned = 0, txLost = 0, txBytesSent = 0, txRejected = 0,
     txSubmitFailures = 0, txStalls = 0, txAborted = 0, txDeferred = 0, rxCompletions = 0,
     rxCompletionErrors = 0, rxZeroLength = 0, rxByteCount = 0, rxRecords = 0, rxZeroRecords = 0,
     rxDropErrSum = 0, rxDropShort = 0, rxDropOversize = 0, rxDropNoBuffer = 0,
     rxDropBadAddr = 0, rxDropBadFit = 0, rxDropSetLen = 0, rxDropEnqueue = 0,
     rxEnqueueFailures = 0, rxSubmitDequeued = 0, rxSubmitEmpty = 0, rxPoolFailures = 0,
     rxLost = 0, rxArmCount = 0, rxArmFailures = 0\<rparr>"

text \<open>
  \<open>init\<close>, given whether \<open>super::init\<close> and \<open>IONewZero\<close> succeed: the result and the pointer \<open>ivars\<close>. \<open>free\<close>
  deletes the instance variables and nulls the pointer, also one that is null already.
\<close>

definition driver_init :: "bool \<Rightarrow> bool \<Rightarrow> bool \<times> ivars option" where
  "driver_init super_ok allocated =
     (if \<not> super_ok then (False, None)
      else let p = (if allocated then Some zero_ivars else None) in (p \<noteq> None, p))"

definition driver_free :: "ivars option \<Rightarrow> ivars option" where
  "driver_free p = None"

section \<open>The state of a running driver\<close>

record 'e sys = ivars +
  env :: 'e
  calls :: "call list"

definition initial_sys :: "'e \<Rightarrow> 'e sys" where
  "initial_sys e = ivars.extend zero_ivars \<lparr>env = e, calls = []\<rparr>"

section \<open>Reaching outside\<close>

text \<open>An outside operation, and one whose outcome is recorded.\<close>

definition ext :: "('e, 'a) state \<Rightarrow> ('e sys, 'a) state" where
  "ext f = State (\<lambda>s. case run_state f (env s) of (a, e) \<Rightarrow> (a, s\<lparr>env := e\<rparr>))"

definition emit :: "call \<Rightarrow> ('e sys, unit) state" where
  "emit c = modify (\<lambda>s. s\<lparr>calls := calls s @ [c]\<rparr>)"

definition ext_log :: "('e, 'a) state \<Rightarrow> ('a \<Rightarrow> call) \<Rightarrow> ('e sys, 'a) state" where
  "ext_log f c = do { a \<leftarrow> ext f; emit (c a); return a }"

text \<open>\<open>p->member(...)\<close>: through a null pointer it is recorded, and yields an arbitrary result.\<close>

definition deref :: "'p option \<Rightarrow> 'a \<Rightarrow> ('p \<Rightarrow> ('e sys, 'a) state) \<Rightarrow> ('e sys, 'a) state" where
  "deref p d f = (case p of None \<Rightarrow> do { emit NullDeref; return d } | Some x \<Rightarrow> f x)"

text \<open>\<open>OSSafeReleaseNULL(field)\<close>, given the field's selector and update.\<close>

definition release_null ::
    "'e dk \<Rightarrow> ('e sys \<Rightarrow> obj option) \<Rightarrow> ((obj option \<Rightarrow> obj option) \<Rightarrow> 'e sys \<Rightarrow> 'e sys)
     \<Rightarrow> ('e sys, unit) state" where
  "release_null dk sel upd = do {
     p \<leftarrow> gets sel;
     case p of
       None \<Rightarrow> skip
     | Some x \<Rightarrow> do { ext_log (dk_release dk x) (\<lambda>_. Released x); assign upd None }
   }"

lemma wp_ext [wp_simps]:
  "wp (ext f) Q s = (case run_state f (env s) of (a, e) \<Rightarrow> Q a (s\<lparr>env := e\<rparr>))"
  by (simp add: wp_def ext_def split: prod.split)

lemma wp_emit [wp_simps]: "wp (emit c) Q s = Q () (s\<lparr>calls := calls s @ [c]\<rparr>)"
  by (simp add: wp_def emit_def)

lemma wp_ext_log [wp_simps]:
  "wp (ext_log f c) Q s =
     (case run_state f (env s) of (a, e) \<Rightarrow> Q a (s\<lparr>env := e, calls := calls s @ [c a]\<rparr>))"
  by (simp add: ext_log_def wp_simps split: prod.split)

lemma wp_deref [wp_simps]:
  "wp (deref p d f) Q s =
     (case p of None \<Rightarrow> Q d (s\<lparr>calls := calls s @ [NullDeref]\<rparr>) | Some x \<Rightarrow> wp (f x) Q s)"
  by (simp add: deref_def wp_simps split: option.split)

lemma keeps_ext:
  "(\<And>s e. P s \<Longrightarrow> P (s\<lparr>env := e\<rparr>)) \<Longrightarrow> keeps P (ext f)"
  by (simp add: keeps_def ext_def split: prod.split)

lemma keeps_emit:
  "(\<And>s. P s \<Longrightarrow> P (s\<lparr>calls := calls s @ [c]\<rparr>)) \<Longrightarrow> keeps P (emit c)"
  by (simp add: keeps_def emit_def)

end
