(* ===== verification/Invariant.thy ===== *)
theory Invariant
  imports Ivars
begin

text \<open>
  The invariant of the driver: the transmit and receive accounting identities, exactly-once
  disposal of packets, one transfer per direction, and memory safety of what was done so far.
  \<open>tx_inv h\<close> is the transmit part while the code holds the packet \<open>h\<close> in a local variable, and
  \<open>rx_inv d h\<close> the receive part, where \<open>d\<close> says that a record has been counted and not yet settled.
\<close>

abbreviation pkts :: "pkt option \<Rightarrow> pkt multiset" where
  "pkts p \<equiv> (case p of None \<Rightarrow> {#} | Some k \<Rightarrow> {#k#})"

definition tx_inv :: "pkt option \<Rightarrow> 'e sys \<Rightarrow> bool" where
  "tx_inv h s \<longleftrightarrow>
     txDequeued s = txReturned s + txLost s + of_bool (txInFlight s) + of_bool (h \<noteq> None) \<and>
     (txInFlight s \<longleftrightarrow> txPacket s \<noteq> None) \<and>
     (txPacket s \<noteq> None \<longrightarrow> txComplete s \<noteq> None) \<and>
     tally tx_taken (calls s) = tally tx_given (calls s) + pkts (txPacket s) + pkts h \<and>
     tally out_accepted (calls s) \<le> tally out_completed (calls s) + 1 \<and>
     (txDatapathReady s \<longrightarrow>
        tally out_accepted (calls s) \<le> tally out_completed (calls s) + of_bool (txInFlight s))"

definition rx_inv :: "bool \<Rightarrow> pkt option \<Rightarrow> 'e sys \<Rightarrow> bool" where
  "rx_inv d h s \<longleftrightarrow>
     rxRecords s = rxFrames s + rxDropped s + of_bool d \<and>
     rxDropped s = rxDropErrSum s + rxDropShort s + rxDropOversize s + rxDropNoBuffer s
       + rxDropBadAddr s + rxDropBadFit s + rxDropSetLen s + rxDropEnqueue s \<and>
     rxDropEnqueue s = rxEnqueueFailures s \<and>
     tally rx_acquired (calls s) = tally rx_disposed (calls s) + pkts h \<and>
     tally in_accepted (calls s) \<le> tally in_completed (calls s) + 1 \<and>
     (\<not> stopping s \<longrightarrow>
        tally in_accepted (calls s) \<le> tally in_completed (calls s) + of_bool (rxArmed s))"

definition call_ok :: "call \<Rightarrow> bool" where
  "call_ok c \<longleftrightarrow> copy_safe c \<and> c \<noteq> NullDeref"

definition mem_inv :: "'e sys \<Rightarrow> bool" where
  "mem_inv s \<longleftrightarrow>
     list_all call_ok (calls s) \<and>
     (rxBytes s \<noteq> None \<longrightarrow> pipeIn s \<noteq> None) \<and>
     (\<forall>b. txBytes s = Some b \<longrightarrow> 1526 \<le> length b)"

lemmas inv_defs = tx_inv_def rx_inv_def mem_inv_def

lemma call_ok_simps [simp]:
  "call_ok (TxDequeued k)" "call_ok (TxEnqueued k ret)" "call_ok (RxDequeued k)"
  "call_ok (RxAllocated k)" "call_ok (RxEnqueued k ret)" "call_ok (RxFreed k ret)"
  "call_ok (SubmitIn p n ret)" "call_ok (SubmitOut p bs ret)" "call_ok (RxCompleted ret n)"
  "call_ok (TxCompleted ret n)" "call_ok (StallCleared p ret)" "call_ok (WokeAt t ret)"
  "call_ok (SetLength k n ret)" "call_ok Diverged" "call_ok (RegRead off ret v)"
  "call_ok (RegWrite off v ret)" "call_ok (PipeAborted p ret)" "call_ok (CancelIssued p ret)"
  "call_ok CancelRan" "call_ok Retained" "call_ok ReleasedRetains" "call_ok (Released p)"
  "call_ok (Opened ret)" "call_ok Closed" "call_ok (SuperStarted ret)"
  "call_ok (SuperStopped ret)" "call_ok (SuperEnabled b ret)" "call_ok (QueueEnabled p b ret)"
  "call_ok (LinkReported b ret)" "call_ok (Registered m ret)" "call_ok (Published key prop)"
  "\<not> call_ok NullDeref"
  by (simp_all add: call_ok_def)

lemma fits_packetI:
  assumes "\<not> POOL_BUFFER_SIZE < off + n" and "unat n \<le> 1518" and "m \<le> unat n"
  shows "fits_packet off m"
proof (cases "unat off + unat n < 2 ^ 64")
  case True
  then have "unat (off + n) = unat off + unat n" by (intro unat_add_small) simp
  then show ?thesis
    using assms by (simp add: fits_packet_def POOL_BUFFER_SIZE_def word_less_nat_alt)
next
  case False
  then show ?thesis using assms(2) by (simp add: fits_packet_def)
qed

section \<open>Frame rules: updates the invariant does not look at\<close>

lemma tx_inv_frame [simp]:
  "tx_inv p (interface_update h s) = tx_inv p s" "tx_inv p (ctrlBuffer_update h s) = tx_inv p s"
  "tx_inv p (ctrlBytes_update bs s) = tx_inv p s"
  "tx_inv p (interfaceOpened_update g s) = tx_inv p s"
  "tx_inv p (macAddress_update m s) = tx_inv p s" "tx_inv p (macValid_update g s) = tx_inv p s"
  "tx_inv p (dispatchQueue_update h s) = tx_inv p s" "tx_inv p (pool_update h s) = tx_inv p s"
  "tx_inv p (txSubmit_update h s) = tx_inv p s" "tx_inv p (rxSubmit_update h s) = tx_inv p s"
  "tx_inv p (rxComplete_update h s) = tx_inv p s" "tx_inv p (pipeIn_update h s) = tx_inv p s"
  "tx_inv p (pipeOut_update h s) = tx_inv p s" "tx_inv p (rxBuffer_update h s) = tx_inv p s"
  "tx_inv p (rxBytes_update bs s) = tx_inv p s" "tx_inv p (txBuffer_update h s) = tx_inv p s"
  "tx_inv p (txBytes_update bs s) = tx_inv p s" "tx_inv p (rxAction_update h s) = tx_inv p s"
  "tx_inv p (txAction_update h s) = tx_inv p s" "tx_inv p (txDataQueue_update h s) = tx_inv p s"
  "tx_inv p (txDataAvailableAction_update h s) = tx_inv p s"
  "tx_inv p (inTxDataAvailable_update g s) = tx_inv p s"
  "tx_inv p (inRxComplete_update g s) = tx_inv p s"
  "tx_inv p (inTxComplete_update g s) = tx_inv p s" "tx_inv p (rxArmed_update g s) = tx_inv p s"
  "tx_inv p (rxRunning_update g s) = tx_inv p s" "tx_inv p (stopping_update g s) = tx_inv p s"
  "tx_inv p (stopCancelsPending_update n s) = tx_inv p s"
  "tx_inv p (rxIdleRun_update f s) = tx_inv p s"
  "tx_inv p (rxBackoffActive_update g s) = tx_inv p s"
  "tx_inv p (rxBackoffTimer_update h s) = tx_inv p s"
  "tx_inv p (rxBackoffAction_update h s) = tx_inv p s"
  "tx_inv p (rxBackoffEpisodes_update f s) = tx_inv p s"
  "tx_inv p (rxBackoffWakes_update f s) = tx_inv p s" "tx_inv p (rxFrames_update f s) = tx_inv p s"
  "tx_inv p (rxDropped_update f s) = tx_inv p s" "tx_inv p (txFrames_update f s) = tx_inv p s"
  "tx_inv p (txErrors_update f s) = tx_inv p s" "tx_inv p (txDoorbells_update f s) = tx_inv p s"
  "tx_inv p (txDrains_update f s) = tx_inv p s" "tx_inv p (txSubmitted_update f s) = tx_inv p s"
  "tx_inv p (txCompletions_update f s) = tx_inv p s"
  "tx_inv p (txBytesSent_update f s) = tx_inv p s" "tx_inv p (txRejected_update f s) = tx_inv p s"
  "tx_inv p (txSubmitFailures_update f s) = tx_inv p s"
  "tx_inv p (txStalls_update f s) = tx_inv p s" "tx_inv p (txAborted_update f s) = tx_inv p s"
  "tx_inv p (txDeferred_update f s) = tx_inv p s"
  "tx_inv p (rxCompletions_update f s) = tx_inv p s"
  "tx_inv p (rxCompletionErrors_update f s) = tx_inv p s"
  "tx_inv p (rxZeroLength_update f s) = tx_inv p s"
  "tx_inv p (rxByteCount_update f s) = tx_inv p s" "tx_inv p (rxRecords_update f s) = tx_inv p s"
  "tx_inv p (rxZeroRecords_update f s) = tx_inv p s"
  "tx_inv p (rxDropErrSum_update f s) = tx_inv p s"
  "tx_inv p (rxDropShort_update f s) = tx_inv p s"
  "tx_inv p (rxDropOversize_update f s) = tx_inv p s"
  "tx_inv p (rxDropNoBuffer_update f s) = tx_inv p s"
  "tx_inv p (rxDropBadAddr_update f s) = tx_inv p s"
  "tx_inv p (rxDropBadFit_update f s) = tx_inv p s"
  "tx_inv p (rxDropSetLen_update f s) = tx_inv p s"
  "tx_inv p (rxDropEnqueue_update f s) = tx_inv p s"
  "tx_inv p (rxEnqueueFailures_update f s) = tx_inv p s"
  "tx_inv p (rxSubmitDequeued_update f s) = tx_inv p s"
  "tx_inv p (rxSubmitEmpty_update f s) = tx_inv p s"
  "tx_inv p (rxPoolFailures_update f s) = tx_inv p s" "tx_inv p (rxLost_update f s) = tx_inv p s"
  "tx_inv p (rxArmCount_update f s) = tx_inv p s"
  "tx_inv p (rxArmFailures_update f s) = tx_inv p s" "tx_inv p (env_update e s) = tx_inv p s"
  by (simp_all add: tx_inv_def)

lemma rx_inv_frame [simp]:
  "rx_inv d p (interface_update h s) = rx_inv d p s" "rx_inv d p (ctrlBuffer_update h s) = rx_inv d p s"
  "rx_inv d p (ctrlBytes_update bs s) = rx_inv d p s" "rx_inv d p (interfaceOpened_update g s) = rx_inv d p s"
  "rx_inv d p (macAddress_update m s) = rx_inv d p s" "rx_inv d p (macValid_update g s) = rx_inv d p s"
  "rx_inv d p (dispatchQueue_update h s) = rx_inv d p s" "rx_inv d p (pool_update h s) = rx_inv d p s"
  "rx_inv d p (txSubmit_update h s) = rx_inv d p s" "rx_inv d p (rxSubmit_update h s) = rx_inv d p s"
  "rx_inv d p (txComplete_update h s) = rx_inv d p s" "rx_inv d p (rxComplete_update h s) = rx_inv d p s"
  "rx_inv d p (pipeIn_update h s) = rx_inv d p s" "rx_inv d p (pipeOut_update h s) = rx_inv d p s"
  "rx_inv d p (rxBuffer_update h s) = rx_inv d p s" "rx_inv d p (rxBytes_update bs s) = rx_inv d p s"
  "rx_inv d p (txBuffer_update h s) = rx_inv d p s" "rx_inv d p (txBytes_update bs s) = rx_inv d p s"
  "rx_inv d p (rxAction_update h s) = rx_inv d p s" "rx_inv d p (txAction_update h s) = rx_inv d p s"
  "rx_inv d p (txDataQueue_update h s) = rx_inv d p s"
  "rx_inv d p (txDataAvailableAction_update h s) = rx_inv d p s"
  "rx_inv d p (txInFlight_update g s) = rx_inv d p s" "rx_inv d p (txPacket_update h s) = rx_inv d p s"
  "rx_inv d p (txDatapathReady_update g s) = rx_inv d p s"
  "rx_inv d p (inTxDataAvailable_update g s) = rx_inv d p s" "rx_inv d p (inRxComplete_update g s) = rx_inv d p s"
  "rx_inv d p (inTxComplete_update g s) = rx_inv d p s" "rx_inv d p (rxRunning_update g s) = rx_inv d p s"
  "rx_inv d p (stopCancelsPending_update n s) = rx_inv d p s" "rx_inv d p (rxIdleRun_update f s) = rx_inv d p s"
  "rx_inv d p (rxBackoffActive_update g s) = rx_inv d p s" "rx_inv d p (rxBackoffTimer_update h s) = rx_inv d p s"
  "rx_inv d p (rxBackoffAction_update h s) = rx_inv d p s"
  "rx_inv d p (rxBackoffEpisodes_update f s) = rx_inv d p s"
  "rx_inv d p (rxBackoffWakes_update f s) = rx_inv d p s" "rx_inv d p (txFrames_update f s) = rx_inv d p s"
  "rx_inv d p (txErrors_update f s) = rx_inv d p s" "rx_inv d p (txDoorbells_update f s) = rx_inv d p s"
  "rx_inv d p (txDrains_update f s) = rx_inv d p s" "rx_inv d p (txDequeued_update f s) = rx_inv d p s"
  "rx_inv d p (txSubmitted_update f s) = rx_inv d p s" "rx_inv d p (txCompletions_update f s) = rx_inv d p s"
  "rx_inv d p (txReturned_update f s) = rx_inv d p s" "rx_inv d p (txLost_update f s) = rx_inv d p s"
  "rx_inv d p (txBytesSent_update f s) = rx_inv d p s" "rx_inv d p (txRejected_update f s) = rx_inv d p s"
  "rx_inv d p (txSubmitFailures_update f s) = rx_inv d p s" "rx_inv d p (txStalls_update f s) = rx_inv d p s"
  "rx_inv d p (txAborted_update f s) = rx_inv d p s" "rx_inv d p (txDeferred_update f s) = rx_inv d p s"
  "rx_inv d p (rxCompletions_update f s) = rx_inv d p s"
  "rx_inv d p (rxCompletionErrors_update f s) = rx_inv d p s" "rx_inv d p (rxZeroLength_update f s) = rx_inv d p s"
  "rx_inv d p (rxByteCount_update f s) = rx_inv d p s" "rx_inv d p (rxZeroRecords_update f s) = rx_inv d p s"
  "rx_inv d p (rxSubmitDequeued_update f s) = rx_inv d p s" "rx_inv d p (rxSubmitEmpty_update f s) = rx_inv d p s"
  "rx_inv d p (rxPoolFailures_update f s) = rx_inv d p s" "rx_inv d p (rxLost_update f s) = rx_inv d p s"
  "rx_inv d p (rxArmCount_update f s) = rx_inv d p s" "rx_inv d p (rxArmFailures_update f s) = rx_inv d p s"
  "rx_inv d p (env_update e s) = rx_inv d p s"
  by (simp_all add: rx_inv_def)

lemma mem_inv_frame [simp]:
  "mem_inv (ctrlBuffer_update h s) = mem_inv s" "mem_inv (ctrlBytes_update bs s) = mem_inv s"
  "mem_inv (interface_update h s) = mem_inv s" "mem_inv (interfaceOpened_update g s) = mem_inv s"
  "mem_inv (macAddress_update m s) = mem_inv s" "mem_inv (macValid_update g s) = mem_inv s"
  "mem_inv (dispatchQueue_update h s) = mem_inv s" "mem_inv (pool_update h s) = mem_inv s"
  "mem_inv (txSubmit_update h s) = mem_inv s" "mem_inv (rxSubmit_update h s) = mem_inv s"
  "mem_inv (txComplete_update h s) = mem_inv s" "mem_inv (rxComplete_update h s) = mem_inv s"
  "mem_inv (pipeOut_update h s) = mem_inv s" "mem_inv (rxBuffer_update h s) = mem_inv s"
  "mem_inv (txBuffer_update h s) = mem_inv s" "mem_inv (rxAction_update h s) = mem_inv s"
  "mem_inv (txAction_update h s) = mem_inv s" "mem_inv (txDataQueue_update h s) = mem_inv s"
  "mem_inv (txDataAvailableAction_update h s) = mem_inv s"
  "mem_inv (txInFlight_update g s) = mem_inv s" "mem_inv (txPacket_update h s) = mem_inv s"
  "mem_inv (txDatapathReady_update g s) = mem_inv s"
  "mem_inv (inTxDataAvailable_update g s) = mem_inv s"
  "mem_inv (inRxComplete_update g s) = mem_inv s" "mem_inv (inTxComplete_update g s) = mem_inv s"
  "mem_inv (rxArmed_update g s) = mem_inv s" "mem_inv (rxRunning_update g s) = mem_inv s"
  "mem_inv (stopping_update g s) = mem_inv s" "mem_inv (stopCancelsPending_update n s) = mem_inv s"
  "mem_inv (rxIdleRun_update f s) = mem_inv s" "mem_inv (rxBackoffActive_update g s) = mem_inv s"
  "mem_inv (rxBackoffTimer_update h s) = mem_inv s"
  "mem_inv (rxBackoffAction_update h s) = mem_inv s"
  "mem_inv (rxBackoffEpisodes_update f s) = mem_inv s"
  "mem_inv (rxBackoffWakes_update f s) = mem_inv s" "mem_inv (rxFrames_update f s) = mem_inv s"
  "mem_inv (rxDropped_update f s) = mem_inv s" "mem_inv (txFrames_update f s) = mem_inv s"
  "mem_inv (txErrors_update f s) = mem_inv s" "mem_inv (txDoorbells_update f s) = mem_inv s"
  "mem_inv (txDrains_update f s) = mem_inv s" "mem_inv (txDequeued_update f s) = mem_inv s"
  "mem_inv (txSubmitted_update f s) = mem_inv s" "mem_inv (txCompletions_update f s) = mem_inv s"
  "mem_inv (txReturned_update f s) = mem_inv s" "mem_inv (txLost_update f s) = mem_inv s"
  "mem_inv (txBytesSent_update f s) = mem_inv s" "mem_inv (txRejected_update f s) = mem_inv s"
  "mem_inv (txSubmitFailures_update f s) = mem_inv s" "mem_inv (txStalls_update f s) = mem_inv s"
  "mem_inv (txAborted_update f s) = mem_inv s" "mem_inv (txDeferred_update f s) = mem_inv s"
  "mem_inv (rxCompletions_update f s) = mem_inv s"
  "mem_inv (rxCompletionErrors_update f s) = mem_inv s"
  "mem_inv (rxZeroLength_update f s) = mem_inv s" "mem_inv (rxByteCount_update f s) = mem_inv s"
  "mem_inv (rxRecords_update f s) = mem_inv s" "mem_inv (rxZeroRecords_update f s) = mem_inv s"
  "mem_inv (rxDropErrSum_update f s) = mem_inv s" "mem_inv (rxDropShort_update f s) = mem_inv s"
  "mem_inv (rxDropOversize_update f s) = mem_inv s"
  "mem_inv (rxDropNoBuffer_update f s) = mem_inv s"
  "mem_inv (rxDropBadAddr_update f s) = mem_inv s" "mem_inv (rxDropBadFit_update f s) = mem_inv s"
  "mem_inv (rxDropSetLen_update f s) = mem_inv s" "mem_inv (rxDropEnqueue_update f s) = mem_inv s"
  "mem_inv (rxEnqueueFailures_update f s) = mem_inv s"
  "mem_inv (rxSubmitDequeued_update f s) = mem_inv s"
  "mem_inv (rxSubmitEmpty_update f s) = mem_inv s"
  "mem_inv (rxPoolFailures_update f s) = mem_inv s" "mem_inv (rxLost_update f s) = mem_inv s"
  "mem_inv (rxArmCount_update f s) = mem_inv s" "mem_inv (rxArmFailures_update f s) = mem_inv s"
  "mem_inv (env_update e s) = mem_inv s"
  by (simp_all add: mem_inv_def)

definition tx_ready :: "'e sys \<Rightarrow> bool" where
  "tx_ready s \<longleftrightarrow> txDatapathReady s \<and> txSubmit s \<noteq> None \<and> txComplete s \<noteq> None"

definition drv_inv :: "pkt option \<Rightarrow> 'e sys \<Rightarrow> bool" where
  "drv_inv h s \<longleftrightarrow> tx_inv h s \<and> rx_inv False None s \<and> mem_inv s"

text \<open>Calls that contribute to no tally.\<close>

definition neutral :: "call \<Rightarrow> bool" where
  "neutral c \<longleftrightarrow> tx_taken c = 0 \<and> tx_given c = 0 \<and> rx_acquired c = 0 \<and> rx_disposed c = 0 \<and>
     in_accepted c = 0 \<and> in_completed c = 0 \<and> out_accepted c = 0 \<and> out_completed c = 0"

lemma inv_calls:
  assumes "neutral c"
  shows "tx_inv h (s\<lparr>calls := calls s @ [c]\<rparr>) = tx_inv h s"
    and "rx_inv d h (s\<lparr>calls := calls s @ [c]\<rparr>) = rx_inv d h s"
    and "call_ok c \<Longrightarrow> mem_inv (s\<lparr>calls := calls s @ [c]\<rparr>) = mem_inv s"
  using assms by (simp_all add: inv_defs neutral_def)

lemma inv_log:
  assumes "neutral c"
  shows "tx_inv h (s\<lparr>env := e, calls := calls s @ [c]\<rparr>) = tx_inv h s"
    and "rx_inv d h (s\<lparr>env := e, calls := calls s @ [c]\<rparr>) = rx_inv d h s"
    and "call_ok c \<Longrightarrow> mem_inv (s\<lparr>env := e, calls := calls s @ [c]\<rparr>) = mem_inv s"
  using assms by (simp_all add: inv_defs neutral_def)

lemma neutral_simps [simp]:
  "neutral (StallCleared p ret)" "neutral (WokeAt t ret)" "neutral (SetLength k n ret)"
  "neutral Diverged" "neutral (RegRead off ret v)" "neutral (RegWrite off v ret)"
  "neutral (PipeAborted p ret)" "neutral (CancelIssued p ret)" "neutral CancelRan"
  "neutral Retained" "neutral ReleasedRetains" "neutral (Released p)" "neutral (Opened ret)"
  "neutral Closed" "neutral (SuperStarted ret)" "neutral (SuperStopped ret)"
  "neutral (SuperEnabled b ret)" "neutral (QueueEnabled p b ret)" "neutral (LinkReported b ret)"
  "neutral (Registered m ret)" "neutral (Published key prop)" "neutral (CopyIn base dataOff bytes)"
  "neutral (CopyOut base dataOff len)" "neutral NullDeref"
  by (simp_all add: neutral_def)

lemma drv_inv_frame [simp]:
  "drv_inv p (interface_update h s) = drv_inv p s"
  "drv_inv p (ctrlBuffer_update h s) = drv_inv p s"
  "drv_inv p (ctrlBytes_update bs s) = drv_inv p s"
  "drv_inv p (interfaceOpened_update g s) = drv_inv p s"
  "drv_inv p (macAddress_update m s) = drv_inv p s" "drv_inv p (macValid_update g s) = drv_inv p s"
  "drv_inv p (dispatchQueue_update h s) = drv_inv p s" "drv_inv p (pool_update h s) = drv_inv p s"
  "drv_inv p (txSubmit_update h s) = drv_inv p s" "drv_inv p (rxSubmit_update h s) = drv_inv p s"
  "drv_inv p (rxComplete_update h s) = drv_inv p s" "drv_inv p (pipeOut_update h s) = drv_inv p s"
  "drv_inv p (rxBuffer_update h s) = drv_inv p s" "drv_inv p (txBuffer_update h s) = drv_inv p s"
  "drv_inv p (rxAction_update h s) = drv_inv p s" "drv_inv p (txAction_update h s) = drv_inv p s"
  "drv_inv p (txDataQueue_update h s) = drv_inv p s"
  "drv_inv p (txDataAvailableAction_update h s) = drv_inv p s"
  "drv_inv p (inTxDataAvailable_update g s) = drv_inv p s"
  "drv_inv p (inRxComplete_update g s) = drv_inv p s"
  "drv_inv p (inTxComplete_update g s) = drv_inv p s"
  "drv_inv p (rxRunning_update g s) = drv_inv p s"
  "drv_inv p (stopCancelsPending_update n s) = drv_inv p s"
  "drv_inv p (rxIdleRun_update f s) = drv_inv p s"
  "drv_inv p (rxBackoffActive_update g s) = drv_inv p s"
  "drv_inv p (rxBackoffTimer_update h s) = drv_inv p s"
  "drv_inv p (rxBackoffAction_update h s) = drv_inv p s"
  "drv_inv p (rxBackoffEpisodes_update f s) = drv_inv p s"
  "drv_inv p (rxBackoffWakes_update f s) = drv_inv p s"
  "drv_inv p (txFrames_update f s) = drv_inv p s" "drv_inv p (txErrors_update f s) = drv_inv p s"
  "drv_inv p (txDoorbells_update f s) = drv_inv p s"
  "drv_inv p (txDrains_update f s) = drv_inv p s"
  "drv_inv p (txSubmitted_update f s) = drv_inv p s"
  "drv_inv p (txCompletions_update f s) = drv_inv p s"
  "drv_inv p (txBytesSent_update f s) = drv_inv p s"
  "drv_inv p (txRejected_update f s) = drv_inv p s"
  "drv_inv p (txSubmitFailures_update f s) = drv_inv p s"
  "drv_inv p (txStalls_update f s) = drv_inv p s" "drv_inv p (txAborted_update f s) = drv_inv p s"
  "drv_inv p (txDeferred_update f s) = drv_inv p s"
  "drv_inv p (rxCompletions_update f s) = drv_inv p s"
  "drv_inv p (rxCompletionErrors_update f s) = drv_inv p s"
  "drv_inv p (rxZeroLength_update f s) = drv_inv p s"
  "drv_inv p (rxByteCount_update f s) = drv_inv p s"
  "drv_inv p (rxZeroRecords_update f s) = drv_inv p s"
  "drv_inv p (rxSubmitDequeued_update f s) = drv_inv p s"
  "drv_inv p (rxSubmitEmpty_update f s) = drv_inv p s"
  "drv_inv p (rxPoolFailures_update f s) = drv_inv p s"
  "drv_inv p (rxLost_update f s) = drv_inv p s" "drv_inv p (rxArmCount_update f s) = drv_inv p s"
  "drv_inv p (rxArmFailures_update f s) = drv_inv p s" "drv_inv p (env_update e s) = drv_inv p s"
  by (simp_all add: drv_inv_def)

lemma tx_ready_frame [simp]: "tx_ready (s\<lparr>env := e\<rparr>) = tx_ready s"
  "tx_ready (txBytes_update bs s) = tx_ready s" "tx_ready (s\<lparr>calls := cs\<rparr>) = tx_ready s"
  "tx_ready (txDequeued_update f s) = tx_ready s" "tx_ready (txErrors_update f s) = tx_ready s"
  "tx_ready (txRejected_update f s) = tx_ready s"
  by (simp_all add: tx_ready_def)

lemma drv_inv_emit:
  assumes "drv_inv h s" and "neutral c" and "call_ok c"
  shows "drv_inv h (s\<lparr>calls := calls s @ [c]\<rparr>)"
  using assms by (simp add: drv_inv_def inv_calls)

lemma keeps_drv_log [keeps_intros]:
  "(\<And>a. neutral (c a)) \<Longrightarrow> (\<And>a. call_ok (c a)) \<Longrightarrow> keeps (drv_inv h) (ext_log f c)"
  by (simp add: keeps_def ext_log_def ext_def emit_def drv_inv_def inv_log split: prod.split)

lemma keeps_drv_ext [keeps_intros]: "keeps (drv_inv h) (ext f)"
  by (rule keeps_ext) simp

lemma keeps_drv_emit [keeps_intros]:
  "neutral c \<Longrightarrow> call_ok c \<Longrightarrow> keeps (drv_inv h) (emit c)"
  by (rule keeps_emit) (rule drv_inv_emit)

text \<open>For predicates that look neither at the outside nor at the calls.\<close>

lemma keeps_log:
  "(\<And>s e cs. P s \<Longrightarrow> P (s\<lparr>env := e, calls := cs\<rparr>)) \<Longrightarrow> keeps P (ext_log f c)"
  by (simp add: keeps_def ext_log_def ext_def emit_def split: prod.split)

text \<open>The invariant while a packet is held and can still be given back.\<close>

definition holding :: "pkt option \<Rightarrow> 'e sys \<Rightarrow> bool" where
  "holding h s \<longleftrightarrow> drv_inv h s \<and> (h \<noteq> None \<longrightarrow> txComplete s \<noteq> None)"

lemma keeps_holding:
  "keeps (drv_inv h) m \<Longrightarrow> (\<And>q. keeps (\<lambda>s. txComplete s = q) m) \<Longrightarrow> keeps (holding h) m"
  by (auto simp: keeps_def holding_def)

end
