(* ===== verification/Control.thy ===== *)
theory Control
  imports Invariant
begin

text \<open>
  The control path of \<open>SMSC95xxDriver.cpp\<close>: vendor register access, MII and EEPROM reads, the
  thunks that hand register access to the shared bring-up, registry properties, the promiscuous
  mode switch and the small overrides the family calls. Log lines are left out throughout.
\<close>

section \<open>Register access\<close>

text \<open>The request types \<open>In | Vendor | Device\<close> and \<open>Out | Vendor | Device\<close> of the USB standard.\<close>

definition REQUEST_IN :: u8 where "REQUEST_IN = 0xC0"
definition REQUEST_OUT :: u8 where "REQUEST_OUT = 0x40"

definition POLL_ATTEMPTS :: nat where "POLL_ATTEMPTS = 100"

text \<open>
  \<open>DeviceRequest(type, request, 0, offset, 4, ctrlBuffer, &transferred, 1000)\<close>: the transfer reads
  and writes the bytes \<open>ctrlBuffer\<close> maps, never more than the four it was asked for.
\<close>

definition device_request ::
    "'e dk \<Rightarrow> obj \<Rightarrow> u8 \<Rightarrow> u8 \<Rightarrow> u32 \<Rightarrow> ('e sys, kern_return \<times> u16) state" where
  "device_request dk itf type request offset = do {
     b \<leftarrow> gets ctrlBytes;
     (ret, content, transferred) \<leftarrow>
       ext (dk_DeviceRequest dk itf type request 0 (ucast offset) 4 (case b of None \<Rightarrow> [] | Some b \<Rightarrow> b));
     modify (ctrlBytes_update (map_option (\<lambda>b. overlay b 0 (take 4 content))));
     return (ret, transferred)
   }"

definition readRegister ::
    "'e dk \<Rightarrow> u32 \<Rightarrow> u32 option \<Rightarrow> ('e sys, kern_return \<times> u32 option) state" where
  "readRegister dk offset val = do {
     itf \<leftarrow> gets interface;
     buf \<leftarrow> gets ctrlBuffer;
     case (val, itf, buf) of
       (Some v, Some itf, Some _) \<Rightarrow> do {
         (ret, transferred) \<leftarrow> device_request dk itf REQUEST_IN REQ_READ_REGISTER offset;
         if ret \<noteq> kIOReturnSuccess then do {
           emit (RegRead offset ret v);
           return (ret, val)
         } else if transferred \<noteq> 4 then do {
           emit (RegRead offset kIOReturnUnderrun v);
           return (kIOReturnUnderrun, val)
         } else do {
           b \<leftarrow> gets ctrlBytes;
           v \<leftarrow> deref b v (\<lambda>b. return (ucast (b ! 0) OR push_bit 8 (ucast (b ! 1))
             OR push_bit 16 (ucast (b ! 2)) OR push_bit 24 (ucast (b ! 3))));
           emit (RegRead offset kIOReturnSuccess v);
           return (kIOReturnSuccess, Some v)
         }
       }
     | _ \<Rightarrow> return (kIOReturnBadArgument, val)
   }"

definition writeRegister :: "'e dk \<Rightarrow> u32 \<Rightarrow> u32 \<Rightarrow> ('e sys, kern_return) state" where
  "writeRegister dk offset val = do {
     itf \<leftarrow> gets interface;
     buf \<leftarrow> gets ctrlBuffer;
     case (itf, buf) of
       (Some itf, Some _) \<Rightarrow> do {
         b \<leftarrow> gets ctrlBytes;
         deref b () (\<lambda>b. assign ctrlBytes_update (Some (b[0 := ucast (val AND 0xFF),
           1 := ucast (drop_bit 8 val AND 0xFF), 2 := ucast (drop_bit 16 val AND 0xFF),
           3 := ucast (drop_bit 24 val AND 0xFF)])));
         (ret, transferred) \<leftarrow> device_request dk itf REQUEST_OUT REQ_WRITE_REGISTER offset;
         ret \<leftarrow> return (if ret \<noteq> kIOReturnSuccess then ret
                 else if transferred \<noteq> 4 then kIOReturnUnderrun else kIOReturnSuccess);
         emit (RegWrite offset val ret);
         return ret
       }
     | _ \<Rightarrow> return kIOReturnBadArgument
   }"

text \<open>The loop of \<open>wait_clear\<close> with \<open>n\<close> attempts left.\<close>

fun wait_clear_loop :: "'e dk \<Rightarrow> u16 \<Rightarrow> u32 \<Rightarrow> nat \<Rightarrow> ('e sys, kern_return) state" where
  "wait_clear_loop dk offset bits 0 = return kIOReturnTimeout"
| "wait_clear_loop dk offset bits (Suc n) = do {
     (kr, v) \<leftarrow> readRegister dk (ucast offset) (Some 0);
     if kr \<noteq> kIOReturnSuccess then return kr
     else if the v AND bits = 0 then return kIOReturnSuccess
     else wait_clear_loop dk offset bits n
   }"

definition wait_clear :: "'e dk \<Rightarrow> u16 \<Rightarrow> u32 \<Rightarrow> ('e sys, kern_return) state" where
  "wait_clear dk offset bits = wait_clear_loop dk offset bits POLL_ATTEMPTS"

definition miiRead :: "'e dk \<Rightarrow> u8 \<Rightarrow> u8 \<Rightarrow> u16 \<Rightarrow> ('e sys, kern_return \<times> u16) state" where
  "miiRead dk phy reg val = do {
     kr \<leftarrow> wait_clear dk REG_MII_ADDR MII_BUSY;
     if kr \<noteq> kIOReturnSuccess then return (kr, val) else do {
     kr \<leftarrow> writeRegister dk (ucast REG_MII_ADDR) (smsc95xx_mii_addr_word phy reg False);
     if kr \<noteq> kIOReturnSuccess then return (kr, val) else do {
     kr \<leftarrow> wait_clear dk REG_MII_ADDR MII_BUSY;
     if kr \<noteq> kIOReturnSuccess then return (kr, val) else do {
     (kr, word) \<leftarrow> readRegister dk (ucast REG_MII_DATA) (Some 0);
     return (kr, if kr = kIOReturnSuccess then ucast (the word AND 0xFFFF) else val)
     }}}
   }"

section \<open>The shared bring-up's callbacks\<close>

text \<open>
  \<open>SMSC95xxInitIO\<close>: the driver and the two access counters its log lines show. The counters are
  the second component of the state the init thunks work on; \<open>with_ctx\<close> runs such a computation
  with counters of its own, as the local variable \<open>ioCtx\<close> of \<open>Start\<close>.
\<close>

record SMSC95xxInitIO =
  io_reads :: u32
  io_writes :: u32

definition on_driver :: "('s, 'a) state \<Rightarrow> ('s \<times> 'c, 'a) state" where
  "on_driver m = State (\<lambda>(s, c). case run_state m s of (a, s') \<Rightarrow> (a, (s', c)))"

definition with_ctx :: "'c \<Rightarrow> ('s \<times> 'c, 'a) state \<Rightarrow> ('s, 'a) state" where
  "with_ctx c m = State (\<lambda>s. case run_state m (s, c) of (a, (s', _)) \<Rightarrow> (a, s'))"

definition read_out :: "'e dk \<Rightarrow> u16 \<Rightarrow> u32 \<Rightarrow> ('e sys, kern_return \<times> u32) state" where
  "read_out dk offset val = do {
     (ret, v) \<leftarrow> readRegister dk (ucast offset) (Some val);
     return (ret, the v)
   }"

definition initRegRead :: "'e dk \<Rightarrow> ('e sys \<times> SMSC95xxInitIO) reg_read" where
  "initRegRead dk offset val = do {
     modify (map_prod id (io_reads_update (\<lambda>n. n + 1)));
     on_driver (read_out dk offset val)
   }"

definition initRegWrite :: "'e dk \<Rightarrow> ('e sys \<times> SMSC95xxInitIO) reg_write" where
  "initRegWrite dk offset val = do {
     modify (map_prod id (io_writes_update (\<lambda>n. n + 1)));
     on_driver (writeRegister dk (ucast offset) val)
   }"

definition sharedResultToIOReturn :: "kern_return \<Rightarrow> kern_return" where
  "sharedResultToIOReturn rc =
     (if rc = 0 then kIOReturnSuccess
      else if rc = INIT_ERR_BAD_ARG then kIOReturnBadArgument
      else if rc = INIT_ERR_RESET_TIMEOUT then kIOReturnTimeout
      else if rc = INIT_ERR_E2P_TIMEOUT then kIOReturnTimeout
      else if rc = INIT_ERR_E2P_NO_EEPROM then kIOReturnNotFound
      else rc)"

definition quietRegRead :: "'e dk \<Rightarrow> 'e sys reg_read" where
  "quietRegRead dk offset val = read_out dk offset val"

definition quietRegWrite :: "'e dk \<Rightarrow> 'e sys reg_write" where
  "quietRegWrite dk offset val = writeRegister dk (ucast offset) val"

definition eepromRead ::
    "'e dk \<Rightarrow> u16 \<Rightarrow> u8 list option \<Rightarrow> size_t \<Rightarrow> ('e sys, kern_return \<times> u8 list option) state" where
  "eepromRead dk offset buf len = do {
     (rc, buf) \<leftarrow> smsc95xx_eeprom_read
       (Some \<lparr>read_cb = Some (quietRegRead dk), write_cb = Some (quietRegWrite dk)\<rparr>) offset buf len;
     return (sharedResultToIOReturn rc, buf)
   }"

text \<open>Publishing one property; \<open>OSDictionary::withCapacity\<close> may run out of memory.\<close>

definition publishProperty :: "'e dk \<Rightarrow> string \<Rightarrow> property option \<Rightarrow> ('e sys, unit) state" where
  "publishProperty dk key val =
     (case val of
        None \<Rightarrow> skip
      | Some p \<Rightarrow> do {
          props \<leftarrow> ext (dk_alloc dk);
          if \<not> props then skip
          else do { ext_log (dk_SetProperties dk key p) (\<lambda>_. Published key p); skip }
        })"

section \<open>Promiscuous mode\<close>

definition setPromiscuousModeEnable :: "'e dk \<Rightarrow> bool \<Rightarrow> ('e sys, kern_return) state" where
  "setPromiscuousModeEnable dk enable = do {
     stop \<leftarrow> gets stopping;
     if stop then return kIOReturnOffline else do {
     (kr, macCr) \<leftarrow> readRegister dk (ucast REG_MAC_CR) (Some 0);
     if kr \<noteq> kIOReturnSuccess then return kr
     else
       let macCr = the macCr;
           newCr = (if enable then macCr OR MAC_CR_PRMS else macCr AND NOT MAC_CR_PRMS)
       in if newCr \<noteq> macCr then do {
            kr \<leftarrow> writeRegister dk (ucast REG_MAC_CR) newCr;
            if kr \<noteq> kIOReturnSuccess then return kr else return kIOReturnSuccess
          } else return kIOReturnSuccess
     }
   }"

section \<open>Overrides the family calls\<close>

definition SetInterfaceEnable_Impl :: "bool \<Rightarrow> kern_return" where
  "SetInterfaceEnable_Impl isEnable = kIOReturnSuccess"

definition SetPromiscuousModeEnable_Impl :: "bool \<Rightarrow> kern_return" where
  "SetPromiscuousModeEnable_Impl enable = kIOReturnSuccess"

definition setMaxTransferUnit :: "'e dk \<Rightarrow> u32 \<Rightarrow> ('e sys, kern_return) state" where
  "setMaxTransferUnit dk mtu =
     (if mtu \<noteq> 1500 then return kIOReturnUnsupported
      else ext (dk_super_setMaxTransferUnit dk mtu))"

definition getMaxTransferUnit :: u32 where "getMaxTransferUnit = 1500"

definition SetMTU_Impl :: "u32 \<Rightarrow> kern_return" where
  "SetMTU_Impl mtu = (if mtu = 1500 then kIOReturnSuccess else kIOReturnUnsupported)"

definition GetMaxTransferUnit_Impl :: "u32 option \<Rightarrow> kern_return \<times> u32 option" where
  "GetMaxTransferUnit_Impl mtu =
     (if mtu = None then (kIOReturnBadArgument, mtu) else (kIOReturnSuccess, Some 1500))"

definition SetMulticastAddresses_Impl :: "mac_addr list \<Rightarrow> u32 \<Rightarrow> kern_return" where
  "SetMulticastAddresses_Impl addresses n = kIOReturnUnsupported"

definition SetAllMulticastModeEnable_Impl :: "bool \<Rightarrow> kern_return" where
  "SetAllMulticastModeEnable_Impl enable = kIOReturnUnsupported"

definition SelectMediaType_Impl :: "u32 \<Rightarrow> kern_return" where
  "SelectMediaType_Impl mediaType = kIOReturnUnsupported"

definition SetWakeOnMagicPacketEnable_Impl :: "bool \<Rightarrow> kern_return" where
  "SetWakeOnMagicPacketEnable_Impl enable = kIOReturnUnsupported"

definition SetHardwareAssists_Impl :: "u32 \<Rightarrow> kern_return" where
  "SetHardwareAssists_Impl assists = kIOReturnUnsupported"

definition GetHardwareAssists_Impl :: "u32 option \<Rightarrow> kern_return \<times> u32 option" where
  "GetHardwareAssists_Impl assists =
     (if assists = None then (kIOReturnBadArgument, assists) else (kIOReturnSuccess, Some 0))"

definition getHardwareAddress ::
    "mac_addr option \<Rightarrow> ('e sys, kern_return \<times> mac_addr option) state" where
  "getHardwareAddress addr = do {
     s \<leftarrow> gets id;
     if addr = None then return (kIOReturnBadArgument, addr)
     else if \<not> macValid s then return (kIOReturnNotReady, addr)
     else return (kIOReturnSuccess, Some (map (\<lambda>i. macAddress s ! i) [0..<6]))
   }"

text \<open>The SDK's media words are parameters; the array is written out of its first three entries.\<close>

definition getSupportedMediaArray ::
    "u32 \<Rightarrow> u32 \<Rightarrow> u32 \<Rightarrow> u32 list option \<Rightarrow> u32 option \<Rightarrow> kern_return \<times> u32 list option \<times> u32 option" where
  "getSupportedMediaArray none auto media_word mediaArray mediaCount =
     (if mediaCount = None then (kIOReturnBadArgument, mediaArray, mediaCount)
      else (kIOReturnSuccess, map_option (\<lambda>a. a[0 := none, 1 := auto, 2 := media_word]) mediaArray,
            Some 3))"

definition getHardwareAssists :: u32 where "getHardwareAssists = 0"

definition getTSOOptions :: "u8 list option \<Rightarrow> kern_return \<times> u8 list option" where
  "getTSOOptions options =
     (if options = None then (kIOReturnBadArgument, options)
      else (kIOReturnSuccess, map_option (\<lambda>o'. replicate (length o') 0) options))"

definition setHardwareAssists :: "u32 \<Rightarrow> u32 \<Rightarrow> kern_return" where
  "setHardwareAssists assists assistsMask = kIOReturnUnsupported"

definition getTxDataOffset :: u16 where "getTxDataOffset = ucast TX_HEADER_LEN"

section \<open>What the control path leaves alone\<close>

text \<open>
  Register access changes the outside, the bytes of the control buffer and the record of register
  calls, and nothing else. \<open>ctrl_ok\<close> says that the control buffer is mapped.
\<close>

fun register_call :: "call \<Rightarrow> bool" where
  "register_call (RegRead reg ret v) = True"
| "register_call (RegWrite reg v ret) = True"
| "register_call _ = False"

definition ctrl_ok :: "'e sys \<Rightarrow> bool" where
  "ctrl_ok s \<longleftrightarrow> (ctrlBuffer s \<noteq> None \<longrightarrow> (\<exists>b. ctrlBytes s = Some b \<and> 4 \<le> length b))"

definition control_step :: "'e sys \<Rightarrow> 'e sys \<Rightarrow> bool" where
  "control_step s t \<longleftrightarrow>
     (\<exists>e cs b. t = s\<lparr>env := e, calls := calls s @ cs, ctrlBytes := b\<rparr> \<and> list_all register_call cs)
     \<and> ctrl_ok t"

lemma control_step_refl: "ctrl_ok s \<Longrightarrow> control_step s s"
  unfolding control_step_def by (auto intro!: exI [of _ "env s"] exI [of _ "[]"] exI [of _ "ctrlBytes s"])

lemma control_step_trans: "control_step s t \<Longrightarrow> control_step t u \<Longrightarrow> control_step s u"
  unfolding control_step_def by fastforce

lemma control_step_ctrl_ok: "control_step s t \<Longrightarrow> ctrl_ok t"
  by (simp add: control_step_def)

lemma register_call_neutral: "register_call c \<Longrightarrow> neutral c" "register_call c \<Longrightarrow> call_ok c"
  by (cases c; simp)+

lemma tally_register_calls:
  assumes "list_all register_call cs"
  shows "tally tx_taken cs = 0" "tally tx_given cs = 0" "tally rx_acquired cs = 0"
    "tally rx_disposed cs = 0" "tally in_accepted cs = 0" "tally in_completed cs = 0"
    "tally out_accepted cs = 0" "tally out_completed cs = 0" "list_all call_ok cs"
  using assms
  by (induction cs) (auto simp: neutral_def dest: register_call_neutral)

lemma control_step_drv_inv:
  assumes "control_step s t" and "drv_inv h s"
  shows "drv_inv h t"
proof -
  obtain e cs b where t: "t = s\<lparr>env := e, calls := calls s @ cs, ctrlBytes := b\<rparr>"
    and cs: "list_all register_call cs" and ok: "ctrl_ok t"
    using assms(1) by (auto simp: control_step_def)
  have "tx_inv h t = tx_inv h s" "rx_inv False None t = rx_inv False None s"
    by (simp_all add: t tx_inv_def rx_inv_def tally_register_calls [OF cs])
  moreover have "mem_inv t"
    using ok assms(2) by (simp add: t drv_inv_def mem_inv_def ctrl_ok_def tally_register_calls [OF cs])
  ultimately show ?thesis using assms(2) by (simp add: drv_inv_def)
qed

lemma wp_device_request:
  assumes "ctrl_ok s" and "ctrlBuffer s \<noteq> None"
  shows "wp (device_request dk itf type req off)
    (\<lambda>_ t. (\<exists>e b. t = s\<lparr>env := e, ctrlBytes := Some b\<rparr> \<and> 4 \<le> length b)) s"
proof -
  obtain b where b: "ctrlBytes s = Some b" "4 \<le> length b" using assms by (auto simp: ctrl_ok_def)
  have "\<exists>e b'. (ctrlBytes_update (map_option (\<lambda>b. overlay b 0 (take 4 c))) (s\<lparr>env := x\<rparr>)) =
    s\<lparr>env := e, ctrlBytes := Some b'\<rparr> \<and> 4 \<le> length b'" for c x
    by (intro exI [of _ x] exI [of _ "overlay b 0 (take 4 c)"]) (use b(2) in \<open>simp add: b overlay_def; linarith\<close>)
  then show ?thesis
    unfolding device_request_def by (auto simp: wp_simps split: prod.split)
qed

lemma control_stepI:
  "register_call c \<Longrightarrow> 4 \<le> length b \<Longrightarrow>
     control_step s (s\<lparr>env := e, ctrlBytes := Some b, calls := calls s @ [c]\<rparr>)"
  unfolding control_step_def ctrl_ok_def
  by (auto intro!: exI [of _ e] exI [of _ "[c]"] exI [of _ "Some b"])

lemma wp_readRegister:
  assumes "ctrl_ok s"
  shows "wp (readRegister dk off val) (\<lambda>_. control_step s) s"
proof (cases "interface s = None \<or> ctrlBuffer s = None \<or> val = None")
  case True
  then show ?thesis
    using control_step_refl [OF assms]
    by (auto simp: readRegister_def wp_simps split: option.split)
next
  case False
  then have req: "wp (device_request dk itf type req off)
      (\<lambda>_ t. (\<exists>e b. t = s\<lparr>env := e, ctrlBytes := Some b\<rparr> \<and> 4 \<le> length b)) s" for itf type req
    by (intro wp_device_request assms) auto
  obtain itf buf v where "interface s = Some itf" "ctrlBuffer s = Some buf" "val = Some v"
    using False by auto
  then show ?thesis
    unfolding readRegister_def
    by (auto simp: wp_bind wp_gets intro!: wp_mono [OF req])
      (auto simp: wp_simps control_stepI)
qed

lemma wp_writeRegister:
  assumes "ctrl_ok s"
  shows "wp (writeRegister dk off val) (\<lambda>_. control_step s) s"
proof (cases "interface s = None \<or> ctrlBuffer s = None")
  case True
  then show ?thesis
    using control_step_refl [OF assms]
    by (auto simp: writeRegister_def wp_simps split: option.split)
next
  case False
  then obtain b where b: "ctrlBytes s = Some b" "4 \<le> length b"
    using assms by (auto simp: ctrl_ok_def)
  let ?b = "b[0 := ucast (val AND 0xFF), Suc 0 := ucast (drop_bit 8 val AND 0xFF),
    2 := ucast (drop_bit 16 val AND 0xFF), 3 := ucast (drop_bit 24 val AND 0xFF)]"
  have req: "wp (device_request dk itf type req off)
      (\<lambda>_ t. (\<exists>e c. t = (s\<lparr>ctrlBytes := Some ?b\<rparr>)\<lparr>env := e, ctrlBytes := Some c\<rparr> \<and> 4 \<le> length c))
      (s\<lparr>ctrlBytes := Some ?b\<rparr>)" for itf type req
    using False b by (intro wp_device_request) (auto simp: ctrl_ok_def)
  obtain itf buf where "interface s = Some itf" "ctrlBuffer s = Some buf" using False by auto
  then show ?thesis
    unfolding writeRegister_def
    by (auto simp: wp_bind wp_gets wp_assign wp_deref b intro!: wp_mono [OF req])
      (auto simp: wp_simps control_stepI)
qed

lemma keeps_control:
  assumes "\<And>s. ctrl_ok s \<Longrightarrow> wp m (\<lambda>_. control_step s) s"
  shows "keeps (control_step s0) m"
proof (rule keepsI, rule wp_exec)
  fix s assume "control_step s0 s"
  then show "wp m (\<lambda>_. control_step s0) s"
    by (intro wp_mono [OF assms]) (auto dest: control_step_ctrl_ok control_step_trans)
qed

lemma readRegister_control: "keeps (control_step s0) (readRegister dk off val)"
  by (rule keeps_control) (rule wp_readRegister)

lemma writeRegister_control: "keeps (control_step s0) (writeRegister dk off val)"
  by (rule keeps_control) (rule wp_writeRegister)

lemmas register_control [keeps_intros] = readRegister_control writeRegister_control

lemma wait_clear_loop_control: "keeps (control_step s0) (wait_clear_loop dk off bits n)"
  by (induction n) (auto intro!: keeps_intros)

lemma wait_clear_control [keeps_intros]: "keeps (control_step s0) (wait_clear dk off bits)"
  unfolding wait_clear_def by (rule wait_clear_loop_control)

lemma miiRead_control: "keeps (control_step s0) (miiRead dk phy reg val)"
  unfolding miiRead_def by (intro keeps_intros)

lemma read_out_control [keeps_intros]: "keeps (control_step s0) (read_out dk off val)"
  unfolding read_out_def by (intro keeps_intros)

text \<open>A failed read leaves the caller's value alone, as the bring-up expects of its callbacks.\<close>

lemma readRegister_untouched:
  "run_state (readRegister dk off (Some v)) s = ((kr, v'), t) \<Longrightarrow> kr \<noteq> 0 \<Longrightarrow> v' = Some v"
proof -
  have "wp (readRegister dk off (Some v)) (\<lambda>(kr, v') _. kr \<noteq> 0 \<longrightarrow> v' = Some v) s"
    unfolding readRegister_def
    by (auto simp: wp_simps device_request_def kIOReturnSuccess_def split: option.split prod.split)
  then show "run_state (readRegister dk off (Some v)) s = ((kr, v'), t) \<Longrightarrow> kr \<noteq> 0 \<Longrightarrow> v' = Some v"
    by (auto dest: wp_runD)
qed

lemma read_out_untouched:
  assumes "run_state (read_out dk off v) s = ((kr, v'), t)" and "kr \<noteq> 0"
  shows "v' = v"
proof -
  have "wp (read_out dk off v) (\<lambda>(kr, v') _. kr \<noteq> 0 \<longrightarrow> v' = v) s"
    unfolding read_out_def
    by (auto simp: wp_simps intro!: wp_runI dest: readRegister_untouched)
  then show ?thesis using assms by (auto dest: wp_runD)
qed

lemma on_driver_keeps: "keeps P m \<Longrightarrow> keeps (\<lambda>(s, c). P s) (on_driver m)"
  by (auto simp: keeps_def on_driver_def split: prod.split)

lemma with_ctx_keeps: "keeps (\<lambda>(s, c). P s) m \<Longrightarrow> keeps P (with_ctx c m)"
proof (rule keepsI)
  fix s assume k: "keeps (\<lambda>(s, c). P s) m" and "P s"
  then have "(\<lambda>(s, c). P s) (exec_state m (s, c))" by (intro keepsD [OF k]) simp
  then show "P (exec_state (with_ctx c m) s)" by (cases "run_state m (s, c)") (auto simp: with_ctx_def)
qed

interpretation quiet_io: register_io "quietRegRead dk" "quietRegWrite dk" "control_step s0"
  for dk :: "'e dk" and s0 :: "'e sys"
proof
  show "keeps (control_step s0) (quietRegRead dk reg v)" for reg v
    unfolding quietRegRead_def by (rule read_out_control)
  show "keeps (control_step s0) (quietRegWrite dk reg v)" for reg v
    unfolding quietRegWrite_def by (rule writeRegister_control)
  show "run_state (quietRegRead dk reg v) c = ((kr, v'), c') \<Longrightarrow> kr \<noteq> 0 \<Longrightarrow> v' = v"
    for reg v c kr v' c'
    unfolding quietRegRead_def by (rule read_out_untouched)
qed

interpretation init_io: register_io "initRegRead dk" "initRegWrite dk" "\<lambda>(s, c). control_step s0 s"
  for dk :: "'e dk" and s0 :: "'e sys"
proof
  show "keeps (\<lambda>(s, c). control_step s0 s) (initRegRead dk reg v)" for reg v
    unfolding initRegRead_def by (intro keeps_intros on_driver_keeps) auto
  show "keeps (\<lambda>(s, c). control_step s0 s) (initRegWrite dk reg v)" for reg v
    unfolding initRegWrite_def by (intro keeps_intros on_driver_keeps) auto
  show "run_state (initRegRead dk reg v) c = ((kr, v'), c') \<Longrightarrow> kr \<noteq> 0 \<Longrightarrow> v' = v"
    for reg v c kr v' c'
    unfolding initRegRead_def
    by (auto simp: on_driver_def split: prod.splits dest: read_out_untouched)
qed

lemma eepromRead_control: "keeps (control_step s0) (eepromRead dk off buf len)"
  unfolding eepromRead_def by (intro keeps_intros quiet_io.eeprom_read_keeps)

lemma init_chip_control:
  "keeps (control_step s0) (with_ctx c (smsc95xx_init_seq
     (Some \<lparr>read_cb = Some (initRegRead dk), write_cb = Some (initRegWrite dk)\<rparr>) mac promiscuous))"
  by (rule with_ctx_keeps) (rule init_io.init_seq_keeps)

text \<open>Hence the control path keeps every predicate that register access respects.\<close>

lemma control_keeps:
  fixes m :: "('e sys, 'a) state"
  assumes "\<And>s0. keeps (control_step s0) m" and "\<And>s t. control_step s t \<Longrightarrow> P s \<Longrightarrow> P t"
  shows "keeps (\<lambda>s. P s \<and> ctrl_ok s) m"
proof (rule keepsI)
  fix s :: "'e sys" assume inv: "P s \<and> ctrl_ok s"
  have "control_step s (exec_state m s)"
    by (rule keepsD [OF assms(1) control_step_refl]) (use inv in simp)
  then show "P (exec_state m s) \<and> ctrl_ok (exec_state m s)"
    using inv assms(2) control_step_ctrl_ok by blast
qed

lemma setPromiscuousModeEnable_control:
  "keeps (control_step s0) (setPromiscuousModeEnable dk enable)"
  unfolding setPromiscuousModeEnable_def Let_def by (intro keeps_intros)

lemma publishProperty_keeps: "keeps (drv_inv h) (publishProperty dk key val)"
  unfolding publishProperty_def by (intro keeps_intros; simp)

end
