(* ===== verification/Receive.thy ===== *)
theory Receive
  imports Control
begin

text \<open>
  The receive half of \<open>SMSC95xxDriver_datapath.cpp\<close>: arming the bulk IN read, the idle backoff,
  acquiring a packet, the record loop and the completion \<open>RxComplete\<close>. Counters that only feed a
  log line of the same call (\<open>delivered\<close>, \<open>dropped\<close>) are left out; every instance variable is kept.
\<close>

section \<open>Constants\<close>

definition RX_BUFFER_LEN :: u32 where "RX_BUFFER_LEN = 4096"
definition RX_MAX_PAYLOAD :: size_t where "RX_MAX_PAYLOAD = 1518"
definition RX_IDLE_RUN_LIMIT :: u64 where "RX_IDLE_RUN_LIMIT = 8"
definition RX_BACKOFF_NS :: u64 where "RX_BACKOFF_NS = 100 * 1000 * 1000"
definition RX_BACKOFF_LEEWAY_NS :: u64 where "RX_BACKOFF_LEEWAY_NS = 50 * 1000 * 1000"

lemmas rx_limit_defs = RX_BUFFER_LEN_def RX_MAX_PAYLOAD_def POOL_BUFFER_SIZE_def LOWEST_MAPPED_def
  RX_IDLE_RUN_LIMIT_def RX_BACKOFF_NS_def RX_BACKOFF_LEEWAY_NS_def

section \<open>Arming\<close>

definition armRxRead :: "'e dk \<Rightarrow> ('e sys, kern_return) state" where
  "armRxRead dk = do {
     s \<leftarrow> gets id;
     if stopping s then return kIOReturnOffline
     else case (pipeIn s, rxAction s, rxBuffer s) of
       (Some pipe, Some action, Some buffer) \<Rightarrow>
         if rxArmed s then return kIOReturnSuccess
         else do {
           ret \<leftarrow> ext_log (dk_AsyncIO dk pipe buffer [] RX_BUFFER_LEN action)
             (SubmitIn pipe RX_BUFFER_LEN);
           if ret \<noteq> kIOReturnSuccess then do {
             incr rxArmFailures_update 1;
             return ret
           } else do {
             assign rxArmed_update True;
             incr rxArmCount_update 1;
             return kIOReturnSuccess
           }
         }
     | _ \<Rightarrow> return kIOReturnNotAttached
   }"

definition rearmRxRead :: "'e dk \<Rightarrow> bool \<Rightarrow> ('e sys, unit) state" where
  "rearmRxRead dk carriedData =
     (if carriedData then do {
        assign rxIdleRun_update 0;
        assign rxBackoffActive_update False;
        armRxRead dk;
        skip
      } else do {
        incr rxIdleRun_update 1;
        run \<leftarrow> gets rxIdleRun;
        if run \<le> RX_IDLE_RUN_LIMIT then do { armRxRead dk; skip }
        else do {
          timer \<leftarrow> gets rxBackoffTimer;
          case timer of
            None \<Rightarrow> skip
          | Some t \<Rightarrow> do {
              now \<leftarrow> ext (dk_clock_gettime dk);
              let deadline = now + RX_BACKOFF_NS;
              tret \<leftarrow> ext_log (dk_WakeAtTime dk t deadline RX_BACKOFF_LEEWAY_NS) (WokeAt deadline);
              if tret \<noteq> kIOReturnSuccess then assign rxBackoffActive_update False
              else do {
                active \<leftarrow> gets rxBackoffActive;
                if \<not> active then do {
                  assign rxBackoffActive_update True;
                  incr rxBackoffEpisodes_update 1
                } else skip
              }
            }
        }
      })"

definition RxBackoffExpired :: "'e dk \<Rightarrow> ('e sys, unit) state" where
  "RxBackoffExpired dk = do {
     incr rxBackoffWakes_update 1;
     running \<leftarrow> gets rxRunning;
     if \<not> running then skip
     else do { armRxRead dk; skip }
   }"

section \<open>Packets\<close>

definition deallocate :: "'e dk \<Rightarrow> pkt \<Rightarrow> ('e sys, kern_return) state" where
  "deallocate dk packet = do {
     p \<leftarrow> gets pool;
     deref p kIOReturnSuccess (\<lambda>p. ext_log (dk_deallocatePacket dk p packet) (RxFreed packet))
   }"

definition deliverPacket :: "'e dk \<Rightarrow> pkt \<Rightarrow> ('e sys, bool) state" where
  "deliverPacket dk packet = do {
     q \<leftarrow> gets rxComplete;
     ret \<leftarrow> deref q kIOReturnSuccess
       (\<lambda>q. ext_log (dk_enqueuePackets dk q packet) (RxEnqueued packet));
     if ret = kIOReturnSuccess then return True
     else do {
       incr rxEnqueueFailures_update 1;
       dret \<leftarrow> deallocate dk packet;
       whenever (dret \<noteq> kIOReturnSuccess) (incr rxLost_update 1);
       return False
     }
   }"

text \<open>The packet, and whether it came from the RX submission queue.\<close>

definition rxPoolPacket :: "'e dk \<Rightarrow> ('e sys, pkt option \<times> bool) state" where
  "rxPoolPacket dk = do {
     p \<leftarrow> gets pool;
     (pret, packet) \<leftarrow> deref p (kIOReturnSuccess, None) (\<lambda>p. ext (dk_allocatePacket dk p));
     (case packet of
        Some k \<Rightarrow>
          if pret = kIOReturnSuccess then do { emit (RxAllocated k); return (Some k, False) }
          else do { incr rxPoolFailures_update 1; return (None, False) }
      | None \<Rightarrow> do { incr rxPoolFailures_update 1; return (None, False) })
   }"

definition rxAcquirePacket :: "'e dk \<Rightarrow> ('e sys, pkt option \<times> bool) state" where
  "rxAcquirePacket dk = do {
     q \<leftarrow> gets rxSubmit;
     (case q of
        Some q \<Rightarrow> do {
          (n, packet) \<leftarrow> ext (dk_DequeuePackets dk q);
          (case packet of
             Some k \<Rightarrow>
               if n = 1 then do {
                 emit (RxDequeued k);
                 incr rxSubmitDequeued_update 1;
                 return (Some k, True)
               } else do { incr rxSubmitEmpty_update 1; rxPoolPacket dk }
           | None \<Rightarrow> do { incr rxSubmitEmpty_update 1; rxPoolPacket dk })
        }
      | None \<Rightarrow> do { incr rxSubmitEmpty_update 1; rxPoolPacket dk })
   }"

section \<open>The record loop\<close>

text \<open>Counting one dropped record under its reason.\<close>

definition drop_record :: "((u64 \<Rightarrow> u64) \<Rightarrow> 'e sys \<Rightarrow> 'e sys) \<Rightarrow> ('e sys, unit) state" where
  "drop_record reason = do { incr rxDropped_update 1; incr reason 1 }"

text \<open>The two ends of the body for a packet that has been filled: its length did not take, or it is
  handed to the stack. The result of the body says whether the loop goes on.\<close>

definition rx_unfilled :: "'e dk \<Rightarrow> pkt \<Rightarrow> ('e sys, bool) state" where
  "rx_unfilled dk packet = do {
     drop_record rxDropSetLen_update;
     dret \<leftarrow> deallocate dk packet;
     whenever (dret \<noteq> kIOReturnSuccess) (incr rxLost_update 1);
     return True
   }"

definition rx_deliver :: "'e dk \<Rightarrow> pkt \<Rightarrow> ('e sys, bool) state" where
  "rx_deliver dk packet = do {
     ok \<leftarrow> deliverPacket dk packet;
     (if ok then incr rxFrames_update 1 else drop_record rxDropEnqueue_update);
     return True
   }"

definition rx_fill ::
    "'e dk \<Rightarrow> pkt \<Rightarrow> u64 \<Rightarrow> size_t \<Rightarrow> size_t \<Rightarrow> u8 list \<Rightarrow> ('e sys, bool) state" where
  "rx_fill dk packet base dataOff payloadLen payload = do {
     ext_log (dk_poke dk (base + dataOff) payload) (\<lambda>_. CopyIn base dataOff payload);
     sret \<leftarrow> ext_log (dk_setDataLength dk packet (ucast payloadLen))
       (SetLength packet (ucast payloadLen));
     if sret \<noteq> kIOReturnSuccess then rx_unfilled dk packet else rx_deliver dk packet
   }"

text \<open>The body from the acquired packet on: the guards on the address and on the fit.\<close>

definition rx_into_packet ::
    "'e dk \<Rightarrow> u8 list \<Rightarrow> rx_record \<Rightarrow> size_t \<Rightarrow> pkt \<Rightarrow> ('e sys, bool) state" where
  "rx_into_packet dk buf r payloadLen packet = do {
     dataOff \<leftarrow> ext (dk_getDataOff dk packet);
     base \<leftarrow> ext (dk_getDataVirtualAddress dk packet);
     if base < LOWEST_MAPPED then do {
       drop_record rxDropBadAddr_update;
       deallocate dk packet;
       return False
     } else if POOL_BUFFER_SIZE < dataOff + payloadLen then do {
       drop_record rxDropBadFit_update;
       deallocate dk packet;
       return True
     } else
       rx_fill dk packet base dataOff payloadLen (slice (unat (rx_frame r)) (unat payloadLen) buf)
   }"

text \<open>The body of the loop for one record.\<close>

definition rx_record_body :: "'e dk \<Rightarrow> u8 list \<Rightarrow> rx_record \<Rightarrow> ('e sys, bool) state" where
  "rx_record_body dk buf r = do {
     incr rxRecords_update 1;
     if rx_status r AND (RX_STS_ERROR_SUM OR RX_STS_FILTER_FAIL) \<noteq> 0 then do {
       drop_record rxDropErrSum_update;
       return True
     } else if rx_frame_len r \<le> RX_CRC_LEN then do {
       drop_record rxDropShort_update;
       return True
     } else do {
       let payloadLen = rx_frame_len r - RX_CRC_LEN;
       if RX_MAX_PAYLOAD < payloadLen then do {
         drop_record rxDropOversize_update;
         return True
       } else do {
         (packet, fromSubmitQueue) \<leftarrow> rxAcquirePacket dk;
         (case packet of
            None \<Rightarrow> do {
              drop_record rxDropNoBuffer_update;
              return False
            }
          | Some packet \<Rightarrow> rx_into_packet dk buf r payloadLen packet)
       }
     }
   }"

text \<open>\<open>while (smsc95xx_rx_next(ivars->rxBytes, len, &offset, ...))\<close>, with the count of records.\<close>

function rx_loop :: "'e dk \<Rightarrow> u8 list \<Rightarrow> u32 \<Rightarrow> size_t \<Rightarrow> u32 \<Rightarrow> ('e sys, u32) state" where
  "rx_loop dk buf len off records =
     (case smsc95xx_rx_next buf (ucast len) off of
        None \<Rightarrow> return records
      | Some r \<Rightarrow> do {
          go \<leftarrow> rx_record_body dk buf r;
          if go then rx_loop dk buf len (rx_offset r) (records + 1) else return (records + 1)
        })"
  by pat_completeness auto

termination
  by (relation "measure (\<lambda>(dk, buf, len, off, n). walk_measure len off)")
    (auto intro: rx_next_progress)

declare rx_loop.simps [simp del]

section \<open>The completion\<close>

text \<open>The body behind the guards; \<open>buf\<close> is \<open>rxBytes\<close> and \<open>pipe\<close> is \<open>pipeIn\<close>.\<close>

definition rx_transfer ::
    "'e dk \<Rightarrow> u8 list \<Rightarrow> obj option \<Rightarrow> kern_return \<Rightarrow> u32 \<Rightarrow> ('e sys, unit) state" where
  "rx_transfer dk buf pipe status actualByteCount =
     (if status \<noteq> kIOReturnSuccess then do {
        incr rxCompletionErrors_update 1;
        whenever (status = kUSBHostReturnPipeStalled)
          (deref pipe () (\<lambda>p. do {
            ext_log (dk_ClearStall dk p) (StallCleared p); skip }));
        rearmRxRead dk False
      } else do {
        incr rxByteCount_update (ucast actualByteCount);
        if actualByteCount = 0 then do {
          incr rxZeroLength_update 1;
          rearmRxRead dk False
        } else do {
          records \<leftarrow> rx_loop dk buf actualByteCount 0 0;
          whenever (records = 0) (incr rxZeroRecords_update 1);
          rearmRxRead dk True
        }
      })"

definition RxComplete :: "'e dk \<Rightarrow> kern_return \<Rightarrow> u32 \<Rightarrow> ('e sys, unit) state" where
  "RxComplete dk status actualByteCount = do {
     emit (RxCompleted status actualByteCount);
     assign rxArmed_update False;
     incr rxCompletions_update 1;
     assign inRxComplete_update True;
     s \<leftarrow> gets id;
     (if status = kIOReturnAborted \<and> \<not> rxRunning s then skip
      else if \<not> rxRunning s then skip
      else case (rxBytes s, pool s, rxComplete s) of
        (Some buf, Some _, Some _) \<Rightarrow> rx_transfer dk buf (pipeIn s) status actualByteCount
      | _ \<Rightarrow> skip);
     assign inRxComplete_update False
   }"

section \<open>The receive path keeps the invariant\<close>

text \<open>The packet queues and the pool a record needs, and nothing else of the datapath.\<close>

definition rx_part :: "bool \<Rightarrow> pkt option \<Rightarrow> 'e sys \<Rightarrow> bool" where
  "rx_part d h s \<longleftrightarrow> tx_inv None s \<and> rx_inv d h s \<and> mem_inv s \<and> pool s \<noteq> None \<and> rxComplete s \<noteq> None"

lemma armRxRead_keeps: "keeps (drv_inv h) (armRxRead dk)"
proof (rule keepsI, rule wp_exec)
  fix s :: "'a sys" assume "drv_inv h s"
  then show "wp (armRxRead dk) (\<lambda>_. drv_inv h) s"
    by (auto simp: armRxRead_def wp_simps drv_inv_def inv_defs kIOReturnSuccess_def
      split: option.splits prod.splits)
qed

lemma rearmRxRead_keeps: "keeps (drv_inv h) (rearmRxRead dk b)"
  unfolding rearmRxRead_def Let_def
  by (intro keeps_intros armRxRead_keeps; simp)

lemma RxBackoffExpired_keeps: "keeps (drv_inv h) (RxBackoffExpired dk)"
  unfolding RxBackoffExpired_def
  by (intro keeps_intros armRxRead_keeps; simp)

lemma wp_rxAcquirePacket:
  assumes "rx_part True None s"
  shows "wp (rxAcquirePacket dk) (\<lambda>(p, b). rx_part True p) s"
  using assms
  by (auto simp: rxAcquirePacket_def rxPoolPacket_def wp_simps rx_part_def inv_defs split: option.splits prod.splits)

lemma wp_deallocate:
  assumes "rx_part d (Some k) s"
  shows "wp (deallocate dk k) (\<lambda>_. rx_part d None) s"
  using assms
  by (auto simp: deallocate_def wp_simps rx_part_def inv_defs split: option.splits prod.splits)

lemma wp_drop_record:
  assumes "rx_part True h s"
  shows "wp (drop_record rxDropErrSum_update) (\<lambda>_. rx_part False h) s"
    and "wp (drop_record rxDropShort_update) (\<lambda>_. rx_part False h) s"
    and "wp (drop_record rxDropOversize_update) (\<lambda>_. rx_part False h) s"
    and "wp (drop_record rxDropNoBuffer_update) (\<lambda>_. rx_part False h) s"
    and "wp (drop_record rxDropBadAddr_update) (\<lambda>_. rx_part False h) s"
    and "wp (drop_record rxDropBadFit_update) (\<lambda>_. rx_part False h) s"
    and "wp (drop_record rxDropSetLen_update) (\<lambda>_. rx_part False h) s"
  using assms unfolding drop_record_def wp_simps rx_part_def
  by (simp_all add: rx_inv_def algebra_simps)

lemma wp_deliver:
  assumes "rx_part True (Some k) s"
  shows "wp (deliverPacket dk k) (\<lambda>ok. wp (if ok then incr rxFrames_update 1
      else drop_record rxDropEnqueue_update) (\<lambda>_. rx_part False None)) s"
  using assms
  by (auto simp: deliverPacket_def deallocate_def drop_record_def wp_simps rx_part_def inv_defs kIOReturnSuccess_def
    split: option.splits prod.splits)

lemma rx_part_env [simp]: "rx_part d h (s\<lparr>env := e\<rparr>) = rx_part d h s"
  by (simp add: rx_part_def)

lemma rx_part_log:
  "neutral c \<Longrightarrow> call_ok c \<Longrightarrow> rx_part d h (s\<lparr>env := e, calls := calls s @ [c]\<rparr>) = rx_part d h s"
  by (simp add: rx_part_def inv_log)

lemma wp_rx_ext:
  assumes "rx_part d h s" and "\<And>a t. rx_part d h t \<Longrightarrow> wp (f a) Q t"
  shows "wp (do { x \<leftarrow> ext m; f x }) Q s"
  using assms by (auto simp: wp_simps split: prod.split)

lemma wp_rx_log:
  assumes "rx_part d h s" and "\<And>a. neutral (c a)" and "\<And>a. call_ok (c a)"
    and "\<And>a t. rx_part d h t \<Longrightarrow> wp (f a) Q t"
  shows "wp (do { x \<leftarrow> ext_log m c; f x }) Q s"
  using assms by (auto simp: wp_simps rx_part_log split: prod.split)

lemma wp_rx_unfilled:
  assumes "rx_part True (Some k) s"
  shows "wp (rx_unfilled dk k) (\<lambda>_. rx_part False None) s"
proof -
  have lost: "rx_part d h (rxLost_update f v) = rx_part d h v" for d h f and v :: "'a sys"
    by (simp add: rx_part_def)
  have dealloc: "wp (deallocate dk k) (\<lambda>dret. wp (do {
      whenever (dret \<noteq> kIOReturnSuccess) (incr rxLost_update 1); return True })
      (\<lambda>_. rx_part False None)) v" if "rx_part False (Some k) v" for v
    by (rule wp_mono [OF wp_deallocate [OF that]]) (simp add: wp_simps lost)
  show ?thesis
    unfolding rx_unfilled_def wp_bind [of "drop_record rxDropSetLen_update"]
    by (rule wp_mono [OF wp_drop_record(7) [OF assms]], unfold wp_bind [of "deallocate dk k"], rule dealloc)
qed

lemma wp_rx_deliver:
  assumes "rx_part True (Some k) s"
  shows "wp (rx_deliver dk k) (\<lambda>_. rx_part False None) s"
  unfolding rx_deliver_def wp_bind
  by (rule wp_mono [OF wp_deliver [OF assms]], erule wp_mono) (simp add: wp_simps)

text \<open>Writing an accepted payload into a packet and handing it over.\<close>

lemma wp_rx_fill:
  assumes part: "rx_part True (Some k) s" and base: "\<not> base < LOWEST_MAPPED"
    and fit: "\<not> POOL_BUFFER_SIZE < dataOff + payloadLen" and len: "\<not> RX_MAX_PAYLOAD < payloadLen"
    and payload: "length payload \<le> unat payloadLen"
  shows "wp (rx_fill dk k base dataOff payloadLen payload) (\<lambda>_. rx_part False None) s"
  unfolding rx_fill_def
proof (rule wp_rx_log [OF part])
  have small: "unat payloadLen \<le> 1518" using len by (simp add: RX_MAX_PAYLOAD_def word_less_nat_alt)
  show "call_ok (CopyIn base dataOff payload)"
    using base small payload fits_packetI [OF fit small payload]
    by (simp add: call_ok_def LOWEST_MAPPED_def not_less)
  fix t :: "'a sys" assume t: "rx_part True (Some k) t"
  show "wp (do {
      sret \<leftarrow> ext_log (dk_setDataLength dk k (ucast payloadLen)) (SetLength k (ucast payloadLen));
      if sret \<noteq> kIOReturnSuccess then rx_unfilled dk k else rx_deliver dk k
    }) (\<lambda>_. rx_part False None) t"
    by (rule wp_rx_log [OF t]) (simp_all add: wp_rx_unfilled wp_rx_deliver)
qed simp

lemma wp_rx_refuse:
  assumes "rx_part True (Some k) s"
  shows "wp (do { drop_record rxDropBadAddr_update; deallocate dk k; return b }) (\<lambda>_. rx_part False None) s"
    and "wp (do { drop_record rxDropBadFit_update; deallocate dk k; return b }) (\<lambda>_. rx_part False None) s"
proof -
  have d: "wp (do { deallocate dk k; return b }) (\<lambda>_. rx_part False None) t"
    if "rx_part False (Some k) t" for t
    unfolding wp_bind by (rule wp_mono [OF wp_deallocate [OF that]]) (simp add: wp_simps)
  show "wp (do { drop_record rxDropBadAddr_update; deallocate dk k; return b }) (\<lambda>_. rx_part False None) s"
    unfolding wp_bind [of "drop_record x" for x]
    by (rule wp_mono [OF wp_drop_record(5) [OF assms]]) (rule d)
  show "wp (do { drop_record rxDropBadFit_update; deallocate dk k; return b }) (\<lambda>_. rx_part False None) s"
    unfolding wp_bind [of "drop_record x" for x]
    by (rule wp_mono [OF wp_drop_record(6) [OF assms]]) (rule d)
qed

lemma wp_rx_into_packet:
  assumes "rx_part True (Some k) s" and "\<not> RX_MAX_PAYLOAD < payloadLen"
  shows "wp (rx_into_packet dk buf r payloadLen k) (\<lambda>_. rx_part False None) s"
  unfolding rx_into_packet_def
proof (intro wp_rx_ext [OF assms(1)] wp_rx_ext, assumption)
  fix off base and t :: "'a sys"
  assume t: "rx_part True (Some k) t"
  show "wp (if base < LOWEST_MAPPED then do {
       drop_record rxDropBadAddr_update; deallocate dk k; return False
     } else if POOL_BUFFER_SIZE < off + payloadLen then do {
       drop_record rxDropBadFit_update; deallocate dk k; return True
     } else rx_fill dk k base off payloadLen (slice (unat (rx_frame r)) (unat payloadLen) buf))
     (\<lambda>_. rx_part False None) t"
    by (simp add: wp_rx_refuse [OF t] wp_rx_fill [OF t _ _ assms(2)] slice_def)
qed

lemma wp_rx_record_body:
  assumes "rx_part False None s"
  shows "wp (rx_record_body dk buf r) (\<lambda>_. rx_part False None) s"
proof -
  let ?s = "rxRecords_update (\<lambda>n. n + 1) s"
  have s: "rx_part True None ?s" using assms by (simp add: rx_part_def rx_inv_def)
  note drops = wp_drop_record [OF s, THEN wp_mono]
  have acquired: "wp (case x of (packet, fromSubmitQueue) \<Rightarrow> (case packet of
        None \<Rightarrow> do { drop_record rxDropNoBuffer_update; return False }
      | Some packet \<Rightarrow> rx_into_packet dk buf r (rx_frame_len r - RX_CRC_LEN) packet))
      (\<lambda>_. rx_part False None) t"
    if "case x of (p, b) \<Rightarrow> rx_part True p t" "\<not> RX_MAX_PAYLOAD < rx_frame_len r - RX_CRC_LEN"
    for x and t :: "'a sys"
    using that wp_rx_into_packet [OF _ that(2)]
      wp_drop_record(4) [of None t, THEN wp_mono]
    by (auto simp: wp_bind wp_return split: prod.splits option.splits)
  have acq: "wp (rxAcquirePacket dk) (\<lambda>x. wp (case x of (packet, fromSubmitQueue) \<Rightarrow> (case packet of
        None \<Rightarrow> do { drop_record rxDropNoBuffer_update; return False }
      | Some packet \<Rightarrow> rx_into_packet dk buf r (rx_frame_len r - RX_CRC_LEN) packet))
      (\<lambda>_. rx_part False None)) ?s" if "\<not> RX_MAX_PAYLOAD < rx_frame_len r - RX_CRC_LEN"
    by (rule wp_mono [OF wp_rxAcquirePacket [OF s]]) (rule acquired [OF _ that], simp split: prod.splits)
  show ?thesis
    unfolding rx_record_body_def Let_def
    using drops(1-3) acq
    by (simp add: wp_bind [of "incr x y" for x y] wp_bind [of "drop_record x" for x]
        wp_bind [of "rxAcquirePacket dk"] wp_incr wp_return)
qed

lemma wp_rx_loop:
  "rx_part False None s \<Longrightarrow> wp (rx_loop dk buf len off n) (\<lambda>_. rx_part False None) s"
proof (induction dk buf len off n arbitrary: s rule: rx_loop.induct)
  case (1 dk buf len off n)
  show ?case
  proof (cases "smsc95xx_rx_next buf (ucast len) off")
    case None
    then show ?thesis using 1 by (subst rx_loop.simps) (simp add: wp_simps)
  next
    case (Some r)
    show ?thesis
      by (subst rx_loop.simps)
        (auto simp: Some wp_bind wp_return intro!: wp_mono [OF wp_rx_record_body [OF 1(2)]] 1(1) [OF Some])
  qed
qed

lemma rx_part_drv: "rx_part False None s \<Longrightarrow> drv_inv None s"
  by (simp add: rx_part_def drv_inv_def)

lemma rx_transfer_keeps:
  assumes "rx_part False None s" and "pipe \<noteq> None"
  shows "wp (rx_transfer dk buf pipe status n) (\<lambda>_. drv_inv None) s"
proof (cases "status = kIOReturnSuccess \<and> n \<noteq> 0")
  case True
  have s: "rx_part False None (rxByteCount_update (\<lambda>m. m + ucast n) s)"
    using assms(1) by (simp add: rx_part_def)
  have carried: "keeps (drv_inv None) (do {
      whenever (records = 0) (incr rxZeroRecords_update 1); rearmRxRead dk True })" for records :: u32
    by (intro keeps_intros rearmRxRead_keeps; simp)
  show ?thesis
    using True unfolding rx_transfer_def
    by (auto simp: wp_bind [of "incr x y" for x y] wp_incr wp_bind [of "rx_loop dk buf n 0 0"]
      intro!: wp_mono [OF wp_rx_loop [OF s]] keeps_wp [OF carried] rx_part_drv)
next
  case False
  obtain p where pipe: "pipe = Some p" using assms(2) by blast
  have err: "keeps (drv_inv None) (do {
      incr rxCompletionErrors_update 1;
      whenever b (do { ext_log (dk_ClearStall dk p) (StallCleared p); skip });
      rearmRxRead dk False })" for b
    by (intro keeps_intros rearmRxRead_keeps; simp)
  have empty: "keeps (drv_inv None) (do {
      incr rxByteCount_update k; incr rxZeroLength_update 1; rearmRxRead dk False })" for k
    by (intro keeps_intros rearmRxRead_keeps; simp)
  have "keeps (drv_inv None) (rx_transfer dk buf pipe status n)"
    using False err empty unfolding rx_transfer_def deref_def pipe by auto
  then show ?thesis using rx_part_drv [OF assms(1)] by (rule keeps_wp)
qed

lemma RxComplete_keeps: "keeps (drv_inv None) (RxComplete dk status n)"
proof (rule keepsI, rule wp_exec)
  fix s :: "'a sys"
  assume inv: "drv_inv None s"
  let ?s = "inRxComplete_update (\<lambda>_. True) (rxCompletions_update (\<lambda>n. n + 1)
      (rxArmed_update (\<lambda>_. False) (s\<lparr>calls := calls s @ [RxCompleted status n]\<rparr>)))"
  have s: "drv_inv None ?s" using inv by (auto simp: drv_inv_def inv_defs)
  have body: "wp (rx_transfer dk buf (pipeIn ?s) status n) (\<lambda>_. drv_inv None) ?s"
    if "rxBytes ?s = Some buf" "pool ?s \<noteq> None" "rxComplete ?s \<noteq> None" for buf
    using s that by (intro rx_transfer_keeps) (auto simp: rx_part_def drv_inv_def mem_inv_def)
  have full: "wp (rx_transfer dk buf (pipeIn ?s) status n)
      (\<lambda>_. wp (assign inRxComplete_update False) (\<lambda>_. drv_inv None)) ?s"
    if "rxBytes ?s = Some buf" "pool ?s \<noteq> None" "rxComplete ?s \<noteq> None" for buf
    by (rule wp_mono [OF body [OF that]]) (simp add: wp_assign)
  show "wp (RxComplete dk status n) (\<lambda>_. drv_inv None) s"
    unfolding RxComplete_def
    using s full by (auto simp: wp_simps split: option.split)
qed

end
