(* ===== verification/Transmit.thy ===== *)
theory Transmit
  imports Control
begin

text \<open>
  The transmit half of \<open>SMSC95xxDriver_datapath.cpp\<close>: returning a packet, framing and submitting
  one, the drain loop and the two entry points \<open>TxDataAvailable\<close> and \<open>TxComplete\<close>.
\<close>

section \<open>Constants\<close>

definition TX_MAX_FRAME :: u32 where "TX_MAX_FRAME = 1518"
definition TX_BUFFER_LEN :: size_t where "TX_BUFFER_LEN = TX_HEADER_LEN + ucast TX_MAX_FRAME"

section \<open>One packet\<close>

definition txReturnPacket :: "'e dk \<Rightarrow> pkt option \<Rightarrow> ('e sys, unit) state" where
  "txReturnPacket dk packet =
     (case packet of
        None \<Rightarrow> skip
      | Some k \<Rightarrow> do {
          q \<leftarrow> gets txComplete;
          (case q of
             None \<Rightarrow> incr txLost_update 1
           | Some q \<Rightarrow> do {
               ret \<leftarrow> ext_log (dk_enqueuePackets dk q k) (TxEnqueued k);
               if ret \<noteq> kIOReturnSuccess then incr txLost_update 1
               else incr txReturned_update 1
             })
        })"

definition reject_packet :: "kern_return \<Rightarrow> ('e sys, kern_return) state" where
  "reject_packet ret = do { incr txRejected_update 1; return ret }"

text \<open>The transfer, once the frame is in the scratch buffer.\<close>

definition tx_submit_transfer ::
    "'e dk \<Rightarrow> pkt \<Rightarrow> obj \<Rightarrow> obj \<Rightarrow> obj \<Rightarrow> u8 list \<Rightarrow> u32 \<Rightarrow> ('e sys, kern_return) state" where
  "tx_submit_transfer dk packet pipe buffer action bytes xferLen = do {
     assign txInFlight_update True;
     assign txPacket_update (Some packet);
     ret \<leftarrow> ext_log (dk_AsyncIO dk pipe buffer bytes xferLen action)
       (SubmitOut pipe (take (unat xferLen) bytes));
     if ret \<noteq> kIOReturnSuccess then do {
       assign txInFlight_update False;
       assign txPacket_update None;
       incr txSubmitFailures_update 1;
       return ret
     } else do {
       incr txSubmitted_update 1;
       return kIOReturnSuccess
     }
   }"

definition txSubmitPacket :: "'e dk \<Rightarrow> pkt \<Rightarrow> ('e sys, kern_return) state" where
  "txSubmitPacket dk packet = do {
     frameLen \<leftarrow> ext (dk_getDataLength dk packet);
     dataOff \<leftarrow> ext (dk_getDataOff dk packet);
     base \<leftarrow> ext (dk_getDataVirtualAddress dk packet);
     let frameAt = base + dataOff;
     if frameLen = 0 \<or> TX_MAX_FRAME < frameLen then reject_packet kIOReturnBadArgument
     else do {
       s \<leftarrow> gets id;
       (case (txBytes s, txBuffer s, pipeOut s, txAction s) of
          (Some bytes, Some buffer, Some pipe, Some action) \<Rightarrow> do {
            let (hdrLen, bytes) = smsc95xx_tx_prepend bytes TX_BUFFER_LEN (ucast frameLen);
            assign txBytes_update (Some bytes);
            if hdrLen \<noteq> TX_HEADER_LEN then reject_packet kIOReturnBadArgument
            else if frameAt < LOWEST_MAPPED
                \<or> POOL_BUFFER_SIZE < dataOff + ucast frameLen then
              reject_packet kIOReturnBadArgument
            else do {
              frame \<leftarrow> ext_log (dk_peek dk frameAt (unat frameLen))
                (\<lambda>_. CopyOut base dataOff (unat frameLen));
              let bytes = overlay bytes (unat hdrLen) frame;
              assign txBytes_update (Some bytes);
              tx_submit_transfer dk packet pipe buffer action bytes
                (ucast (hdrLen + ucast frameLen))
            }
          }
        | _ \<Rightarrow> reject_packet kIOReturnNotAttached)
     }
   }"

section \<open>The drain loop\<close>

text \<open>How one pass of the loop ended: a \<open>break\<close>, a packet in flight, or a packet given back.\<close>

datatype drain_outcome = Drained | Sent | Refused

definition tx_drain_body :: "'e dk \<Rightarrow> ('e sys, drain_outcome) state" where
  "tx_drain_body dk = do {
     q \<leftarrow> gets txSubmit;
     (n, packet) \<leftarrow> deref q (0, None) (\<lambda>q. ext (dk_DequeuePackets dk q));
     if n = 0 then return Drained
     else (case packet of
       None \<Rightarrow> do { incr txErrors_update 1; return Drained }
     | Some k \<Rightarrow> do {
         emit (TxDequeued k);
         incr txDequeued_update 1;
         sret \<leftarrow> txSubmitPacket dk k;
         if sret = kIOReturnSuccess then return Sent
         else do { txReturnPacket dk (Some k); return Refused }
       })
   }"

text \<open>
  \<open>while (!ivars->txInFlight)\<close>, with the count of packets sent. Nothing in the code bounds it, so
  it may have no result: \<open>None\<close>.
\<close>

partial_function (option) tx_drain_loop :: "'e dk \<Rightarrow> u32 \<Rightarrow> 'e sys \<Rightarrow> (u32 \<times> 'e sys) option" where
  "tx_drain_loop dk sent s =
     (if txInFlight s then Some (sent, s)
      else case run_state (tx_drain_body dk) s of
        (Drained, s') \<Rightarrow> Some (sent, s')
      | (Sent, s') \<Rightarrow> tx_drain_loop dk (sent + 1) s'
      | (Refused, s') \<Rightarrow> tx_drain_loop dk sent s')"

declare tx_drain_loop.simps [code]

definition txDrainSubmission :: "'e dk \<Rightarrow> ('e sys, unit) state" where
  "txDrainSubmission dk = do {
     incr txDrains_update 1;
     s \<leftarrow> gets id;
     if txSubmit s = None \<or> txComplete s = None then skip
     else if \<not> txDatapathReady s then skip
     else do {
       sent \<leftarrow> State (\<lambda>s. case tx_drain_loop dk 0 s of
                 None \<Rightarrow> (None, s\<lparr>calls := calls s @ [Diverged]\<rparr>)
               | Some (sent, s) \<Rightarrow> (Some sent, s));
       inFlight \<leftarrow> gets txInFlight;
       whenever (inFlight \<and> sent = Some 0) (incr txDeferred_update 1)
     }
   }"

section \<open>The entry points\<close>

definition TxDataAvailable :: "'e dk \<Rightarrow> ('e sys, unit) state" where
  "TxDataAvailable dk = do {
     incr txDoorbells_update 1;
     assign inTxDataAvailable_update True;
     s \<leftarrow> gets id;
     if txSubmit s = None \<or> txComplete s = None then assign inTxDataAvailable_update False
     else do {
       txDrainSubmission dk;
       assign inTxDataAvailable_update False
     }
   }"

definition TxComplete :: "'e dk \<Rightarrow> kern_return \<Rightarrow> u32 \<Rightarrow> ('e sys, unit) state" where
  "TxComplete dk status actualByteCount = do {
     emit (TxCompleted status actualByteCount);
     packet \<leftarrow> gets txPacket;
     assign txPacket_update None;
     assign txInFlight_update False;
     incr txCompletions_update 1;
     assign inTxComplete_update True;
     (if status = kIOReturnSuccess then do {
        incr txFrames_update 1;
        incr txBytesSent_update (ucast actualByteCount)
      } else if status = kIOReturnAborted then incr txAborted_update 1
      else do {
        incr txErrors_update 1;
        (if status = kUSBHostReturnPipeStalled then do {
           pipe \<leftarrow> gets pipeOut;
           (case pipe of
              Some p \<Rightarrow> do {
                ext_log (dk_ClearStall dk p) (StallCleared p);
                incr txStalls_update 1
              }
            | None \<Rightarrow> skip)
         } else skip)
      });
     txReturnPacket dk packet;
     txDrainSubmission dk;
     assign inTxComplete_update False
   }"

section \<open>The transmit path keeps the invariant\<close>

lemma wp_txReturnPacket:
  assumes "drv_inv h s" and "h \<noteq> None \<Longrightarrow> txComplete s \<noteq> None"
  shows "wp (txReturnPacket dk h) (\<lambda>_ t. drv_inv None t \<and> txInFlight t = txInFlight s
     \<and> (tx_ready s \<longrightarrow> tx_ready t)) s"
  using assms
  by (auto simp: txReturnPacket_def wp_simps drv_inv_def inv_defs tx_ready_def split: option.splits prod.splits)

lemma wp_tx_submit_transfer:
  assumes "drv_inv (Some k) s" and "tx_ready s" and "\<not> txInFlight s"
  shows "wp (tx_submit_transfer dk k pipe buffer action bytes n)
    (\<lambda>ret t. tx_ready t \<and> (if ret = kIOReturnSuccess then drv_inv None t \<and> txInFlight t
        else drv_inv (Some k) t \<and> \<not> txInFlight t)) s"
  using assms
  by (auto simp: tx_submit_transfer_def wp_simps drv_inv_def inv_defs tx_ready_def kIOReturnSuccess_def
      split: option.splits prod.splits)

lemma length_overlay_ge: "i \<le> length b \<Longrightarrow> length b \<le> length (overlay b i xs)"
  by (simp add: overlay_def)

lemma tx_prepend_accepts:
  assumes "smsc95xx_tx_prepend bytes TX_BUFFER_LEN (ucast frameLen) = (hdrLen, bytes')"
    and "1526 \<le> length bytes" and "hdrLen = TX_HEADER_LEN"
  shows "42 \<le> unat (frameLen :: u32)" and "unat frameLen \<le> 1514"
    and "bytes' = tx_header (ucast frameLen) @ drop 8 bytes"
  using assms tx_prepend_result [of TX_BUFFER_LEN bytes "ucast frameLen"]
  by (auto simp: TX_BUFFER_LEN_def TX_HEADER_LEN_def TX_MAX_FRAME_def unat_ucast_up split: if_splits)

lemma tx_prepend_length:
  assumes "smsc95xx_tx_prepend bytes TX_BUFFER_LEN (ucast (frameLen :: u32)) = (hdrLen, bytes')"
    and "1526 \<le> length bytes"
  shows "length bytes' = length bytes"
  using assms tx_prepend_result [of TX_BUFFER_LEN bytes "ucast frameLen"]
  by (auto simp: TX_BUFFER_LEN_def TX_HEADER_LEN_def TX_MAX_FRAME_def split: if_splits)

definition tx_submit_post :: "pkt \<Rightarrow> kern_return \<Rightarrow> 'e sys \<Rightarrow> bool" where
  "tx_submit_post k ret t \<longleftrightarrow> tx_ready t \<and>
     (if ret = kIOReturnSuccess then drv_inv None t \<and> txInFlight t
      else drv_inv (Some k) t \<and> \<not> txInFlight t)"

lemma wp_reject_packet:
  assumes "drv_inv (Some k) s" and "tx_ready s" and "\<not> txInFlight s" and "ret \<noteq> kIOReturnSuccess"
  shows "wp (reject_packet ret) (tx_submit_post k) s"
  using assms by (simp add: reject_packet_def wp_simps tx_submit_post_def drv_inv_def)

text \<open>The two ways out of \<open>txSubmitPacket\<close> once the command header has been written.\<close>

lemma wp_reject_framed:
  assumes "drv_inv (Some k) s" and "tx_ready s" and "\<not> txInFlight s" and "txBytes s = Some bytes"
    and "smsc95xx_tx_prepend bytes TX_BUFFER_LEN (ucast (frameLen :: u32)) = (hdrLen, bytes')"
  shows "wp (reject_packet kIOReturnBadArgument) (tx_submit_post k) (s\<lparr>env := e, txBytes := Some bytes'\<rparr>)"
proof (rule wp_reject_packet)
  show "drv_inv (Some k) (s\<lparr>env := e, txBytes := Some bytes'\<rparr>)"
    using assms tx_prepend_length [OF assms(5)] by (simp add: drv_inv_def mem_inv_def)
  show "kIOReturnBadArgument \<noteq> kIOReturnSuccess" by (simp add: ioreturn_defs)
qed (use assms in simp_all)

lemma wp_submit_framed:
  assumes "drv_inv (Some k) s" and "tx_ready s" and "\<not> txInFlight s" and "txBytes s = Some bytes"
    and pre: "smsc95xx_tx_prepend bytes TX_BUFFER_LEN (ucast (frameLen :: u32)) = (TX_HEADER_LEN, bytes')"
    and addr: "\<not> base + off < LOWEST_MAPPED" and fit: "\<not> POOL_BUFFER_SIZE < off + ucast frameLen"
  shows "wp (tx_submit_transfer dk k pipe buffer action bytes'' n) (tx_submit_post k)
    (s\<lparr>env := e, calls := calls s @ [CopyOut base off (unat frameLen)],
       txBytes := Some (overlay bytes' (unat TX_HEADER_LEN) frame)\<rparr>)"
    (is "wp _ _ ?s")
proof -
  have len: "1526 \<le> length bytes" using assms by (simp add: drv_inv_def mem_inv_def)
  note acc = tx_prepend_accepts [OF pre len refl]
  have "call_ok (CopyOut base off (unat frameLen))"
    using acc(2) addr fits_packetI [OF fit, of "unat frameLen"]
    by (simp add: call_ok_def LOWEST_MAPPED_def unat_ucast_up not_less)
  moreover have "1526 \<le> length (overlay bytes' (unat TX_HEADER_LEN) frame)"
    using len tx_prepend_length [OF pre len] length_overlay_ge [of "unat TX_HEADER_LEN" bytes' frame]
    by (simp add: TX_HEADER_LEN_def)
  ultimately have "drv_inv (Some k) ?s"
    using assms(1) by (simp add: drv_inv_def inv_log) (simp add: mem_inv_def)
  then show ?thesis
    using assms wp_tx_submit_transfer [of k ?s dk pipe buffer action bytes'' n]
    by (simp add: tx_submit_post_def [abs_def])
qed

lemma wp_txSubmitPacket:
  assumes "drv_inv (Some k) s" and "tx_ready s" and "\<not> txInFlight s"
  shows "wp (txSubmitPacket dk k) (tx_submit_post k) s"
proof -
  have bad: "kIOReturnBadArgument \<noteq> kIOReturnSuccess" "kIOReturnNotAttached \<noteq> kIOReturnSuccess"
    by (simp_all add: ioreturn_defs)
  show ?thesis
    unfolding txSubmitPacket_def Let_def
    using assms wp_reject_framed [OF assms] wp_submit_framed [OF assms]
    by (simp add: wp_simps wp_reject_packet bad split: prod.split option.split)
qed

lemma wp_tx_drain_body:
  assumes "drv_inv None s" and "tx_ready s" and "\<not> txInFlight s"
  shows "wp (tx_drain_body dk) (\<lambda>_ t. drv_inv None t \<and> tx_ready t) s"
proof -
  have ret: "wp (txReturnPacket dk (Some k)) (\<lambda>_ t. drv_inv None t \<and> tx_ready t) t"
    if "tx_submit_post k r t" "r \<noteq> kIOReturnSuccess" for k r t
    using that by (intro wp_mono [OF wp_txReturnPacket [of "Some k"]])
      (auto simp: tx_submit_post_def tx_ready_def)
  have sub: "wp (txSubmitPacket dk k) (\<lambda>r. wp (if r = kIOReturnSuccess then return Sent
        else do { txReturnPacket dk (Some k); return Refused }) (\<lambda>_ t. drv_inv None t \<and> tx_ready t))
      (txDequeued_update (\<lambda>n. n + 1) (s\<lparr>env := e, calls := calls s @ [TxDequeued k]\<rparr>))" for k e
  proof (rule wp_mono [OF wp_txSubmitPacket])
    show "drv_inv (Some k) (txDequeued_update (\<lambda>n. n + 1)
        (s\<lparr>env := e, calls := calls s @ [TxDequeued k]\<rparr>))"
      using assms by (auto simp: drv_inv_def inv_defs)
    show "wp (if r = kIOReturnSuccess then return Sent
        else do { txReturnPacket dk (Some k); return Refused }) (\<lambda>_ t. drv_inv None t \<and> tx_ready t) t"
      if "tx_submit_post k r t" for r t
    proof (cases "r = kIOReturnSuccess")
      case False
      then show ?thesis using wp_mono [OF ret [OF that False]] by (simp add: wp_simps)
    qed (use that in \<open>simp add: wp_simps tx_submit_post_def\<close>)
  qed (use assms in \<open>simp_all add: tx_ready_def\<close>)
  show ?thesis
    unfolding tx_drain_body_def using assms sub
    by (auto simp: wp_simps drv_inv_def tx_ready_def split: prod.split option.split)
qed


lemma tx_drain_loop_keeps:
  assumes "tx_drain_loop dk sent s = Some r"
  shows "drv_inv None s \<and> tx_ready s \<longrightarrow> drv_inv None (snd r) \<and> tx_ready (snd r)"
proof (rule tx_drain_loop.raw_induct [OF _ assms])
  fix loop :: "'a dk \<Rightarrow> u32 \<Rightarrow> 'a sys \<Rightarrow> (u32 \<times> 'a sys) option" and dk sent s r
  assume IH: "\<And>dk sent s r. loop dk sent s = Some r \<Longrightarrow>
      drv_inv None s \<and> tx_ready s \<longrightarrow> drv_inv None (snd r) \<and> tx_ready (snd r)"
    and step: "(if txInFlight s then Some (sent, s)
      else case run_state (tx_drain_body dk) s of
        (Drained, s') \<Rightarrow> Some (sent, s')
      | (Sent, s') \<Rightarrow> loop dk (sent + 1) s'
      | (Refused, s') \<Rightarrow> loop dk sent s') = Some r"
  show "drv_inv None s \<and> tx_ready s \<longrightarrow> drv_inv None (snd r) \<and> tx_ready (snd r)"
  proof (cases "txInFlight s")
    case False
    obtain o' s' where b: "run_state (tx_drain_body dk) s = (o', s')" by (meson surj_pair)
    have "drv_inv None s \<and> tx_ready s \<longrightarrow> drv_inv None s' \<and> tx_ready s'"
      using wp_runD [OF wp_tx_drain_body b] False by blast
    then show ?thesis using step False IH b by (cases o') auto
  qed (use step in auto)
qed

lemma drv_inv_emitI:
  "drv_inv h s \<Longrightarrow> cs = calls s @ [c] \<Longrightarrow> neutral c \<Longrightarrow> call_ok c \<Longrightarrow> drv_inv h (s\<lparr>calls := cs\<rparr>)"
  by (simp add: drv_inv_emit)

lemma wp_txDrainSubmission:
  assumes "drv_inv None s"
  shows "wp (txDrainSubmission dk) (\<lambda>_. drv_inv None) s"
proof -
  let ?s = "txDrains_update (\<lambda>n. n + 1) s"
  have inv: "drv_inv None ?s" using assms by (simp add: drv_inv_def)
  have deferred: "drv_inv None (txDeferred_update (\<lambda>n. n + 1) t)" if "drv_inv None t" for t
    using that by (simp add: drv_inv_def)
  show ?thesis
  proof (cases "tx_ready ?s")
    case False
    then show ?thesis using inv
      by (auto simp: txDrainSubmission_def wp_simps tx_ready_def)
  next
    case True
    show ?thesis
    proof (cases "tx_drain_loop dk 0 ?s")
      case None
      then show ?thesis using inv True
        by (auto simp: txDrainSubmission_def wp_simps tx_ready_def wp_def intro: drv_inv_emitI)
    next
      case (Some r)
      then have "drv_inv None (snd r)" using tx_drain_loop_keeps [OF Some] inv True by simp
      then show ?thesis using Some True deferred
        by (auto simp: txDrainSubmission_def wp_simps tx_ready_def wp_def split: prod.split)
    qed
  qed
qed

lemma TxDataAvailable_keeps: "keeps (drv_inv None) (TxDataAvailable dk)"
proof (rule keepsI)
  fix s :: "'a sys"
  assume inv: "drv_inv None s"
  let ?s = "inTxDataAvailable_update (\<lambda>_. True) (txDoorbells_update (\<lambda>n. n + 1) s)"
  have s: "drv_inv None ?s" using inv by (simp add: drv_inv_def)
  have "wp (TxDataAvailable dk) (\<lambda>_. drv_inv None) s"
    using wp_mono [OF wp_txDrainSubmission [OF s]] s
    by (simp add: TxDataAvailable_def wp_simps)
  then show "drv_inv None (exec_state (TxDataAvailable dk) s)" by (rule wp_exec)
qed

lemma TxComplete_status_keeps:
  "keeps (holding h)
     (if status = kIOReturnSuccess then do {
        incr txFrames_update 1;
        incr txBytesSent_update n
      } else if status = kIOReturnAborted then incr txAborted_update 1
      else do {
        incr txErrors_update 1;
        (if status = kUSBHostReturnPipeStalled then do {
           pipe \<leftarrow> gets pipeOut;
           (case pipe of
              Some p \<Rightarrow> do {
                ext_log (dk_ClearStall dk p) (StallCleared p);
                incr txStalls_update 1
              }
            | None \<Rightarrow> skip)
         } else skip)
      })"
  by (rule keeps_holding)
    (intro keeps_intros keeps_log; simp add: drv_inv_def)+

lemma wp_return_and_drain:
  assumes "holding h s"
  shows "wp (do { txReturnPacket dk h; txDrainSubmission dk; assign inTxComplete_update False })
    (\<lambda>_. drv_inv None) s"
  unfolding wp_bind
proof (rule wp_mono [OF wp_txReturnPacket])
  fix t :: "'a sys"
  assume "drv_inv None t \<and> txInFlight t = txInFlight s \<and> (tx_ready s \<longrightarrow> tx_ready t)"
  then show "wp (txDrainSubmission dk) (\<lambda>_. wp (assign inTxComplete_update False) (\<lambda>_. drv_inv None)) t"
    by (intro wp_mono [OF wp_txDrainSubmission]) (simp_all add: wp_simps)
qed (use assms in \<open>auto simp: holding_def\<close>)

lemma TxComplete_keeps: "keeps (drv_inv None) (TxComplete dk status n)"
proof (rule keepsI, rule wp_exec)
  fix s :: "'a sys"
  assume inv: "drv_inv None s"
  let ?s = "inTxComplete_update (\<lambda>_. True) (txCompletions_update (\<lambda>n. n + 1)
    (txInFlight_update (\<lambda>_. False) (txPacket_update (\<lambda>_. None)
      (s\<lparr>calls := calls s @ [TxCompleted status n]\<rparr>))))"
  have h: "holding (txPacket s) ?s"
    using inv by (auto simp: holding_def drv_inv_def inv_defs split: option.splits)
  show "wp (TxComplete dk status n) (\<lambda>_. drv_inv None) s"
    unfolding TxComplete_def
    apply (simp only: wp_bind wp_emit wp_gets wp_assign wp_incr)
    apply (rule wp_mono [OF keeps_wp [OF TxComplete_status_keeps h]])
    apply simp
    apply (rule wp_return_and_drain)
    apply assumption
    done
qed

end
