(* ===== verification/Datapath.thy ===== *)
theory Datapath
  imports Receive Transmit
begin

text \<open>
  Setting the datapath up, quiescing it and releasing it (\<open>SMSC95xxDriver_datapath.cpp\<close>). Setting
  up is a chain of acquisitions that stops at the first failure; \<open>check\<close> is one link of it.
\<close>

section \<open>Setup\<close>

definition EP_BULK_IN :: u8 where "EP_BULK_IN = 0x81"
definition EP_BULK_OUT :: u8 where "EP_BULK_OUT = 0x02"

text \<open>\<open>ret = m; if (ret != kIOReturnSuccess) return ret; ...\<close>\<close>

definition check :: "('s, kern_return) state \<Rightarrow> ('s, kern_return) state \<Rightarrow> ('s, kern_return) state" where
  "check m k = do { ret \<leftarrow> m; if ret \<noteq> kIOReturnSuccess then return ret else k }"

text \<open>
  The status, the descriptor left in \<open>*buf\<close>, and the mapped bytes; the bytes are stored only where
  the status is success.
\<close>

definition allocBuffer ::
    "'e dk \<Rightarrow> u64 \<Rightarrow> ((obj option \<Rightarrow> obj option) \<Rightarrow> 'e sys \<Rightarrow> 'e sys) \<Rightarrow> ('e sys \<Rightarrow> obj option)
     \<Rightarrow> ((u8 list option \<Rightarrow> u8 list option) \<Rightarrow> 'e sys \<Rightarrow> 'e sys) \<Rightarrow> ('e sys, kern_return) state" where
  "allocBuffer dk len buf_update buf bytes_update = do {
     (ret, b) \<leftarrow> ext (dk_CreateBuffer dk len);
     assign buf_update b;
     if ret \<noteq> kIOReturnSuccess then return ret
     else do {
       (ret, length, address) \<leftarrow>
         deref b (kIOReturnSuccess, 0, None) (\<lambda>b. ext (dk_GetAddressRange dk b));
       if ret \<noteq> kIOReturnSuccess then do {
         release_null dk buf buf_update;
         return ret
       } else if length < len then do {
         release_null dk buf buf_update;
         return kIOReturnNoMemory
       } else do {
         assign bytes_update address;
         return kIOReturnSuccess
       }
     }
   }"

text \<open>A \<open>Copy\<close> or \<open>Create\<close> whose success with a null object is turned into \<open>missing\<close>.\<close>

definition acquire ::
    "('e, kern_return \<times> obj option) state \<Rightarrow> ((obj option \<Rightarrow> obj option) \<Rightarrow> 'e sys \<Rightarrow> 'e sys)
     \<Rightarrow> kern_return \<Rightarrow> ('e sys, kern_return) state" where
  "acquire f upd missing = do {
     (ret, p) \<leftarrow> ext f;
     assign upd p;
     if ret \<noteq> kIOReturnSuccess \<or> p = None
     then return (if ret = kIOReturnSuccess then missing else ret)
     else return kIOReturnSuccess
   }"

text \<open>A \<open>Create\<close> whose status alone decides.\<close>

definition create ::
    "('e, kern_return \<times> obj option) state \<Rightarrow> ((obj option \<Rightarrow> obj option) \<Rightarrow> 'e sys \<Rightarrow> 'e sys)
     \<Rightarrow> ('e sys, kern_return) state" where
  "create f upd = do { (ret, p) \<leftarrow> ext f; assign upd p; return ret }"

definition copy_pipe ::
    "'e dk \<Rightarrow> u8 \<Rightarrow> ((obj option \<Rightarrow> obj option) \<Rightarrow> 'e sys \<Rightarrow> 'e sys) \<Rightarrow> ('e sys, kern_return) state" where
  "copy_pipe dk ep upd = do {
     itf \<leftarrow> gets interface;
     deref itf kIOReturnSuccess (\<lambda>i. acquire (dk_CopyPipe dk i ep) upd kIOReturnNoDevice)
   }"

definition setupDatapath :: "'e dk \<Rightarrow> ('e sys, kern_return) state" where
  "setupDatapath dk =
     check (copy_pipe dk EP_BULK_IN pipeIn_update) (
     check (copy_pipe dk EP_BULK_OUT pipeOut_update) (
     check (allocBuffer dk (ucast RX_BUFFER_LEN) rxBuffer_update rxBuffer rxBytes_update) (
     check (allocBuffer dk TX_BUFFER_LEN txBuffer_update txBuffer txBytes_update) (
     check (create (dk_CreateAction dk RxCompleteAction) rxAction_update) (
     check (create (dk_CreateAction dk TxCompleteAction) txAction_update) (
     check (do { q \<leftarrow> gets txSubmit;
                 deref q kIOReturnSuccess (\<lambda>q. acquire (dk_CopyDataQueue dk q) txDataQueue_update
                   kIOReturnNoResources) }) (
     check (create (dk_CreateAction dk TxDataAvailableAction) txDataAvailableAction_update) (
     check (do { s \<leftarrow> gets id;
                 deref (txDataQueue s) kIOReturnSuccess
                   (\<lambda>q. ext (dk_SetDataAvailableHandler dk q (txDataAvailableAction s))) }) (
     check (do { d \<leftarrow> gets dispatchQueue;
                 acquire (dk_CreateTimer dk d) rxBackoffTimer_update kIOReturnNoResources }) (
     check (create (dk_CreateAction dk RxBackoffExpiredAction) rxBackoffAction_update) (
     check (do { s \<leftarrow> gets id;
                 deref (rxBackoffTimer s) kIOReturnSuccess
                   (\<lambda>t. ext (dk_SetHandler dk t (rxBackoffAction s))) }) (
     check (do { t \<leftarrow> gets rxBackoffTimer;
                 deref t kIOReturnSuccess (\<lambda>t. ext (dk_SetEnable dk t True)) }) (do {
     assign txDatapathReady_update True;
     return kIOReturnSuccess
     })))))))))))))"

section \<open>Teardown\<close>

definition abortResultIsBenign :: "kern_return \<Rightarrow> bool" where
  "abortResultIsBenign ar \<longleftrightarrow> ar = kIOReturnSuccess
     \<or> ar = kIOReturnNoDevice \<or> ar = kIOReturnOffline \<or> ar = kIOReturnNotReady
     \<or> ar = kIOReturnNotAttached \<or> ar = kIOReturnNotResponding \<or> ar = kIOReturnAborted"

text \<open>
  \<open>pipe->Abort(kIOUSBAbortSynchronous, ...)\<close>: the outside may deliver the aborted transfer's
  completion, with its status and count, before the call returns.
\<close>

definition abort_pipe ::
    "'e dk \<Rightarrow> ('e sys \<Rightarrow> obj option) \<Rightarrow> ('e dk \<Rightarrow> kern_return \<Rightarrow> u32 \<Rightarrow> ('e sys, unit) state)
     \<Rightarrow> ('e sys, unit) state" where
  "abort_pipe dk pipe completion = do {
     p \<leftarrow> gets pipe;
     (case p of
        None \<Rightarrow> skip
      | Some p \<Rightarrow> do {
          (ar, delivered) \<leftarrow> ext_log (dk_Abort dk p) (\<lambda>(ar, _). PipeAborted p ar);
          (case delivered of
             None \<Rightarrow> skip
           | Some (status, n) \<Rightarrow> completion dk status n)
        })
   }"

definition quiesceDatapath :: "'e dk \<Rightarrow> ('e sys, unit) state" where
  "quiesceDatapath dk = do {
     assign stopping_update True;
     assign rxRunning_update False;
     assign txDatapathReady_update False;
     abort_pipe dk pipeIn RxComplete;
     abort_pipe dk pipeOut TxComplete
   }"

text \<open>A packet that is still with the device goes back to the stack.\<close>

definition return_leftover :: "'e dk \<Rightarrow> ('e sys, unit) state" where
  "return_leftover dk = do {
     packet \<leftarrow> gets txPacket;
     inFlight \<leftarrow> gets txInFlight;
     (if packet \<noteq> None then do {
        assign txPacket_update None;
        assign txInFlight_update False;
        txReturnPacket dk packet
      } else if inFlight then do {
        assign txInFlight_update False;
        incr txLost_update 1
      } else skip);
     assign rxArmed_update False
   }"

definition releaseDatapath :: "'e dk \<Rightarrow> ('e sys, unit) state" where
  "releaseDatapath dk = do {
     release_null dk rxBackoffAction rxBackoffAction_update;
     release_null dk rxBackoffTimer rxBackoffTimer_update;
     assign rxBackoffActive_update False;
     assign rxIdleRun_update 0;
     release_null dk txDataAvailableAction txDataAvailableAction_update;
     release_null dk txDataQueue txDataQueue_update;
     release_null dk rxAction rxAction_update;
     release_null dk txAction txAction_update;
     release_null dk pipeIn pipeIn_update;
     release_null dk pipeOut pipeOut_update;
     assign rxBytes_update None;
     assign txBytes_update None;
     release_null dk rxBuffer rxBuffer_update;
     release_null dk txBuffer txBuffer_update;
     return_leftover dk
   }"

section \<open>Quiescing\<close>

text \<open>What the guards of every later entry point look at once the driver is quiescing.\<close>

definition quiet :: "'e sys \<Rightarrow> bool" where
  "quiet s \<longleftrightarrow> stopping s \<and> \<not> rxRunning s \<and> \<not> txDatapathReady s"

lemma quiet_frame [simp]:
  "quiet (s\<lparr>calls := cs\<rparr>) = quiet s" "quiet (s\<lparr>env := e\<rparr>) = quiet s"
  "quiet (s\<lparr>env := e, calls := cs\<rparr>) = quiet s"
  by (simp_all add: quiet_def)

lemma abort_pipe_keeps:
  assumes "\<And>status n. keeps P (completion dk status n)"
    and "\<And>p. keeps P (ext_log (dk_Abort dk p) (\<lambda>(ar, d). PipeAborted p ar))"
  shows "keeps P (abort_pipe dk pipe completion)"
  unfolding abort_pipe_def
  by (intro keeps_intros assms)

lemma abort_log_keeps: "keeps (drv_inv h) (ext_log (dk_Abort dk p) (\<lambda>(ar, d). PipeAborted p ar))"
  by (rule keeps_drv_log) (auto split: prod.split)

lemma drv_inv_quiesced:
  "drv_inv h s \<Longrightarrow> drv_inv h (txDatapathReady_update (\<lambda>_. False)
     (rxRunning_update (\<lambda>_. False) (stopping_update (\<lambda>_. True) s)))"
  by (auto simp: drv_inv_def inv_defs)

lemma quiesceDatapath_keeps: "keeps (drv_inv None) (quiesceDatapath dk)"
proof -
  have aborts: "keeps (drv_inv None) (do { abort_pipe dk pipeIn RxComplete; abort_pipe dk pipeOut TxComplete })"
    by (intro keeps_intros abort_pipe_keeps abort_log_keeps RxComplete_keeps TxComplete_keeps)
  show ?thesis
  proof (rule keepsI, rule wp_exec)
    fix s :: "'a sys" assume "drv_inv None s"
    then show "wp (quiesceDatapath dk) (\<lambda>_. drv_inv None) s"
      unfolding quiesceDatapath_def
      by (simp add: wp_bind [of "assign x y" for x y] wp_assign keeps_wp [OF aborts] drv_inv_quiesced)
  qed
qed

section \<open>After quiescing nothing is submitted\<close>

text \<open>
  A call that hands a transfer to the device, or changes one of its registers. \<open>silent s0 s\<close>: the
  driver is quiet, and since \<open>s0\<close> has made no such call.
\<close>

fun device_call :: "call \<Rightarrow> bool" where
  "device_call (SubmitIn p n ret) = True"
| "device_call (SubmitOut p bs ret) = True"
| "device_call (RegRead reg ret v) = True"
| "device_call (RegWrite reg v ret) = True"
| "device_call _ = False"

definition silent :: "'e sys \<Rightarrow> 'e sys \<Rightarrow> bool" where
  "silent s0 s \<longleftrightarrow> quiet s \<and> filter device_call (calls s) = filter device_call (calls s0)
     \<and> rxBytes s = rxBytes s0 \<and> txBytes s = txBytes s0 \<and> (txPacket s = txPacket s0 \<or> txPacket s = None)"

lemma silent_log [keeps_intros]:
  "(\<And>a. \<not> device_call (c a)) \<Longrightarrow> keeps (silent s0) (ext_log f c)"
  by (auto simp: keeps_def ext_log_def ext_def emit_def silent_def split: prod.split)

lemma silent_ext [keeps_intros]: "keeps (silent s0) (ext f)"
  by (rule keeps_ext) (simp add: silent_def)

lemma silent_emit [keeps_intros]: "\<not> device_call c \<Longrightarrow> keeps (silent s0) (emit c)"
  by (rule keeps_emit) (simp add: silent_def)

lemma silent_deref [keeps_intros]:
  "(\<And>x. keeps (silent s0) (f x)) \<Longrightarrow> keeps (silent s0) (deref p d f)"
  unfolding deref_def by (intro keeps_intros) auto

lemma armRxRead_silent [keeps_intros]: "keeps (silent s0) (armRxRead dk)"
  by (rule keepsI, rule wp_exec) (simp add: armRxRead_def wp_simps silent_def quiet_def)

lemma rearmRxRead_silent [keeps_intros]: "keeps (silent s0) (rearmRxRead dk b)"
  unfolding rearmRxRead_def Let_def
  by (intro keeps_intros) (simp_all add: silent_def quiet_def)

lemma RxBackoffExpired_silent: "keeps (silent s0) (RxBackoffExpired dk)"
  unfolding RxBackoffExpired_def by (intro keeps_intros) (simp_all add: silent_def quiet_def)

lemma RxComplete_silent: "keeps (silent s0) (RxComplete dk status n)"
  by (rule keepsI, rule wp_exec) (simp add: RxComplete_def wp_simps silent_def quiet_def)

lemma txReturnPacket_silent: "keeps (silent s0) (txReturnPacket dk p)"
  unfolding txReturnPacket_def by (intro keeps_intros) (simp_all add: silent_def quiet_def)

lemma txDrainSubmission_silent: "keeps (silent s0) (txDrainSubmission dk)"
  by (rule keepsI, rule wp_exec) (simp add: txDrainSubmission_def wp_simps silent_def quiet_def)

lemma TxDataAvailable_silent: "keeps (silent s0) (TxDataAvailable dk)"
  unfolding TxDataAvailable_def
  by (intro keeps_intros txDrainSubmission_silent) (simp_all add: silent_def quiet_def)

lemma TxComplete_silent: "keeps (silent s0) (TxComplete dk status n)"
  unfolding TxComplete_def
  by (intro keeps_intros txReturnPacket_silent txDrainSubmission_silent)
    (simp_all add: silent_def quiet_def)

lemma quiesceDatapath_silent:
  "wp (quiesceDatapath dk) (\<lambda>_. silent s) s"
proof -
  have aborts: "keeps (silent s) (do { abort_pipe dk pipeIn RxComplete; abort_pipe dk pipeOut TxComplete })"
    by (intro keeps_intros abort_pipe_keeps RxComplete_silent TxComplete_silent silent_log)
      (auto split: prod.split)
  have "silent s (txDatapathReady_update (\<lambda>_. False)
     (rxRunning_update (\<lambda>_. False) (stopping_update (\<lambda>_. True) s)))"
    by (simp add: silent_def quiet_def)
  then show ?thesis
    unfolding quiesceDatapath_def
    by (simp add: wp_bind [of "assign x y" for x y] wp_assign keeps_wp [OF aborts])
qed

section \<open>Releasing the datapath\<close>

text \<open>The record of releasing a field: one call when it holds an object.\<close>

definition released :: "obj option \<Rightarrow> call list" where
  "released p = (case p of None \<Rightarrow> [] | Some x \<Rightarrow> [Released x])"

lemma released_neutral [simp]:
  "tally tx_taken (released p) = 0" "tally tx_given (released p) = 0"
  "tally rx_acquired (released p) = 0" "tally rx_disposed (released p) = 0"
  "tally in_accepted (released p) = 0" "tally in_completed (released p) = 0"
  "tally out_accepted (released p) = 0" "tally out_completed (released p) = 0"
  "list_all call_ok (released p)" "filter device_call (released p) = []"
  by (simp_all add: released_def split: option.split)

definition clears ::
    "('e sys \<Rightarrow> obj option) \<Rightarrow> ((obj option \<Rightarrow> obj option) \<Rightarrow> 'e sys \<Rightarrow> 'e sys) \<Rightarrow> bool" where
  "clears sel upd \<longleftrightarrow> (\<forall>s. sel s = None \<longrightarrow> upd (\<lambda>_. None) s = s)"

lemma release_null_keeps [keeps_intros]:
  assumes "\<And>s. P s \<Longrightarrow> P (upd (\<lambda>_. None) s)"
    and "\<And>x. keeps P (ext_log (dk_release dk x) (\<lambda>_. Released x))"
  shows "keeps P (release_null dk sel upd)"
  unfolding release_null_def by (intro keeps_intros assms)

lemma wp_release_null:
  assumes "clears sel upd"
    and "\<And>e. Q () (upd (\<lambda>_. None) (s\<lparr>env := e, calls := calls s @ released (sel s)\<rparr>))"
  shows "wp (release_null dk sel upd) Q s"
proof (cases "sel s")
  case None
  then show ?thesis
    using assms(1) assms(2) [of "env s"] by (simp add: clears_def release_null_def wp_simps released_def)
next
  case (Some x)
  then show ?thesis
    using assms(2) by (auto simp: release_null_def wp_simps released_def split: prod.split)
qed

lemma clears_field:
  "clears rxBackoffAction rxBackoffAction_update"
  "clears rxBackoffTimer rxBackoffTimer_update"
  "clears txDataAvailableAction txDataAvailableAction_update"
  "clears txDataQueue txDataQueue_update"
  "clears rxAction rxAction_update"
  "clears txAction txAction_update"
  "clears pipeIn pipeIn_update"
  "clears pipeOut pipeOut_update"
  "clears rxBuffer rxBuffer_update"
  "clears txBuffer txBuffer_update"
  "clears txSubmit txSubmit_update"
  "clears rxSubmit rxSubmit_update"
  "clears txComplete txComplete_update"
  "clears rxComplete rxComplete_update"
  "clears pool pool_update"
  "clears ctrlBuffer ctrlBuffer_update"
  "clears dispatchQueue dispatchQueue_update"
  by (simp_all add: clears_def)

text \<open>The objects the datapath holds, in the order it lets go of them.\<close>

definition datapath_objects :: "'e sys \<Rightarrow> obj option list" where
  "datapath_objects s = [rxBackoffAction s, rxBackoffTimer s, txDataAvailableAction s, txDataQueue s,
     rxAction s, txAction s, pipeIn s, pipeOut s, rxBuffer s, txBuffer s]"

definition is_release :: "call \<Rightarrow> bool" where
  "is_release c \<longleftrightarrow> (case c of Released x \<Rightarrow> True | _ \<Rightarrow> False)"

lemma filter_released [simp]: "filter is_release (released p) = released p"
  by (simp add: released_def is_release_def split: option.split)

definition let_go :: "'e sys \<Rightarrow> bool" where
  "let_go s \<longleftrightarrow> drv_inv None s \<and> quiet s \<and> txPacket s = None \<and> set (datapath_objects s) = {None}
     \<and> rxBytes s = None \<and> txBytes s = None"


text \<open>What releasing the datapath leaves to the rest of the driver.\<close>

definition stack_objects :: "'e sys \<Rightarrow> obj option list" where
  "stack_objects s = [txSubmit s, rxSubmit s, txComplete s, rxComplete s, pool s, interface s, ctrlBuffer s,
     dispatchQueue s]"

definition same_rest :: "'e sys \<Rightarrow> 'e sys \<Rightarrow> bool" where
  "same_rest s t \<longleftrightarrow> stack_objects t = stack_objects s \<and> interfaceOpened t = interfaceOpened s
     \<and> stopCancelsPending t = stopCancelsPending s"

lemma wp_return_leftover:
  assumes "drv_inv None s" and "quiet s" and "set (datapath_objects s) = {None}"
    and "rxBytes s = None" and "txBytes s = None"
  shows "wp (return_leftover dk) (\<lambda>_ t. let_go t \<and> same_rest s t
      \<and> filter is_release (calls t) = filter is_release (calls s)
      \<and> filter device_call (calls t) = filter device_call (calls s)) s"
proof (cases "txPacket s")
  case None
  then have "\<not> txInFlight s" using assms(1) by (simp add: drv_inv_def tx_inv_def)
  then show ?thesis
    using None assms
    by (simp add: return_leftover_def wp_simps let_go_def same_rest_def stack_objects_def datapath_objects_def)
      (simp add: drv_inv_def inv_defs quiet_def)
next
  case (Some k)
  then obtain q where q: "txComplete s = Some q" using assms(1) by (auto simp: drv_inv_def tx_inv_def)
  show ?thesis
    using assms Some q
    by (simp add: return_leftover_def txReturnPacket_def wp_simps let_go_def same_rest_def stack_objects_def
      datapath_objects_def is_release_def split: prod.split)
      (auto simp: drv_inv_def inv_defs quiet_def)
qed

definition sys_released :: "'e sys \<Rightarrow> 'e \<Rightarrow> call list \<Rightarrow> 'e sys" where
  "sys_released s e cs = s\<lparr>env := e, calls := calls s @ cs, rxBackoffAction := None, rxBackoffTimer := None,
     rxBackoffActive := False, rxIdleRun := 0, txDataAvailableAction := None, txDataQueue := None,
     rxAction := None, txAction := None, pipeIn := None, pipeOut := None, rxBytes := None,
     txBytes := None, rxBuffer := None, txBuffer := None\<rparr>"

lemma sys_released_inv:
  assumes "drv_inv None s" "quiet s" "tally tx_taken cs = 0" "tally tx_given cs = 0"
    "tally rx_acquired cs = 0" "tally rx_disposed cs = 0"
    "tally in_accepted cs = 0" "tally in_completed cs = 0"
    "tally out_accepted cs = 0" "tally out_completed cs = 0" "list_all call_ok cs"
  shows "drv_inv None (sys_released s e cs)"
  using assms by (simp add: sys_released_def drv_inv_def inv_defs quiet_def)

lemma concat_objects:
  "concat (map released (datapath_objects s)) = released (rxBackoffAction s) @ released (rxBackoffTimer s)
     @ released (txDataAvailableAction s) @ released (txDataQueue s) @ released (rxAction s)
     @ released (txAction s) @ released (pipeIn s) @ released (pipeOut s) @ released (rxBuffer s)
     @ released (txBuffer s)"
  by (simp add: datapath_objects_def)

lemma wp_releaseDatapath:
  assumes "drv_inv None s" and "quiet s"
  shows "wp (releaseDatapath dk) (\<lambda>_ t. let_go t \<and> same_rest s t
      \<and> filter is_release (calls t) = filter is_release (calls s) @ concat (map released (datapath_objects s))
      \<and> filter device_call (calls t) = filter device_call (calls s)) s"
proof -
  let ?cs = "concat (map released (datapath_objects s))"
  have tail: "wp (return_leftover dk) (\<lambda>_ t. let_go t \<and> same_rest s t
      \<and> filter is_release (calls t) = filter is_release (calls s) @ ?cs
      \<and> filter device_call (calls t) = filter device_call (calls s)) (sys_released s e ?cs)" for e
  proof (rule wp_mono [OF wp_return_leftover])
    show "drv_inv None (sys_released s e ?cs)"
      by (rule sys_released_inv [OF assms]) (simp_all add: datapath_objects_def)
  qed (use assms(2) in \<open>auto simp: sys_released_def quiet_def datapath_objects_def same_rest_def
      stack_objects_def filter_concat\<close>)
  show ?thesis
    unfolding releaseDatapath_def wp_bind wp_assign concat_objects
    by ((rule wp_release_null, rule clears_field, simp?)+)
      (rule back_subst [of "wp _ _", OF tail [simplified concat_objects]], rule sys.equality, simp_all add: sys_released_def)
qed

end
