(* ===== verification/Frames.thy ===== *)
theory Frames
  imports Datapath
begin

text \<open>
  What the entry points of the datapath never touch: the driver's configuration (every object it
  holds, the control buffer, the MAC address, the stop counter), and the record of lifecycle calls.
\<close>

section \<open>The configuration\<close>

definition config :: "'e sys \<Rightarrow> obj option list \<times> u8 list option \<times> mac_addr \<times> bool \<times> bool \<times> u32" where
  "config s = ([interface s, ctrlBuffer s, dispatchQueue s, pool s, txSubmit s, rxSubmit s, txComplete s,
      rxComplete s, pipeIn s, pipeOut s, rxBuffer s, txBuffer s, rxAction s, txAction s, txDataQueue s,
      txDataAvailableAction s, rxBackoffTimer s, rxBackoffAction s],
     ctrlBytes s, macAddress s, macValid s, interfaceOpened s, stopCancelsPending s)"

fun life_call :: "call \<Rightarrow> bool" where
  "life_call (CancelIssued p ret) = True"
| "life_call CancelRan = True"
| "life_call Retained = True"
| "life_call ReleasedRetains = True"
| "life_call (Released p) = True"
| "life_call (Opened ret) = True"
| "life_call Closed = True"
| "life_call (SuperStarted ret) = True"
| "life_call (SuperStopped ret) = True"
| "life_call (Registered m ret) = True"
| "life_call (Published key prop) = True"
| "life_call _ = False"

definition inert :: "'e sys \<Rightarrow> 'e sys \<Rightarrow> bool" where
  "inert s0 s \<longleftrightarrow> config s = config s0 \<and> filter life_call (calls s) = filter life_call (calls s0)"

lemma inert_refl [simp]: "inert s s"
  by (simp add: inert_def)

lemma inert_trans: "inert s t \<Longrightarrow> inert t u \<Longrightarrow> inert s u"
  by (simp add: inert_def)

lemmas inert_defs = inert_def config_def

lemma inert_ext [keeps_intros]: "keeps (inert s0) (ext f)"
  by (rule keeps_ext) (simp add: inert_defs)

lemma inert_emit [keeps_intros]: "\<not> life_call c \<Longrightarrow> keeps (inert s0) (emit c)"
  by (rule keeps_emit) (simp add: inert_defs)

lemma inert_log [keeps_intros]: "(\<And>a. \<not> life_call (c a)) \<Longrightarrow> keeps (inert s0) (ext_log f c)"
  unfolding ext_log_def by (intro keeps_intros)

lemma inert_deref [keeps_intros]:
  "(\<And>x. keeps (inert s0) (f x)) \<Longrightarrow> keeps (inert s0) (deref p d f)"
  unfolding deref_def by (intro keeps_intros) auto

section \<open>The receive path\<close>

lemma armRxRead_inert [keeps_intros]: "keeps (inert s0) (armRxRead dk)"
  unfolding armRxRead_def by (intro keeps_intros; simp add: inert_defs)

lemma rearmRxRead_inert [keeps_intros]: "keeps (inert s0) (rearmRxRead dk b)"
  unfolding rearmRxRead_def Let_def by (intro keeps_intros; simp add: inert_defs)

lemma RxBackoffExpired_inert: "keeps (inert s0) (RxBackoffExpired dk)"
  unfolding RxBackoffExpired_def by (intro keeps_intros; simp add: inert_defs)

lemma deallocate_inert [keeps_intros]: "keeps (inert s0) (deallocate dk p)"
  unfolding deallocate_def by (intro keeps_intros; simp)

lemma deliverPacket_inert [keeps_intros]: "keeps (inert s0) (deliverPacket dk p)"
  unfolding deliverPacket_def by (intro keeps_intros; simp add: inert_defs)

lemma rxPoolPacket_inert [keeps_intros]: "keeps (inert s0) (rxPoolPacket dk)"
  unfolding rxPoolPacket_def by (intro keeps_intros; simp add: inert_defs)

lemma rxAcquirePacket_inert [keeps_intros]: "keeps (inert s0) (rxAcquirePacket dk)"
  unfolding rxAcquirePacket_def by (intro keeps_intros; simp add: inert_defs)

lemma rx_fill_inert [keeps_intros]: "keeps (inert s0) (rx_fill dk k base off n bs)"
  unfolding rx_fill_def rx_unfilled_def rx_deliver_def drop_record_def
  by (intro keeps_intros; simp add: inert_defs)

lemma rx_record_body_inert: "keeps (inert s0) (rx_record_body dk buf r)"
  unfolding rx_record_body_def rx_into_packet_def drop_record_def Let_def
  by (intro keeps_intros; simp add: inert_defs)

lemma rx_loop_inert [keeps_intros]: "keeps (inert s0) (rx_loop dk buf len off n)"
proof (induction dk buf len off n rule: rx_loop.induct)
  case (1 dk buf len off n)
  then show ?case
    by (subst rx_loop.simps)
      (auto intro!: keeps_intros rx_record_body_inert split: option.split)
qed

lemma RxComplete_inert: "keeps (inert s0) (RxComplete dk status n)"
  unfolding RxComplete_def rx_transfer_def
  by (intro keeps_intros; simp add: inert_defs)

section \<open>The transmit path\<close>

lemma txReturnPacket_inert [keeps_intros]: "keeps (inert s0) (txReturnPacket dk p)"
  unfolding txReturnPacket_def by (intro keeps_intros; simp add: inert_defs)

lemma tx_submit_transfer_inert [keeps_intros]:
  "keeps (inert s0) (tx_submit_transfer dk k pipe buffer action bytes n)"
  unfolding tx_submit_transfer_def by (intro keeps_intros; simp add: inert_defs)

lemma txSubmitPacket_inert [keeps_intros]: "keeps (inert s0) (txSubmitPacket dk k)"
  unfolding txSubmitPacket_def reject_packet_def Let_def
  by (intro keeps_intros; simp add: inert_defs)

lemma tx_drain_body_inert: "keeps (inert s0) (tx_drain_body dk)"
  unfolding tx_drain_body_def by (intro keeps_intros; simp add: inert_defs)

lemma tx_drain_loop_inert:
  assumes "tx_drain_loop dk sent s = Some r" 
  shows "inert s0 s \<longrightarrow> inert s0 (snd r)"
proof (rule tx_drain_loop.raw_induct [OF _ assms])
  fix loop :: "'a dk \<Rightarrow> u32 \<Rightarrow> 'a sys \<Rightarrow> (u32 \<times> 'a sys) option" and dk sent s r
  assume IH: "\<And>dk sent s r. loop dk sent s = Some r \<Longrightarrow> inert s0 s \<longrightarrow> inert s0 (snd r)"
    and step: "(if txInFlight s then Some (sent, s) else case run_state (tx_drain_body dk) s of
      (Drained, s') \<Rightarrow> Some (sent, s') | (Sent, s') \<Rightarrow> loop dk (sent + 1) s'
    | (Refused, s') \<Rightarrow> loop dk sent s') = Some r"
  show "inert s0 s \<longrightarrow> inert s0 (snd r)"
    using step keepsD [OF tx_drain_body_inert, of s0 s dk]
    by (auto split: if_splits prod.splits drain_outcome.splits dest: IH)
qed

lemma txDrainSubmission_inert [keeps_intros]: "keeps (inert s0) (txDrainSubmission dk)"
proof -
  have "keeps (inert s0) (State (\<lambda>s. case tx_drain_loop dk 0 s of
      None \<Rightarrow> (None, s\<lparr>calls := calls s @ [Diverged]\<rparr>) | Some (sent, s) \<Rightarrow> (Some sent, s)))"
    by (auto simp: keeps_def inert_defs split: option.split dest!: tx_drain_loop_inert [of _ _ _ _ s0])
  then show ?thesis
    unfolding txDrainSubmission_def by (intro keeps_intros; simp add: inert_defs)
qed

lemma TxDataAvailable_inert: "keeps (inert s0) (TxDataAvailable dk)"
  unfolding TxDataAvailable_def by (intro keeps_intros; simp add: inert_defs)

lemma TxComplete_inert: "keeps (inert s0) (TxComplete dk status n)"
  unfolding TxComplete_def by (intro keeps_intros; simp add: inert_defs)

section \<open>Quiescing\<close>

lemma quiesceDatapath_inert: "keeps (inert s0) (quiesceDatapath dk)"
  unfolding quiesceDatapath_def
  by (intro keeps_intros abort_pipe_keeps RxComplete_inert TxComplete_inert)
    (auto simp: inert_defs split: prod.split)

end
