(* ===== verification/Lifecycle.thy ===== *)
theory Lifecycle
  imports Frames
begin

text \<open>
  The life of the driver object in \<open>SMSC95xxDriver.cpp\<close>: \<open>Start\<close> with its failure paths, the
  asynchronous \<open>Stop\<close>, the release of every resource, and \<open>setInterfaceEnable\<close>.
\<close>

section \<open>Releasing\<close>

definition close_interface :: "'e dk \<Rightarrow> ('e sys, unit) state" where
  "close_interface dk = do {
     itf \<leftarrow> gets interface;
     (case itf of
        None \<Rightarrow> skip
      | Some i \<Rightarrow> do {
          opened \<leftarrow> gets interfaceOpened;
          whenever opened (do {
            ext_log (dk_Close dk i) (\<lambda>_. Closed);
            assign interfaceOpened_update False
          });
          assign interface_update None
        })
   }"

definition ReleaseResources :: "'e dk \<Rightarrow> ('e sys, unit) state" where
  "ReleaseResources dk = do {
     releaseDatapath dk;
     release_null dk txSubmit txSubmit_update;
     release_null dk rxSubmit rxSubmit_update;
     release_null dk txComplete txComplete_update;
     release_null dk rxComplete rxComplete_update;
     release_null dk pool pool_update;
     close_interface dk;
     assign ctrlBytes_update None;
     release_null dk ctrlBuffer ctrlBuffer_update;
     release_null dk dispatchQueue dispatchQueue_update
   }"

definition super_Stop :: "'e dk \<Rightarrow> obj \<Rightarrow> ('e sys, kern_return) state" where
  "super_Stop dk provider = ext_log (dk_super_Stop dk provider) SuperStopped"

section \<open>Stopping\<close>

text \<open>The block every \<open>Cancel\<close> is handed.\<close>

definition finalize :: "'e dk \<Rightarrow> obj \<Rightarrow> ('e sys, unit) state" where
  "finalize dk provider = do {
     prior \<leftarrow> gets stopCancelsPending;
     assign stopCancelsPending_update (prior - 1);
     if prior \<noteq> 1 then skip
     else do {
       ReleaseResources dk;
       super_Stop dk provider;
       emit ReleasedRetains
     }
   }"

definition cancel_source ::
    "'e dk \<Rightarrow> obj \<Rightarrow> ('e sys \<Rightarrow> obj option) \<Rightarrow> ('e sys, unit) state" where
  "cancel_source dk provider source = do {
     p \<leftarrow> gets source;
     (case p of
        None \<Rightarrow> skip
      | Some x \<Rightarrow> do {
          cr \<leftarrow> ext_log (dk_Cancel dk x) (CancelIssued x);
          if cr \<noteq> kIOReturnSuccess then finalize dk provider else skip
        })
   }"

text \<open>\<open>cancelCount\<close>: one for each source that exists.\<close>

definition source_count :: "'e sys \<Rightarrow> u32" where
  "source_count s = (let n = (0 :: u32);
       n = (if rxBackoffTimer s \<noteq> None then n + 1 else n);
       n = (if txDataQueue s \<noteq> None then n + 1 else n);
       n = (if rxAction s \<noteq> None then n + 1 else n)
     in if txAction s \<noteq> None then n + 1 else n)"

definition finishStop :: "'e dk \<Rightarrow> obj \<Rightarrow> ('e sys, kern_return) state" where
  "finishStop dk provider = do {
     cancelCount \<leftarrow> gets source_count;
     assign stopCancelsPending_update cancelCount;
     if cancelCount = 0 then do {
       ReleaseResources dk;
       super_Stop dk provider
     } else do {
       emit Retained;
       cancel_source dk provider rxBackoffTimer;
       cancel_source dk provider txDataQueue;
       cancel_source dk provider rxAction;
       cancel_source dk provider txAction;
       return kIOReturnSuccess
     }
   }"

definition Stop :: "'e dk \<Rightarrow> obj \<Rightarrow> ('e sys, kern_return) state" where
  "Stop dk provider = do {
     quiesceDatapath dk;
     finishStop dk provider
   }"

section \<open>Starting, stage by stage\<close>

definition start_open :: "'e dk \<Rightarrow> ('e sys, kern_return) state" where
  "start_open dk = do {
     itf \<leftarrow> gets interface;
     ret \<leftarrow> deref itf kIOReturnSuccess (\<lambda>i. ext_log (dk_Open dk i) Opened);
     if ret \<noteq> kIOReturnSuccess then return ret
     else do { assign interfaceOpened_update True; return kIOReturnSuccess }
   }"

definition start_control_buffer :: "'e dk \<Rightarrow> ('e sys, kern_return) state" where
  "start_control_buffer dk =
     check (create (dk_CreateBuffer dk 4) ctrlBuffer_update) (do {
       b \<leftarrow> gets ctrlBuffer;
       (ret, length, address) \<leftarrow>
         deref b (kIOReturnSuccess, 0, None) (\<lambda>b. ext (dk_GetAddressRange dk b));
       if ret \<noteq> kIOReturnSuccess then return ret
       else if length < 4 then return kIOReturnNoMemory
       else do { assign ctrlBytes_update address; return kIOReturnSuccess }
     })"

definition os_object :: "'e dk \<Rightarrow> property \<Rightarrow> ('e sys, property option) state" where
  "os_object dk p = do { ok \<leftarrow> ext (dk_alloc dk); return (if ok then Some p else None) }"

definition start_identify :: "'e dk \<Rightarrow> ('e sys, kern_return) state" where
  "start_identify dk = do {
     (ret, idRev) \<leftarrow> readRegister dk (ucast REG_ID_REV) (Some 0);
     if ret \<noteq> kIOReturnSuccess then return ret
     else do {
       number \<leftarrow> os_object dk (Number (the idRev));
       publishProperty dk ''SMSC95xxIDRev'' number;
       return kIOReturnSuccess
     }
   }"

definition start_phy_id :: "'e dk \<Rightarrow> ('e sys, kern_return) state" where
  "start_phy_id dk = do {
     (ret, phyid1) \<leftarrow> miiRead dk PHY_ADDR MII_PHYID1 0;
     if ret \<noteq> kIOReturnSuccess then return ret else do {
     (ret, phyid2) \<leftarrow> miiRead dk PHY_ADDR MII_PHYID2 0;
     if ret \<noteq> kIOReturnSuccess then return ret else do {
       number \<leftarrow> os_object dk (Number (push_bit 16 (ucast phyid1) OR ucast phyid2));
       publishProperty dk ''SMSC95xxPHYID'' number;
       return kIOReturnSuccess
     }}
   }"

definition start_check_phy :: "'e dk \<Rightarrow> ('e sys, kern_return) state" where
  "start_check_phy dk = do {
     (ret, bmsr) \<leftarrow> miiRead dk PHY_ADDR MII_BMSR 0;
     if ret \<noteq> kIOReturnSuccess then return ret
     else if smsc95xx_bmsr_autoneg_capable bmsr then return kIOReturnUnsupported
     else return kIOReturnSuccess
   }"

text \<open>
  The MAC address behind its three provenance checks: the EEPROM was loaded at reset, its signature
  is there, and what it holds is plausible. Each gives the status and \<open>eeprom_loaded\<close>.
\<close>

definition start_mac_store :: "'e dk \<Rightarrow> ('e sys, kern_return) state" where
  "start_mac_store dk = do {
     (ret, mac) \<leftarrow> eepromRead dk EEPROM_MAC_OFFSET (Some (replicate 6 0)) MAC_LEN;
     if ret \<noteq> kIOReturnSuccess then return ret
     else if smsc95xx_mac_plausible (the mac) \<noteq> MAC_PLAUSIBLE then return kIOReturnNotFound
     else do {
       assign macAddress_update (the mac);
       assign macValid_update True;
       return kIOReturnSuccess
     }
   }"

definition start_mac_signed :: "'e dk \<Rightarrow> ('e sys, kern_return) state" where
  "start_mac_signed dk = do {
     (ret, sig) \<leftarrow> eepromRead dk EEPROM_SIG_OFFSET (Some [0]) 1;
     if ret \<noteq> kIOReturnSuccess then return ret
     else if \<not> smsc95xx_eeprom_sig_valid (the sig ! 0) then return kIOReturnNotFound
     else start_mac_store dk
   }"

definition start_mac :: "'e dk \<Rightarrow> ('e sys, kern_return \<times> bool) state" where
  "start_mac dk = do {
     (ret, e2p_cmd) \<leftarrow> readRegister dk (ucast REG_E2P_CMD) (Some 0);
     if ret \<noteq> kIOReturnSuccess then return (ret, False)
     else if the e2p_cmd AND E2P_LOADED = 0 then return (kIOReturnNotFound, False)
     else do { ret \<leftarrow> start_mac_signed dk; return (ret, True) }
   }"

definition start_publish_mac :: "'e dk \<Rightarrow> bool \<Rightarrow> ('e sys, unit) state" where
  "start_publish_mac dk eeprom_loaded = do {
     mac \<leftarrow> gets macAddress;
     macData \<leftarrow> os_object dk (Data mac);
     publishProperty dk ''SMSC95xxMACAddress'' macData;
     publishProperty dk ''SMSC95xxEEPROMLoaded'' (Some (Boolean eeprom_loaded))
   }"

definition start_init_chip :: "'e dk \<Rightarrow> ('e sys, kern_return) state" where
  "start_init_chip dk = do {
     mac \<leftarrow> gets macAddress;
     irc \<leftarrow> with_ctx \<lparr>io_reads = 0, io_writes = 0\<rparr>
       (smsc95xx_init_seq (Some \<lparr>read_cb = Some (initRegRead dk), write_cb = Some (initRegWrite dk)\<rparr>)
         (Some mac) False);
     return (sharedResultToIOReturn irc)
   }"

definition create_queue ::
    "'e dk \<Rightarrow> queue_kind \<Rightarrow> ((obj option \<Rightarrow> obj option) \<Rightarrow> 'e sys \<Rightarrow> 'e sys) \<Rightarrow> ('e sys, kern_return) state" where
  "create_queue dk kind upd = do {
     s \<leftarrow> gets id;
     create (dk_CreateQueue dk kind (pool s) (dispatchQueue s)) upd
   }"

definition start_queues :: "'e dk \<Rightarrow> ('e sys, kern_return) state" where
  "start_queues dk =
     check (acquire (dk_CopyDispatchQueue dk) dispatchQueue_update kIOReturnNoResources) (
     check (create (dk_CreatePool dk) pool_update) (
     check (create_queue dk TxSubmission txSubmit_update) (
     check (create_queue dk TxCompletion txComplete_update) (
     check (create_queue dk RxSubmission rxSubmit_update) (
     check (create_queue dk RxCompletion rxComplete_update) (
     return kIOReturnSuccess))))))"

section \<open>Start\<close>

text \<open>The label \<open>fail\<close>, and \<open>ret = m; if (ret != kIOReturnSuccess) goto fail;\<close>.\<close>

definition start_fail :: "'e dk \<Rightarrow> obj \<Rightarrow> kern_return \<Rightarrow> ('e sys, kern_return) state" where
  "start_fail dk provider ret = do {
     quiesceDatapath dk;
     ReleaseResources dk;
     super_Stop dk provider;
     return ret
   }"

definition or_fail ::
    "'e dk \<Rightarrow> obj \<Rightarrow> ('e sys, kern_return) state \<Rightarrow> ('e sys, kern_return) state
     \<Rightarrow> ('e sys, kern_return) state" where
  "or_fail dk provider m k = do {
     ret \<leftarrow> m;
     if ret \<noteq> kIOReturnSuccess then start_fail dk provider ret else k
   }"

definition start_register :: "'e dk \<Rightarrow> obj \<Rightarrow> ('e sys, kern_return) state" where
  "start_register dk provider = do {
     s \<leftarrow> gets id;
     ret \<leftarrow> ext_log (dk_registerEthernetInterface dk (macAddress s)
         [txSubmit s, rxSubmit s, txComplete s, rxComplete s] (pool s))
       (Registered (macAddress s));
     if ret \<noteq> kIOReturnSuccess then do {
       quiesceDatapath dk;
       finishStop dk provider;
       return ret
     } else do {
       ext_log (dk_reportLinkStatus dk True) (LinkReported True);
       ext (dk_RegisterService dk);
       return kIOReturnSuccess
     }
   }"

definition Start :: "'e dk \<Rightarrow> obj \<Rightarrow> ('e sys, kern_return) state" where
  "Start dk provider = do {
     ret \<leftarrow> ext_log (dk_super_Start dk provider) SuperStarted;
     if ret \<noteq> kIOReturnSuccess then return ret else do {
     itf \<leftarrow> ext (dk_cast_interface dk provider);
     assign interface_update itf;
     if itf = None then do {
       super_Stop dk provider;
       return kIOReturnNoDevice
     } else
     or_fail dk provider (start_open dk) (
     or_fail dk provider (start_control_buffer dk) (
     or_fail dk provider (start_identify dk) (
     or_fail dk provider (start_phy_id dk) (
     or_fail dk provider (start_check_phy dk) (do {
     (ret, eeprom_loaded) \<leftarrow> start_mac dk;
     or_fail dk provider (return ret) (do {
     start_publish_mac dk eeprom_loaded;
     or_fail dk provider (start_init_chip dk) (
     or_fail dk provider (start_queues dk) (
     or_fail dk provider (setupDatapath dk) (
     start_register dk provider)))
     })})))))
     }
   }"

section \<open>Enabling and disabling the interface\<close>

text \<open>The enable loop over the queues from \<open>n\<close> on: its status and \<open>enabledCount\<close>.\<close>

fun enable_queues :: "'e dk \<Rightarrow> obj option list \<Rightarrow> nat \<Rightarrow> ('e sys, kern_return \<times> nat) state" where
  "enable_queues dk [] n = return (kIOReturnSuccess, n)"
| "enable_queues dk (None # qs) n = enable_queues dk qs (n + 1)"
| "enable_queues dk (Some q # qs) n = do {
     ret \<leftarrow> ext_log (dk_setEnable dk q True) (QueueEnabled q True);
     if ret \<noteq> kIOReturnSuccess then return (ret, n) else enable_queues dk qs (n + 1)
   }"

fun disable_queues :: "'e dk \<Rightarrow> obj option list \<Rightarrow> ('e sys, unit) state" where
  "disable_queues dk [] = skip"
| "disable_queues dk (None # qs) = disable_queues dk qs"
| "disable_queues dk (Some q # qs) = do {
     ext_log (dk_setEnable dk q False) (QueueEnabled q False);
     disable_queues dk qs
   }"

definition super_setInterfaceEnable :: "'e dk \<Rightarrow> bool \<Rightarrow> ('e sys, kern_return) state" where
  "super_setInterfaceEnable dk enable =
     ext_log (dk_super_setInterfaceEnable dk enable) (SuperEnabled enable)"

definition enable_failed :: "'e dk \<Rightarrow> obj option list \<Rightarrow> kern_return \<Rightarrow> ('e sys, kern_return) state" where
  "enable_failed dk enabled ret = do {
     disable_queues dk enabled;
     ext_log (dk_reportLinkStatus dk False) (LinkReported False);
     super_setInterfaceEnable dk False;
     return ret
   }"

definition setInterfaceEnable :: "'e dk \<Rightarrow> bool \<Rightarrow> ('e sys, kern_return) state" where
  "setInterfaceEnable dk enable = do {
     s \<leftarrow> gets id;
     if enable \<and> stopping s then return kIOReturnOffline else do {
     let queues = [txSubmit s, rxSubmit s, txComplete s, rxComplete s];
     ret \<leftarrow> super_setInterfaceEnable dk enable;
     if ret \<noteq> kIOReturnSuccess then return ret
     else if enable then do {
       (ret, enabledCount) \<leftarrow> enable_queues dk queues 0;
       if ret \<noteq> kIOReturnSuccess then enable_failed dk (take enabledCount queues) ret else do {
       ret \<leftarrow> ext_log (dk_reportLinkStatus dk True) (LinkReported True);
       if ret \<noteq> kIOReturnSuccess then enable_failed dk (take enabledCount queues) ret else do {
       assign rxRunning_update True;
       assign rxIdleRun_update 0;
       assign rxBackoffActive_update False;
       ret \<leftarrow> armRxRead dk;
       if ret \<noteq> kIOReturnSuccess then do {
         assign rxRunning_update False;
         enable_failed dk (take enabledCount queues) ret
       } else return kIOReturnSuccess
       }}
     } else do {
       assign rxRunning_update False;
       disable_queues dk (rev queues);
       return kIOReturnSuccess
     }}
   }"

end
