(* ===== verification/Shutdown.thy ===== *)
theory Shutdown
  imports Lifecycle
begin

text \<open>
  The asynchronous stop of \<open>SMSC95xxDriver.cpp\<close>: what \<open>ReleaseResources\<close> releases, the counter that
  joins the cancellations \<open>finishStop\<close> issues with the handlers that run later, in any order, and
  the single \<open>super::Stop\<close> they end in.
\<close>

section \<open>Stopping: one super::Stop, after every cancellation\<close>

text \<open>Calls of \<open>super::Stop\<close>, cancellations that will run their handler, and handlers that ran.\<close>

fun super_stopped :: "call \<Rightarrow> nat" where
  "super_stopped (SuperStopped ret) = 1"
| "super_stopped _ = 0"

fun cancel_begun :: "call \<Rightarrow> nat" where
  "cancel_begun (CancelIssued p ret) = (if ret = 0 then 1 else 0)"
| "cancel_begun _ = 0"

fun cancel_ran :: "call \<Rightarrow> nat" where
  "cancel_ran CancelRan = 1"
| "cancel_ran _ = 0"

definition super_stops :: "'e sys \<Rightarrow> nat" where
  "super_stops s = tally super_stopped (calls s)"

definition outstanding :: "'e sys \<Rightarrow> nat" where
  "outstanding s = tally cancel_begun (calls s) - tally cancel_ran (calls s)"

definition balanced :: "'e sys \<Rightarrow> bool" where
  "balanced s \<longleftrightarrow> tally cancel_ran (calls s) \<le> tally cancel_begun (calls s)"

text \<open>Two states with the same calls of these kinds.\<close>

fun stop_call :: "call \<Rightarrow> bool" where
  "stop_call (SuperStopped ret) = True"
| "stop_call (CancelIssued p ret) = True"
| "stop_call CancelRan = True"
| "stop_call _ = False"

definition same_stops :: "'e sys \<Rightarrow> 'e sys \<Rightarrow> bool" where
  "same_stops s0 s \<longleftrightarrow> filter stop_call (calls s) = filter stop_call (calls s0)"

lemma stop_tally:
  "tally super_stopped cs = tally super_stopped (filter stop_call cs)"
  "tally cancel_begun cs = tally cancel_begun (filter stop_call cs)"
  "tally cancel_ran cs = tally cancel_ran (filter stop_call cs)"
  by (induction cs) (auto elim: stop_call.elims split: if_splits)

lemma same_stops_counts:
  assumes "same_stops s0 s"
  shows "super_stops s = super_stops s0" and "outstanding s = outstanding s0"
    and "balanced s = balanced s0"
  using assms stop_tally [of "calls s"] stop_tally [of "calls s0"]
  by (simp_all add: same_stops_def super_stops_def outstanding_def balanced_def)

lemma stop_life: "stop_call c \<Longrightarrow> life_call c"
  by (cases c) simp_all

lemma inert_same_stops:
  assumes "inert s0 s"
  shows "same_stops s0 s"
proof -
  have "filter stop_call cs = filter stop_call (filter life_call cs)" for cs
    by (auto simp: filter_filter intro!: filter_cong dest: stop_life)
  then show ?thesis using assms by (metis inert_def same_stops_def)
qed

lemma same_stops_ext [keeps_intros]: "keeps (same_stops s0) (ext f)"
  by (rule keeps_ext) (simp add: same_stops_def)

lemma same_stops_emit [keeps_intros]: "\<not> stop_call c \<Longrightarrow> keeps (same_stops s0) (emit c)"
  by (rule keeps_emit) (simp add: same_stops_def)

lemma same_stops_log [keeps_intros]:
  "(\<And>a. \<not> stop_call (c a)) \<Longrightarrow> keeps (same_stops s0) (ext_log f c)"
  unfolding ext_log_def by (intro keeps_intros)


section \<open>Releasing everything\<close>

text \<open>Every resource of the driver is gone.\<close>

definition gone :: "'e sys \<Rightarrow> bool" where
  "gone s \<longleftrightarrow> set (datapath_objects s) = {None} \<and> set (stack_objects s) = {None}
     \<and> rxBytes s = None \<and> txBytes s = None \<and> ctrlBytes s = None \<and> txPacket s = None"

text \<open>The objects \<open>ReleaseResources\<close> releases after the datapath's, in its order.\<close>

definition stack_releases :: "'e sys \<Rightarrow> obj option list" where
  "stack_releases s = [txSubmit s, rxSubmit s, txComplete s, rxComplete s, pool s, ctrlBuffer s, dispatchQueue s]"

lemma drv_inv_append:
  assumes "drv_inv None s" "tally tx_taken cs = 0" "tally tx_given cs = 0"
    "tally rx_acquired cs = 0" "tally rx_disposed cs = 0"
    "tally in_accepted cs = 0" "tally in_completed cs = 0"
    "tally out_accepted cs = 0" "tally out_completed cs = 0" "list_all call_ok cs"
  shows "drv_inv None (s\<lparr>env := e, calls := calls s @ cs\<rparr>)"
  using assms by (auto simp: drv_inv_def inv_defs)

lemma drv_inv_no_queue: "drv_inv h s \<Longrightarrow> txPacket s = None \<Longrightarrow> drv_inv h (s\<lparr>txComplete := None\<rparr>)"
  by (auto simp: drv_inv_def tx_inv_def)

text \<open>The state after the seven releases and the close.\<close>

definition sys_gone :: "'e sys \<Rightarrow> 'e \<Rightarrow> call list \<Rightarrow> bool \<Rightarrow> 'e sys" where
  "sys_gone s e cs opened = s\<lparr>env := e, calls := calls s @ cs, txComplete := None, txSubmit := None,
     rxSubmit := None, rxComplete := None, pool := None, interfaceOpened := opened, interface := None,
     ctrlBytes := None, ctrlBuffer := None, dispatchQueue := None\<rparr>"

definition release_calls :: "'e sys \<Rightarrow> call list \<Rightarrow> call list" where
  "release_calls s closing = released (txSubmit s) @ released (rxSubmit s) @ released (txComplete s)
     @ released (rxComplete s) @ released (pool s) @ closing
     @ released (ctrlBuffer s) @ released (dispatchQueue s)"

lemma release_calls_neutral:
  assumes "closing \<in> {[], [Closed]}"
  shows "tally tx_taken (release_calls s closing) = 0" "tally tx_given (release_calls s closing) = 0"
    "tally rx_acquired (release_calls s closing) = 0" "tally rx_disposed (release_calls s closing) = 0"
    "tally in_accepted (release_calls s closing) = 0" "tally in_completed (release_calls s closing) = 0"
    "tally out_accepted (release_calls s closing) = 0"
    "tally out_completed (release_calls s closing) = 0" "list_all call_ok (release_calls s closing)"
    "filter device_call (release_calls s closing) = []"
    "filter is_release (release_calls s closing) = concat (map released (stack_releases s))"
  using assms by (auto simp: release_calls_def stack_releases_def is_release_def)

definition release_stack :: "'e dk \<Rightarrow> ('e sys, unit) state" where
  "release_stack dk = do {
     release_null dk txSubmit txSubmit_update;
     release_null dk rxSubmit rxSubmit_update;
     release_null dk txComplete txComplete_update;
     release_null dk rxComplete rxComplete_update;
     release_null dk pool pool_update;
     close_interface dk;
     assign ctrlBytes_update None;
     release_null dk ctrlBuffer ctrlBuffer_update;
     release_null dk dispatchQueue dispatchQueue_update
   }"

lemma ReleaseResources_split: "ReleaseResources dk = do { releaseDatapath dk; release_stack dk }"
  by (simp add: ReleaseResources_def release_stack_def)

lemma wp_close_interface:
  fixes s :: "'e sys"
  assumes "\<And>e cs b. cs \<in> {[], [Closed]} \<Longrightarrow>
      Q () (s\<lparr>env := e, calls := calls s @ cs, interfaceOpened := b, interface := None\<rparr>)"
  shows "wp (close_interface dk) Q s"
proof (cases "interface s")
  case None
  then have "s\<lparr>interface := None\<rparr> = s" by (cases s) simp
  moreover have "Q () (s\<lparr>interface := None\<rparr>)"
    using assms [of "[]" "interfaceOpened s" "env s"] by simp
  ultimately have "Q () s" by (simp only:)
  then show ?thesis using None by (simp add: close_interface_def wp_simps)
next
  case (Some i)
  then show ?thesis
    using assms [of "[]" "interfaceOpened s" "env s"] assms [of "[Closed]" False e for e]
    by (auto simp: close_interface_def wp_simps split: prod.split)
qed

lemma wp_release_stack:
  "wp (release_stack dk) (\<lambda>_ t. \<exists>e closing b. closing \<in> {[], [Closed]}
     \<and> t = sys_gone s e (release_calls s closing) b) s"
  unfolding release_stack_def wp_bind wp_assign
  apply ((rule wp_release_null, rule clears_field, simp?)+)
  apply (rule wp_close_interface)
  apply ((rule wp_release_null, rule clears_field, simp?)+)
  subgoal for cs b e
    apply (rule exI [of _ e], rule exI [of _ cs], rule conjI, assumption, rule exI [of _ b])
    apply (rule sys.equality)
    apply (simp_all add: sys_gone_def release_calls_def)
    done
  done

lemma wp_ReleaseResources:
  assumes "drv_inv None s" and "quiet s"
  shows "wp (ReleaseResources dk) (\<lambda>_ t. drv_inv None t \<and> quiet t \<and> gone t
      \<and> filter is_release (calls t) = filter is_release (calls s)
          @ concat (map released (datapath_objects s @ stack_releases s))
      \<and> filter device_call (calls t) = filter device_call (calls s)
      \<and> stopCancelsPending t = stopCancelsPending s) s"
  unfolding ReleaseResources_split wp_bind
proof (rule wp_mono [OF wp_releaseDatapath [OF assms]])
  fix a t
  assume *: "let_go t \<and> same_rest s t \<and> filter is_release (calls t) =
      filter is_release (calls s) @ concat (map released (datapath_objects s)) \<and>
      filter device_call (calls t) = filter device_call (calls s)"
  show "wp (release_stack dk) (\<lambda>_ t. drv_inv None t \<and> quiet t \<and> gone t
      \<and> filter is_release (calls t) = filter is_release (calls s)
          @ concat (map released (datapath_objects s @ stack_releases s))
      \<and> filter device_call (calls t) = filter device_call (calls s)
      \<and> stopCancelsPending t = stopCancelsPending s) t"
  proof (rule wp_mono [OF wp_release_stack], elim exE conjE)
    fix u e closing b
    assume closing: "closing \<in> {[], [Closed]}" and u: "u = sys_gone t e (release_calls t closing) b"
    note neutral = release_calls_neutral [OF closing, of t]
    have t: "drv_inv None t" "txPacket t = None" using * by (simp_all add: let_go_def)
    then have "drv_inv None (t\<lparr>env := e, calls := calls t @ release_calls t closing\<rparr>)"
      by (intro drv_inv_append neutral)
    then have "drv_inv None (t\<lparr>env := e, calls := calls t @ release_calls t closing, txComplete := None\<rparr>)"
      by (rule drv_inv_no_queue) (simp add: t)
    then have inv: "drv_inv None u" by (simp add: u sys_gone_def)
    have rest: "stack_releases t = stack_releases s"
      using * by (simp add: same_rest_def stack_objects_def stack_releases_def)
    have "quiet u" "gone u" using *
      by (simp_all add: u sys_gone_def gone_def let_go_def quiet_def stack_objects_def datapath_objects_def)
    then show "drv_inv None u \<and> quiet u \<and> gone u
      \<and> filter is_release (calls u) = filter is_release (calls s)
          @ concat (map released (datapath_objects s @ stack_releases s))
      \<and> filter device_call (calls u) = filter device_call (calls s)
      \<and> stopCancelsPending u = stopCancelsPending s"
      using * inv neutral rest by (simp add: u sys_gone_def same_rest_def)
  qed
qed


lemma ReleaseResources_same_stops: "keeps (same_stops s0) (ReleaseResources dk)"
  unfolding ReleaseResources_split release_stack_def releaseDatapath_def return_leftover_def
    txReturnPacket_def close_interface_def
  by (intro keeps_intros) (simp_all add: same_stops_def)

section \<open>The stop counter\<close>

text \<open>The four sources whose cancellation \<open>finishStop\<close> waits for, and how many are there.\<close>

definition sources :: "'e sys \<Rightarrow> obj option list" where
  "sources s = [rxBackoffTimer s, txDataQueue s, rxAction s, txAction s]"

definition live :: "obj option list \<Rightarrow> nat" where
  "live ps = length (filter (\<lambda>p. p \<noteq> None) ps)"

lemma live_simps [simp]: "live [] = 0" "live (p # ps) = of_bool (p \<noteq> None) + live ps"
  by (simp_all add: live_def)

text \<open>
  The state of the asynchronous stop with \<open>n\<close> sources still to be cancelled: either the counter is
  what is outstanding plus \<open>n\<close> and nothing has been released, or the stop has been finished.
\<close>

definition waiting :: "nat \<Rightarrow> 'e sys \<Rightarrow> bool" where
  "waiting n s \<longleftrightarrow> drv_inv None s \<and> quiet s \<and> super_stops s = 0 \<and> balanced s
     \<and> unat (stopCancelsPending s) = outstanding s + n \<and> 0 < outstanding s + n"

definition finished :: "'e sys \<Rightarrow> bool" where
  "finished s \<longleftrightarrow> drv_inv None s \<and> quiet s \<and> super_stops s = 1 \<and> balanced s
     \<and> outstanding s = 0 \<and> gone s"

lemma super_stops_SuperStopped [simp]:
  "super_stops (s\<lparr>calls := calls s @ [c]\<rparr>) = super_stops s + super_stopped c"
  "super_stops (s\<lparr>env := e, calls := calls s @ [c]\<rparr>) = super_stops s + super_stopped c"
  by (simp_all add: super_stops_def)

lemma outstanding_log [simp]:
  "cancel_begun c = 0 \<Longrightarrow> cancel_ran c = 0 \<Longrightarrow>
     outstanding (s\<lparr>calls := calls s @ [c]\<rparr>) = outstanding s"
  "cancel_begun c = 0 \<Longrightarrow> cancel_ran c = 0 \<Longrightarrow>
     outstanding (s\<lparr>env := e, calls := calls s @ [c]\<rparr>) = outstanding s"
  by (simp_all add: outstanding_def)

lemma balanced_log [simp]:
  "cancel_ran c = 0 \<Longrightarrow> balanced s \<Longrightarrow> balanced (s\<lparr>calls := calls s @ [c]\<rparr>)"
  "cancel_ran c = 0 \<Longrightarrow> balanced s \<Longrightarrow> balanced (s\<lparr>env := e, calls := calls s @ [c]\<rparr>)"
  by (simp_all add: balanced_def)

lemma gone_log [simp]:
  "gone (s\<lparr>calls := cs\<rparr>) = gone s" "gone (s\<lparr>env := e\<rparr>) = gone s"
  by (simp_all add: gone_def datapath_objects_def stack_objects_def)

lemma wp_release_and_stop:
  assumes inv: "drv_inv None s" "quiet s" and "super_stops s = 0" "balanced s" and "outstanding s = 0"
    and "\<And>ret t. finished t \<Longrightarrow> Q ret t"
  shows "wp (ReleaseResources dk) (\<lambda>_. wp (super_Stop dk provider) Q) s"
proof (rule wp_mono [OF wp_conj [OF wp_ReleaseResources [OF inv]
      keeps_wp [OF ReleaseResources_same_stops, of s s]]])
  fix a t
  assume t: "(drv_inv None t \<and> quiet t \<and> gone t \<and> filter is_release (calls t) = filter is_release (calls s)
      @ concat (map released (datapath_objects s @ stack_releases s))
      \<and> filter device_call (calls t) = filter device_call (calls s)
      \<and> stopCancelsPending t = stopCancelsPending s) \<and> same_stops s t"
  have "finished (t\<lparr>env := e, calls := calls t @ [SuperStopped ret]\<rparr>)" for e ret
    using t assms(3-5) same_stops_counts [of s t]
    by (simp add: finished_def drv_inv_def inv_log)
  then show "wp (super_Stop dk provider) Q t"
    using assms(6) by (simp add: super_Stop_def wp_ext_log split: prod.split)
qed (simp add: same_stops_def)

text \<open>The last cancellation handler finishes the stop, every other one only counts.\<close>

lemma wp_finalize:
  assumes inv: "drv_inv None s" "quiet s" and stops: "super_stops s = 0" "balanced s"
    and pending: "unat (stopCancelsPending s) = Suc n" and last: "n = 0 \<Longrightarrow> outstanding s = 0"
  shows "wp (finalize dk provider) (\<lambda>_ t. if n = 0 then finished t
    else t = s\<lparr>stopCancelsPending := stopCancelsPending s - 1\<rparr>) s"
proof -
  let ?s = "s\<lparr>stopCancelsPending := stopCancelsPending s - 1\<rparr>"
  have one: "stopCancelsPending s = 1 \<longleftrightarrow> n = 0"
    using pending by (simp add: word_unat_eq_iff)
  have fin: "wp (ReleaseResources dk) (\<lambda>_. wp (super_Stop dk provider)
      (\<lambda>_. wp (emit ReleasedRetains) (\<lambda>_ t. finished t))) ?s" if "n = 0"
  proof (rule wp_release_and_stop)
    show "wp (emit ReleasedRetains) (\<lambda>_ t. finished t) t" if "finished t" for t
      using that by (simp add: wp_emit finished_def drv_inv_def inv_calls)
  qed (use inv stops last that in \<open>simp_all add: super_stops_def outstanding_def balanced_def quiet_def\<close>)
  have "wp (do { ReleaseResources dk; super_Stop dk provider; emit ReleasedRetains })
      (\<lambda>_ t. finished t) ?s" if "n = 0"
    using fin [OF that] by (simp only: wp_bind_fun)
  then show ?thesis
    using one
    by (auto simp: finalize_def wp_bind [of "gets x" for x] wp_bind [of "assign x y" for x y] wp_gets
      wp_assign wp_skip)
qed

section \<open>Issuing the cancellations\<close>

text \<open>A field that names a source: released at the end, and untouched while cancellations are issued.\<close>

definition source_field :: "('e sys \<Rightarrow> obj option) \<Rightarrow> bool" where
  "source_field f \<longleftrightarrow> (\<forall>s. gone s \<longrightarrow> f s = None) \<and>
     (\<forall>s e cs. f (s\<lparr>env := e, calls := cs\<rparr>) = f s) \<and> (\<forall>s n. f (s\<lparr>stopCancelsPending := n\<rparr>) = f s)"

lemma source_fields: "list_all source_field [rxBackoffTimer, txDataQueue, rxAction, txAction]"
  by (simp add: source_field_def gone_def datapath_objects_def)

definition cancelling :: "('e sys \<Rightarrow> obj option) list \<Rightarrow> 'e sys \<Rightarrow> bool" where
  "cancelling fs s \<longleftrightarrow> waiting (live (map (\<lambda>f. f s) fs)) s \<or> finished s"

lemma live_source_fields:
  assumes "list_all source_field fs"
  shows "live (map (\<lambda>f. f (s\<lparr>env := e, calls := cs\<rparr>)) fs) = live (map (\<lambda>f. f s) fs)"
    and "live (map (\<lambda>f. f (s\<lparr>stopCancelsPending := n\<rparr>)) fs) = live (map (\<lambda>f. f s) fs)"
  using assms by (induction fs) (auto simp: source_field_def)

lemma wp_cancel_source:
  assumes s: "cancelling (f # fs) s" and fields: "list_all source_field (f # fs)"
  shows "wp (cancel_source dk provider f) (\<lambda>_. cancelling fs) s"
proof (cases "f s")
  case None
  then show ?thesis using s by (simp add: cancel_source_def wp_simps cancelling_def)
next
  case (Some x)
  then have w: "waiting (Suc (live (map (\<lambda>f. f s) fs))) s"
    using s fields by (auto simp: cancelling_def finished_def source_field_def)
  let ?s = "\<lambda>e ret. s\<lparr>env := e, calls := calls s @ [CancelIssued x ret]\<rparr>"
  have live: "live (map (\<lambda>f. f (?s e ret)) fs) = live (map (\<lambda>f. f s) fs)" for e ret
    using fields by (simp add: live_source_fields)
  have issued: "cancelling fs (?s e 0)" for e
    unfolding cancelling_def live using w
    by (intro disjI1)
      (auto simp: waiting_def drv_inv_def inv_log balanced_def outstanding_def super_stops_def)
  have refused: "wp (finalize dk provider) (\<lambda>_. cancelling fs) (?s e ret)" if "ret \<noteq> 0" for e ret
  proof (rule wp_mono [OF wp_finalize [of _ "outstanding s + live (map (\<lambda>f. f s) fs)"]])
    fix a t
    assume t: "if outstanding s + live (map (\<lambda>f. f s) fs) = 0 then finished t
        else t = (?s e ret)\<lparr>stopCancelsPending := stopCancelsPending (?s e ret) - 1\<rparr>"
    have "unat (stopCancelsPending s - 1) = outstanding s + live (map (\<lambda>f. f s) fs)"
      using w by (simp add: waiting_def unat_sub word_le_nat_alt)
    then show "cancelling fs t"
      using t w that fields live_source_fields [of fs]
      by (auto simp: cancelling_def waiting_def drv_inv_def inv_log quiet_def balanced_def
        super_stops_def outstanding_def split: if_splits)
  qed (use w that in \<open>simp_all add: waiting_def drv_inv_def inv_log\<close>)
  show ?thesis
    using issued refused
    by (auto simp: cancel_source_def wp_simps Some kIOReturnSuccess_def split: prod.split)
qed

lemma unat_source_count:
  "unat (source_count s) = live (map (\<lambda>f. f s) [rxBackoffTimer, txDataQueue, rxAction, txAction])"
  by (simp add: source_count_def)

lemma wp_finishStop:
  assumes s: "drv_inv None s" "quiet s" "super_stops s = 0" "balanced s" "outstanding s = 0"
  shows "wp (finishStop dk provider) (\<lambda>_. cancelling []) s"
proof (cases "source_count s = 0")
  case True
  have "wp (ReleaseResources dk) (\<lambda>_. wp (super_Stop dk provider) (\<lambda>_. cancelling []))
      (s\<lparr>stopCancelsPending := 0\<rparr>)"
    by (rule wp_release_and_stop)
      (use s in \<open>simp_all add: super_stops_def outstanding_def balanced_def quiet_def cancelling_def\<close>)
  then show ?thesis
    using True unfolding finishStop_def
    by (simp add: wp_bind [of "ReleaseResources dk"] wp_bind [of "gets x" for x]
      wp_bind [of "assign x y" for x y] wp_gets wp_assign)
next
  case False
  let ?s = "s\<lparr>stopCancelsPending := source_count s, calls := calls s @ [Retained]\<rparr>"
  let ?fs = "[rxBackoffTimer, txDataQueue, rxAction, txAction]"
  have "cancelling ?fs ?s"
    using s False unat_source_count [of s] unat_gt_0 [of "source_count s"]
      drv_inv_emit [of None "s\<lparr>stopCancelsPending := source_count s\<rparr>" Retained]
    by (simp add: cancelling_def waiting_def super_stops_def outstanding_def balanced_def quiet_def)
  then have "wp (do {
       cancel_source dk provider rxBackoffTimer;
       cancel_source dk provider txDataQueue;
       cancel_source dk provider rxAction;
       cancel_source dk provider txAction;
       return kIOReturnSuccess }) (\<lambda>_. cancelling []) ?s"
    unfolding wp_bind wp_return
    by (intro wp_cancel_source [THEN wp_mono]) (use source_fields in auto)
  then show ?thesis
    using False unfolding finishStop_def
    by (simp add: wp_bind [of "gets x" for x] wp_bind [of "assign x y" for x y] wp_gets wp_assign
      wp_bind [of "emit x" for x] wp_emit)
qed


lemma wp_Stop:
  assumes s: "drv_inv None s" "super_stops s = 0" "balanced s" "outstanding s = 0"
  shows "wp (Stop dk provider) (\<lambda>_. cancelling []) s"
  unfolding Stop_def wp_bind
proof (rule wp_mono [OF wp_conj [OF keeps_wp [OF quiesceDatapath_keeps s(1)]
      wp_conj [OF quiesceDatapath_silent keeps_wp [OF quiesceDatapath_inert [of s] inert_refl]]]])
  fix a t
  assume t: "drv_inv None t \<and> silent s t \<and> inert s t"
  then show "wp (finishStop dk provider) (\<lambda>_. cancelling []) t"
    using s same_stops_counts [OF inert_same_stops, of s t]
    by (intro wp_finishStop) (simp_all add: silent_def)
qed

text \<open>The block handed to \<open>Cancel\<close>, when it runs.\<close>

definition cancel_handler :: "'e dk \<Rightarrow> obj \<Rightarrow> ('e sys, unit) state" where
  "cancel_handler dk provider = do { emit CancelRan; finalize dk provider }"

lemma wp_cancel_handler:
  assumes s: "cancelling [] s" "0 < outstanding s"
  shows "wp (cancel_handler dk provider) (\<lambda>_ t. cancelling [] t \<and> outstanding t = outstanding s - 1) s"
proof -
  let ?s = "s\<lparr>calls := calls s @ [CancelRan]\<rparr>"
  have w: "waiting 0 s" using s by (auto simp: cancelling_def finished_def)
  then obtain n where n: "outstanding s = Suc n" using s(2) by (cases "outstanding s") auto
  have inv: "drv_inv None ?s" using w drv_inv_emit [of None s CancelRan] by (simp add: waiting_def)
  have out: "outstanding ?s = n" using n by (simp add: outstanding_def)
  have bal: "balanced ?s" using n by (simp add: balanced_def outstanding_def)
  have dec: "unat (stopCancelsPending s - 1) = n"
    using w n by (simp add: waiting_def unat_sub word_le_nat_alt)
  show ?thesis
    unfolding cancel_handler_def wp_bind wp_emit
  proof (rule wp_mono [OF wp_finalize [of _ n]])
    fix a t
    assume t: "if n = 0 then finished t else t = ?s\<lparr>stopCancelsPending := stopCancelsPending ?s - 1\<rparr>"
    show "cancelling [] t \<and> outstanding t = outstanding s - 1"
    proof (cases "n = 0")
      case True
      then show ?thesis using t n by (simp add: cancelling_def finished_def)
    next
      case False
      then show ?thesis
        using t inv out bal dec w n
        by (auto simp: cancelling_def waiting_def quiet_def super_stops_def outstanding_def balanced_def)
    qed
  qed (use w n inv out bal in \<open>simp_all add: waiting_def\<close>)
qed

text \<open>Nothing that runs while the driver waits, or after it has finished, disturbs the stop.\<close>

lemma cancelling_keeps:
  fixes m :: "('e sys, 'a) state"
  assumes "keeps (drv_inv None) m" and "\<And>s0. keeps (silent s0) m" and "\<And>s0. keeps (inert s0) m"
  shows "keeps (cancelling []) m"
proof (rule keepsI)
  fix s :: "'e sys"
  let ?t = "exec_state m s"
  assume s: "cancelling [] s"
  then have pre: "drv_inv None s" "quiet s" by (auto simp: cancelling_def waiting_def finished_def)
  have "silent s s" using pre by (simp add: silent_def)
  then have t: "drv_inv None ?t" "silent s ?t" "inert s ?t"
    using assms pre by (auto intro: keepsD)
  have "gone s \<Longrightarrow> gone ?t"
    using t(2,3) by (auto simp: gone_def silent_def inert_defs datapath_objects_def stack_objects_def)
  then show "cancelling [] ?t"
    using s t same_stops_counts [OF inert_same_stops [OF t(3)]]
    by (auto simp: cancelling_def waiting_def finished_def silent_def inert_defs)
qed

lemmas entry_cancelling =
  cancelling_keeps [OF RxComplete_keeps RxComplete_silent RxComplete_inert]
  cancelling_keeps [OF TxComplete_keeps TxComplete_silent TxComplete_inert]
  cancelling_keeps [OF TxDataAvailable_keeps TxDataAvailable_silent TxDataAvailable_inert]
  cancelling_keeps [OF RxBackoffExpired_keeps RxBackoffExpired_silent RxBackoffExpired_inert]


text \<open>Nor does the stop itself submit or access anything.\<close>

definition same_device :: "'e sys \<Rightarrow> 'e sys \<Rightarrow> bool" where
  "same_device s0 s \<longleftrightarrow> filter device_call (calls s) = filter device_call (calls s0)"

lemma same_device_ext [keeps_intros]: "keeps (same_device s0) (ext f)"
  by (rule keeps_ext) (simp add: same_device_def)

lemma same_device_emit [keeps_intros]: "\<not> device_call c \<Longrightarrow> keeps (same_device s0) (emit c)"
  by (rule keeps_emit) (simp add: same_device_def)

lemma same_device_log [keeps_intros]:
  "(\<And>a. \<not> device_call (c a)) \<Longrightarrow> keeps (same_device s0) (ext_log f c)"
  unfolding ext_log_def by (intro keeps_intros)

lemma cancel_handler_same_device: "keeps (same_device s0) (cancel_handler dk provider)"
  unfolding cancel_handler_def finalize_def super_Stop_def ReleaseResources_split release_stack_def
    releaseDatapath_def return_leftover_def txReturnPacket_def close_interface_def
  by (intro keeps_intros) (simp_all add: same_device_def)

end
