(* ===== verification/Bring_Up.thy ===== *)
theory Bring_Up
  imports Shutdown
begin

text \<open>
  Starting the driver: every stage of \<open>Start\<close> (\<open>SMSC95xxDriver.cpp\<close>) and of \<open>setupDatapath\<close> either
  succeeds into the next stage's precondition or leaves a state from which the failure path can
  take everything down, and \<open>setInterfaceEnable\<close>. A stage is a predicate on states (\<open>starting\<close>,
  \<open>queued\<close>, \<open>piped\<close>, \<open>mapped\<close>, \<open>belled\<close>, \<open>timed\<close>, \<open>ready\<close>).
\<close>

section \<open>Enabling and disabling\<close>

lemma enable_queues_keeps:
  assumes "\<And>q. keeps P (ext_log (dk_setEnable dk q True) (QueueEnabled q True))"
  shows "keeps P (enable_queues dk qs n)"
proof (induction qs arbitrary: n)
  case (Cons q qs)
  then show ?case by (cases q) (auto intro!: keeps_intros assms)
qed (simp add: keeps_return)

lemma disable_queues_keeps:
  assumes "\<And>q. keeps P (ext_log (dk_setEnable dk q False) (QueueEnabled q False))"
  shows "keeps P (disable_queues dk qs)"
proof (induction qs)
  case (Cons q qs)
  then show ?case by (cases q) (auto intro!: keeps_intros assms)
qed (simp add: keeps_skip)

lemma setInterfaceEnable_keeps: "keeps (drv_inv None) (setInterfaceEnable dk enable)"
  unfolding setInterfaceEnable_def enable_failed_def super_setInterfaceEnable_def Let_def
  by (intro keeps_intros enable_queues_keeps disable_queues_keeps armRxRead_keeps; simp)

lemma setInterfaceEnable_inert: "keeps (inert s0) (setInterfaceEnable dk enable)"
  unfolding setInterfaceEnable_def enable_failed_def super_setInterfaceEnable_def Let_def
  by (intro keeps_intros enable_queues_keeps disable_queues_keeps; simp add: inert_defs)

lemma setInterfaceEnable_silent: "keeps (silent s0) (setInterfaceEnable dk enable)"
proof (cases enable)
  case True
  then show ?thesis
    by - (rule keepsI, rule wp_exec, simp add: setInterfaceEnable_def wp_simps silent_def quiet_def)
next
  case False
  then show ?thesis
    unfolding setInterfaceEnable_def super_setInterfaceEnable_def Let_def
    by (simp cong: if_cong, intro keeps_intros disable_queues_keeps) (simp_all add: silent_def quiet_def)
qed

lemma setPromiscuous_quiet: 
  assumes "stopping s"
  shows "run_state (setPromiscuousModeEnable dk enable) s = (kIOReturnOffline, s)"
  using assms by (simp add: setPromiscuousModeEnable_def)

section \<open>Starting\<close>

text \<open>
  What the driver relies on of the platform: an operation that creates an object and succeeds
  leaves one, and an address range obtained with success maps its whole length.
\<close>

definition creates :: "('e, kern_return \<times> obj option) state \<Rightarrow> bool" where
  "creates f \<longleftrightarrow> (\<forall>e. case run_state f e of ((ret, p), e') \<Rightarrow> ret = 0 \<longrightarrow> p \<noteq> None)"

definition maps_whole :: "('e, kern_return \<times> u64 \<times> u8 list option) state \<Rightarrow> bool" where
  "maps_whole f \<longleftrightarrow> (\<forall>e. case run_state f e of ((ret, n, address), e') \<Rightarrow>
     ret = 0 \<longrightarrow> (\<exists>bs. address = Some bs \<and> unat n \<le> length bs))"

definition platform_ok :: "'e dk \<Rightarrow> bool" where
  "platform_ok dk \<longleftrightarrow> (\<forall>n. creates (dk_CreateBuffer dk n)) \<and> (\<forall>k p q. creates (dk_CreateQueue dk k p q))
     \<and> (\<forall>b. maps_whole (dk_GetAddressRange dk b))"

lemma createsD: "creates f \<Longrightarrow> run_state f e = ((0, p), e') \<Longrightarrow> p \<noteq> None"
  by (auto simp: creates_def elim!: allE [of _ e])

lemma maps_wholeD:
  "maps_whole f \<Longrightarrow> run_state f e = ((0, n, address), e') \<Longrightarrow> \<exists>bs. address = Some bs \<and> unat n \<le> length bs"
  by (auto simp: maps_whole_def elim!: allE [of _ e])

text \<open>The address \<open>Start\<close> accepted, if it accepted one.\<close>

definition mac_ok :: "'e sys \<Rightarrow> bool" where
  "mac_ok s \<longleftrightarrow> length (macAddress s) = 6
     \<and> (macValid s \<longrightarrow> smsc95xx_mac_plausible (macAddress s) = MAC_PLAUSIBLE)"

definition unstopped :: "'e sys \<Rightarrow> bool" where
  "unstopped s \<longleftrightarrow> drv_inv None s \<and> mac_ok s \<and> super_stops s = 0 \<and> balanced s \<and> outstanding s = 0"

definition running :: "'e sys \<Rightarrow> bool" where
  "running s \<longleftrightarrow> unstopped s \<and> ctrl_ok s"

text \<open>A stage of \<open>Start\<close>, with the interface object at hand.\<close>

definition staged :: "'e sys \<Rightarrow> bool" where
  "staged s \<longleftrightarrow> unstopped s \<and> interface s \<noteq> None \<and> txPacket s = None
     \<and> tally out_accepted (calls s) \<le> tally out_completed (calls s)"

definition starting :: "'e sys \<Rightarrow> bool" where
  "starting s \<longleftrightarrow> staged s \<and> rxBytes s = None \<and> ctrl_ok s"

lemmas start_defs = starting_def staged_def

lemma no_stop:
  assumes "\<not> stop_call c"
  shows "super_stopped c = 0" "cancel_begun c = 0" "cancel_ran c = 0"
  using assms by (cases c; simp)+

lemma unstopped_log:
  assumes "unstopped s" and "neutral c" "call_ok c" "\<not> stop_call c"
  shows "unstopped (s\<lparr>env := e, calls := calls s @ [c]\<rparr>)"
  using assms no_stop [OF assms(4)] by (simp add: unstopped_def drv_inv_def inv_log mac_ok_def)

lemma unstopped_frame [simp]:
  "unstopped (s\<lparr>env := e\<rparr>) = unstopped s"
  "unstopped (interface_update f s) = unstopped s"
  "unstopped (interfaceOpened_update b s) = unstopped s"
  "unstopped (ctrlBuffer_update f s) = unstopped s"
  "unstopped (ctrlBytes_update bs s) = unstopped s"
  "unstopped (dispatchQueue_update f s) = unstopped s"
  "unstopped (pool_update f s) = unstopped s"
  "unstopped (txSubmit_update f s) = unstopped s"
  "unstopped (rxSubmit_update f s) = unstopped s"
  "unstopped (rxComplete_update f s) = unstopped s"
  "unstopped (txDataQueue_update f s) = unstopped s"
  "unstopped (txDataAvailableAction_update f s) = unstopped s"
  "unstopped (rxAction_update f s) = unstopped s"
  "unstopped (txAction_update f s) = unstopped s"
  "unstopped (rxBackoffTimer_update f s) = unstopped s"
  "unstopped (rxBackoffAction_update f s) = unstopped s"
  "unstopped (pipeOut_update f s) = unstopped s"
  "unstopped (rxBuffer_update f s) = unstopped s"
  "unstopped (txBuffer_update f s) = unstopped s"
  by (simp_all add: unstopped_def mac_ok_def super_stops_def outstanding_def balanced_def)


lemma unstopped_txComplete [simp]:
  assumes "txPacket s = None"
  shows "unstopped (txComplete_update f s) = unstopped s"
proof -
  have "drv_inv None (txComplete_update f s) = drv_inv None s"
    using assms by (simp add: drv_inv_def tx_inv_def)
  then show ?thesis
    by (simp add: unstopped_def mac_ok_def super_stops_def outstanding_def balanced_def)
qed

lemma staged_frame [simp]:
  "staged (s\<lparr>env := e\<rparr>) = staged s"
  "staged (ctrlBuffer_update f s) = staged s"
  "staged (ctrlBytes_update bs s) = staged s"
  "staged (txComplete_update f s) = staged s"
  "staged (interfaceOpened_update b s) = staged s"
  "staged (dispatchQueue_update f s) = staged s"
  "staged (pool_update f s) = staged s"
  "staged (txSubmit_update f s) = staged s"
  "staged (rxSubmit_update f s) = staged s"
  "staged (rxComplete_update f s) = staged s"
  "staged (txDataQueue_update f s) = staged s"
  "staged (txDataAvailableAction_update f s) = staged s"
  "staged (rxAction_update f s) = staged s"
  "staged (txAction_update f s) = staged s"
  "staged (rxBackoffTimer_update f s) = staged s"
  "staged (rxBackoffAction_update f s) = staged s"
  "staged (pipeOut_update f s) = staged s"
  "staged (rxBuffer_update f s) = staged s"
  "staged (txBuffer_update f s) = staged s"
  by (auto simp: staged_def unstopped_txComplete)

lemma starting_frame [simp]:
  "starting (s\<lparr>env := e\<rparr>) = starting s"
  "starting (txComplete_update f s) = starting s"
  "starting (interfaceOpened_update b s) = starting s"
  "starting (dispatchQueue_update f s) = starting s"
  "starting (pool_update f s) = starting s"
  "starting (txSubmit_update f s) = starting s"
  "starting (rxSubmit_update f s) = starting s"
  "starting (rxComplete_update f s) = starting s"
  "starting (txDataQueue_update f s) = starting s"
  "starting (txDataAvailableAction_update f s) = starting s"
  "starting (rxAction_update f s) = starting s"
  "starting (txAction_update f s) = starting s"
  "starting (rxBackoffTimer_update f s) = starting s"
  "starting (rxBackoffAction_update f s) = starting s"
  "starting (pipeOut_update f s) = starting s"
  "starting (rxBuffer_update f s) = starting s"
  "starting (txBuffer_update f s) = starting s"
  by (simp_all add: starting_def ctrl_ok_def)

lemma starting_ext [keeps_intros]: "keeps starting (ext f)"
  by (rule keeps_ext) simp

lemma starting_log [keeps_intros]:
  fixes f :: "('e, 'a) state"
  assumes "\<And>a. neutral (c a)" "\<And>a. call_ok (c a)" "\<And>a. \<not> stop_call (c a)"
  shows "keeps starting (ext_log f c)"
proof (rule keepsI, rule wp_exec)
  fix s :: "'e sys" assume "starting s"
  then show "wp (ext_log f c) (\<lambda>_. starting) s"
    using assms by (simp add: wp_simps start_defs unstopped_log ctrl_ok_def neutral_def split: prod.split)
qed

lemma control_step_unstopped:
  assumes "control_step s t" and "unstopped s"
  shows "unstopped t"
proof -
  obtain e cs b where t: "t = s\<lparr>env := e, calls := calls s @ cs, ctrlBytes := b\<rparr>"
    and cs: "list_all register_call cs"
    using assms(1) by (auto simp: control_step_def)
  have "\<not> stop_call c" if "register_call c" for c using that by (cases c) simp_all
  then have "filter stop_call cs = []" using cs by (auto simp: list_all_iff filter_empty_conv)
  then have "same_stops s t" by (simp add: t same_stops_def)
  then show ?thesis
    using assms(2) control_step_drv_inv [OF assms(1)] same_stops_counts [of s t]
    by (simp add: unstopped_def mac_ok_def t)
qed

lemma control_step_starting:
  assumes "control_step s t" and "staged s \<and> rxBytes s = None"
  shows "staged t \<and> rxBytes t = None"
  using assms control_step_unstopped [OF assms(1)] 
  by (auto simp: control_step_def staged_def tally_register_calls)

lemma starting_control:
  fixes m :: "('e sys, 'a) state"
  assumes "\<And>s0. keeps (control_step s0) m"
  shows "keeps starting m"
proof -
  have "keeps (\<lambda>s. (staged s \<and> rxBytes s = None) \<and> ctrl_ok s) m"
    by (rule control_keeps [OF assms]) (rule control_step_starting)
  moreover have "(starting :: 'e sys \<Rightarrow> bool) = (\<lambda>s. (staged s \<and> rxBytes s = None) \<and> ctrl_ok s)"
    by (rule ext) (simp add: starting_def)
  ultimately show ?thesis by simp
qed

lemma publishProperty_starting [keeps_intros]: "keeps starting (publishProperty dk key val)"
  unfolding publishProperty_def by (intro keeps_intros; simp)

lemma os_object_starting [keeps_intros]: "keeps starting (os_object dk p)"
  unfolding os_object_def by (intro keeps_intros)

lemma create_starting [keeps_intros]:
  "(\<And>s p. starting s \<Longrightarrow> starting (upd (\<lambda>_. p) s)) \<Longrightarrow> keeps starting (create f upd)"
  unfolding create_def by (intro keeps_intros; simp)

lemma acquire_starting [keeps_intros]:
  "(\<And>s p. starting s \<Longrightarrow> starting (upd (\<lambda>_. p) s)) \<Longrightarrow> keeps starting (acquire f upd missing)"
  unfolding acquire_def by (intro keeps_intros; simp)

lemma check_starting [keeps_intros]:
  "keeps starting m \<Longrightarrow> keeps starting k \<Longrightarrow> keeps starting (check m k)"
  unfolding check_def by (intro keeps_intros)

text \<open>Stages that keep \<open>starting\<close> whatever they return.\<close>

lemma start_open_starting: "keeps starting (start_open dk)"
proof (rule keepsI, rule wp_exec)
  fix s :: "'a sys" assume "starting s"
  then show "wp (start_open dk) (\<lambda>_. starting) s"
    by (auto simp: start_open_def wp_simps start_defs ctrl_ok_def unstopped_log split: prod.split)
qed

lemma start_identify_starting: "keeps starting (start_identify dk)"
  unfolding start_identify_def by (intro keeps_intros starting_control)

lemma start_phy_id_starting: "keeps starting (start_phy_id dk)"
  unfolding start_phy_id_def by (intro keeps_intros starting_control [OF miiRead_control])

lemma start_check_phy_starting: "keeps starting (start_check_phy dk)"
  unfolding start_check_phy_def by (intro keeps_intros starting_control [OF miiRead_control])

lemma start_publish_mac_starting: "keeps starting (start_publish_mac dk loaded)"
  unfolding start_publish_mac_def by (intro keeps_intros)

lemma start_init_chip_starting: "keeps starting (start_init_chip dk)"
  unfolding start_init_chip_def by (intro keeps_intros starting_control [OF init_chip_control])


section \<open>The MAC address\<close>

lemma eepromRead_length:
  "yields (\<lambda>(kr, out). \<exists>b. out = Some b \<and> length b = length buf) (eepromRead dk offset (Some buf) len)"
  unfolding eepromRead_def by (rule yields_after [OF eeprom_read_length]) (auto simp: yields_return)

lemma starting_mac:
  assumes "starting s" and "length mac = 6" and "smsc95xx_mac_plausible mac = MAC_PLAUSIBLE"
  shows "starting (s\<lparr>macAddress := mac, macValid := True\<rparr>)"
  using assms
  by (simp add: start_defs unstopped_def ctrl_ok_def mac_ok_def super_stops_def outstanding_def
    balanced_def)

text \<open>How a stage of \<open>Start\<close> may end.\<close>

definition stage_end :: "('e sys \<Rightarrow> bool) \<Rightarrow> kern_return \<Rightarrow> 'e sys \<Rightarrow> bool" where
  "stage_end P ret t \<longleftrightarrow> (if ret = kIOReturnSuccess then P t else unstopped t)"

lemma starting_unstopped: "starting s \<Longrightarrow> unstopped s"
  by (simp add: start_defs)

lemma stage_keeps:
  assumes "keeps starting m" and "starting s"
  shows "wp m (stage_end starting) s"
  using keepsD [OF assms] by (auto simp: wp_run stage_end_def starting_unstopped)

lemma wp_start_mac_store:
  fixes dk :: "'e dk"
  assumes "starting s"
  shows "wp (start_mac_store dk) (stage_end (\<lambda>t. starting t \<and> macValid t)) s"
  unfolding wp_bind start_mac_store_def
proof (rule wp_mono [OF wp_conj [OF yields_wp [OF eepromRead_length]
      keeps_wp [OF starting_control [OF eepromRead_control] assms]]])
  fix a :: "kern_return \<times> u8 list option" and t :: "'e sys"
  assume "(case a of (kr, out) \<Rightarrow> \<exists>b. out = Some b \<and> length b = length (replicate 6 (0 :: u8))) \<and> starting t"
  then show "wp (case a of (ret, mac) \<Rightarrow>
     if ret \<noteq> kIOReturnSuccess then return ret
     else if smsc95xx_mac_plausible (the mac) \<noteq> MAC_PLAUSIBLE then return kIOReturnNotFound
     else do {
       assign macAddress_update (the mac);
       assign macValid_update True;
       return kIOReturnSuccess
     }) (stage_end (\<lambda>t. starting t \<and> macValid t)) t"
    by (auto simp: wp_simps starting_mac stage_end_def starting_unstopped kIOReturnSuccess_def
      kIOReturnNotFound_def split: prod.split)
qed

lemma wp_start_mac_signed:
  assumes "starting s"
  shows "wp (start_mac_signed dk) (stage_end (\<lambda>t. starting t \<and> macValid t)) s"
  unfolding start_mac_signed_def wp_bind [of "eepromRead dk x y z" for x y z]
  by (rule wp_mono [OF keeps_wp [OF starting_control [OF eepromRead_control] assms]])
    (auto simp: wp_return wp_start_mac_store stage_end_def starting_unstopped kIOReturnNotFound_def
      kIOReturnSuccess_def split: prod.split)

lemma wp_start_mac:
  fixes dk :: "'e dk"
  assumes "starting s"
  shows "wp (start_mac dk) (\<lambda>(ret, loaded). stage_end (\<lambda>t. starting t \<and> macValid t) ret) s"
  unfolding start_mac_def wp_bind [of "readRegister x y z" for x y z]
proof (rule wp_mono [OF keeps_wp [OF starting_control [OF readRegister_control] assms]])
  fix a and t :: "'e sys" assume t: "starting t"
  have "wp (do { ret \<leftarrow> start_mac_signed dk; return (ret, True) })
      (\<lambda>(ret, loaded). stage_end (\<lambda>t. starting t \<and> macValid t) ret) t"
    unfolding wp_bind by (rule wp_mono [OF wp_start_mac_signed [OF t]]) (simp add: wp_return)
  then show "wp (case a of (ret, e2p_cmd) \<Rightarrow>
      if ret \<noteq> kIOReturnSuccess then return (ret, False)
      else if the e2p_cmd AND E2P_LOADED = 0 then return (kIOReturnNotFound, False)
      else do { ret \<leftarrow> start_mac_signed dk; return (ret, True) })
      (\<lambda>(ret, loaded). stage_end (\<lambda>t. starting t \<and> macValid t) ret) t"
    using t by (auto simp: wp_return stage_end_def starting_unstopped kIOReturnNotFound_def
      kIOReturnSuccess_def split: prod.split)
qed

section \<open>The control buffer and the queues\<close>

lemma wp_creates:
  assumes "creates f" and "\<And>ret p e. ret = kIOReturnSuccess \<longrightarrow> p \<noteq> None \<Longrightarrow> Q ret (upd (\<lambda>_. p) (s\<lparr>env := e\<rparr>))"
  shows "wp (create f upd) Q s"
  by (auto simp: create_def wp_simps kIOReturnSuccess_def intro!: assms(2) dest: createsD [OF assms(1)]
    split: prod.split)

lemma wp_start_control_buffer:
  assumes "staged s" and "rxBytes s = None" and "platform_ok dk"
  shows "wp (start_control_buffer dk) (stage_end starting) s"
proof -
  have map: "maps_whole (dk_GetAddressRange dk b)" for b
    using assms(3) by (simp add: platform_ok_def)
  have part: "length bs \<ge> 4" if "unat n \<le> length bs" "\<not> (n :: u64) < 4" for n and bs :: "u8 list"
    using that by (simp add: word_less_nat_alt)
  show ?thesis
    unfolding start_control_buffer_def check_def wp_bind [of "create x y" for x y]
    by (rule wp_creates)
      (use assms map part in \<open>auto simp: platform_ok_def wp_simps stage_end_def start_defs ctrl_ok_def
        kIOReturnSuccess_def kIOReturnNoMemory_def dest!: maps_wholeD [OF map] split: prod.splits\<close>)
qed


text \<open>One link of a chain of stages.\<close>

lemma check_stage:
  assumes "wp m (stage_end P) s" and "\<And>t. P t \<Longrightarrow> wp k (stage_end R) t"
  shows "wp (check m k) (stage_end R) s"
  unfolding check_def wp_bind
  by (rule wp_mono [OF assms(1)]) (auto simp: stage_end_def wp_return assms(2) split: if_splits)

lemma stage_done: "P s \<Longrightarrow> wp (return kIOReturnSuccess) (stage_end P) s"
  by (simp add: wp_return stage_end_def)

lemma stage_create:
  assumes "\<And>e p. P (upd (\<lambda>_. p) (s\<lparr>env := e\<rparr>))" and "\<And>t. P t \<Longrightarrow> unstopped t"
  shows "wp (create f upd) (stage_end P) s"
  using assms by (auto simp: create_def wp_simps stage_end_def split: prod.split)

lemma stage_acquire:
  assumes "\<And>e x. P (upd (\<lambda>_. Some x) (s\<lparr>env := e\<rparr>))" and "\<And>e. unstopped (upd (\<lambda>_. None) (s\<lparr>env := e\<rparr>))"
    and "\<And>t. P t \<Longrightarrow> unstopped t" and "missing \<noteq> kIOReturnSuccess"
  shows "wp (acquire f upd missing) (stage_end P) s"
proof -
  have "unstopped (upd (\<lambda>_. p) (s\<lparr>env := e\<rparr>))" for p e using assms by (cases p) auto
  then show ?thesis using assms
    by (auto simp: acquire_def wp_simps stage_end_def split: prod.split)
qed

definition queued :: "'e sys \<Rightarrow> bool" where
  "queued s \<longleftrightarrow> starting s \<and> txSubmit s \<noteq> None"

lemma wp_start_queues:
  assumes "starting s" and "platform_ok dk"
  shows "wp (start_queues dk) (stage_end queued) s"
proof -
  have nores: "kIOReturnNoResources \<noteq> kIOReturnSuccess" by (simp add: ioreturn_defs)
  have queue: "wp (create_queue dk TxSubmission txSubmit_update) (stage_end queued) t" if "starting t" for t
    unfolding create_queue_def wp_bind wp_gets
    by (rule wp_creates)
      (use assms(2) that in \<open>auto simp: platform_ok_def stage_end_def queued_def starting_unstopped\<close>)
  have later: "wp (create_queue dk kind upd) (stage_end queued) t"
    if "queued t" "\<And>p e. queued (upd (\<lambda>_. p) (t\<lparr>env := e\<rparr>))" for kind upd t
    unfolding create_queue_def wp_bind wp_gets
    by (rule stage_create) (use that in \<open>auto simp: queued_def starting_unstopped\<close>)
  have pool: "wp (create (dk_CreatePool dk) pool_update) (stage_end starting) t" if "starting t" for t
    by (rule stage_create) (use that in \<open>auto simp: starting_unstopped\<close>)
  have dispatch: "wp (acquire (dk_CopyDispatchQueue dk) dispatchQueue_update kIOReturnNoResources)
      (stage_end starting) s"
    by (rule stage_acquire) (use assms(1) nores in \<open>auto simp: starting_unstopped\<close>)
  show ?thesis
    unfolding start_queues_def
    by (intro check_stage [OF dispatch] check_stage [OF pool] check_stage [OF queue] check_stage [OF later]
        stage_done) (auto simp: queued_def)
qed

section \<open>The datapath\<close>

text \<open>The stages of \<open>setupDatapath\<close>: with the IN pipe, and with the receive bytes mapped.\<close>

definition piped :: "'e sys \<Rightarrow> bool" where
  "piped s \<longleftrightarrow> queued s \<and> pipeIn s \<noteq> None"

definition mapped :: "'e sys \<Rightarrow> bool" where
  "mapped s \<longleftrightarrow> staged s \<and> ctrl_ok s \<and> txSubmit s \<noteq> None \<and> pipeIn s \<noteq> None"

lemma drv_inv_pipeIn: "rxBytes s = None \<Longrightarrow> drv_inv h (pipeIn_update f s) = drv_inv h s"
  by (simp add: drv_inv_def mem_inv_def)

lemma drv_inv_rxBytes: "pipeIn s \<noteq> None \<Longrightarrow> drv_inv h s \<Longrightarrow> drv_inv h (rxBytes_update f s)"
  by (auto simp: drv_inv_def mem_inv_def)

lemma drv_inv_txBytes: "1526 \<le> length bs \<Longrightarrow> drv_inv h s \<Longrightarrow> drv_inv h (s\<lparr>txBytes := Some bs\<rparr>)"
  by (auto simp: drv_inv_def mem_inv_def)

lemma staged_frame_bytes:
  "rxBytes s = None \<Longrightarrow> staged (pipeIn_update f s) = staged s"
  "pipeIn s \<noteq> None \<Longrightarrow> staged s \<Longrightarrow> staged (rxBytes_update g s)"
  "1526 \<le> length bs \<Longrightarrow> staged s \<Longrightarrow> staged (s\<lparr>txBytes := Some bs\<rparr>)"
  by (simp_all add: staged_def unstopped_def mac_ok_def super_stops_def outstanding_def balanced_def
    drv_inv_pipeIn drv_inv_rxBytes drv_inv_txBytes)

lemma wp_copy_pipe_in:
  assumes "queued s"
  shows "wp (copy_pipe dk ep pipeIn_update) (stage_end piped) s"
proof -
  obtain i where i: "interface s = Some i" using assms by (auto simp: queued_def start_defs)
  have s: "staged s" "rxBytes s = None" "ctrl_ok s" "txSubmit s \<noteq> None"
    using assms by (auto simp: queued_def starting_def)
  have un: "unstopped t" if "staged t" for t :: "'a sys" using that by (simp add: staged_def)
  show ?thesis
    unfolding copy_pipe_def wp_bind wp_gets i deref_def option.case
    by (rule stage_acquire)
      (use s un in \<open>auto simp: piped_def queued_def starting_def staged_frame_bytes ctrl_ok_def ioreturn_defs\<close>)
qed


lemma staged_unstopped: "staged s \<Longrightarrow> unstopped s"
  by (simp add: staged_def)

lemma wp_copy_pipe_out:
  assumes "piped s"
  shows "wp (copy_pipe dk ep pipeOut_update) (stage_end piped) s"
proof -
  obtain i where i: "interface s = Some i" using assms by (auto simp: piped_def queued_def start_defs)
  show ?thesis
    unfolding copy_pipe_def wp_bind wp_gets i deref_def option.case
    by (rule stage_acquire)
      (use assms in \<open>auto simp: piped_def queued_def starting_unstopped ioreturn_defs\<close>)
qed

text \<open>Allocating a buffer, for any invariant the bookkeeping respects.\<close>

lemma wp_allocBuffer:
  assumes M: "M s" and ok: "platform_ok dk"
    and buf: "\<And>t p. M t \<Longrightarrow> M (buf_update (\<lambda>_. p) t)" and env: "\<And>t e. M t \<Longrightarrow> M (t\<lparr>env := e\<rparr>)"
    and rel: "\<And>x. keeps M (ext_log (dk_release dk x) (\<lambda>_. Released x))"
    and un: "\<And>t. M t \<Longrightarrow> unstopped t"
    and bytes: "\<And>t bs. M t \<Longrightarrow> unat len \<le> length bs \<Longrightarrow> P (bytes_update (\<lambda>_. Some bs) t)"
  shows "wp (allocBuffer dk len buf_update buf_sel bytes_update) (stage_end P) s"
proof -
  have release: "wp (do { release_null dk buf_sel buf_update; return ret }) (stage_end P) t"
    if "M t" "ret \<noteq> kIOReturnSuccess" for t ret
  proof -
    have "keeps M (release_null dk buf_sel buf_update)"
      by (rule release_null_keeps) (use buf rel in auto)
    from wp_mono [OF keeps_wp [OF this that(1)]] show ?thesis
      unfolding wp_bind by (auto simp: wp_return stage_end_def that(2) un)
  qed
  have mapping: "wp (do {
       (ret, length, address) \<leftarrow> ext (dk_GetAddressRange dk b);
       if ret \<noteq> kIOReturnSuccess then do { release_null dk buf_sel buf_update; return ret }
       else if length < len then do { release_null dk buf_sel buf_update; return kIOReturnNoMemory }
       else do { assign bytes_update address; return kIOReturnSuccess }
     }) (stage_end P) t" if t: "M t" for b t
  proof -
    obtain ret n address e where r: "run_state (dk_GetAddressRange dk b) (env t) = ((ret, n, address), e)"
      by (metis prod_cases3 surj_pair)
    have "maps_whole (dk_GetAddressRange dk b)" using ok by (simp add: platform_ok_def)
    then have whole: "ret = 0 \<Longrightarrow> \<exists>bs. address = Some bs \<and> unat n \<le> length bs" 
      using r by (metis maps_wholeD)
    have "stage_end P kIOReturnSuccess (bytes_update (\<lambda>_. address) (t\<lparr>env := e\<rparr>))"
      if "ret = 0" "\<not> n < len"
      using whole [OF that(1)] that(2) bytes [OF env [OF t]]
      by (auto simp: stage_end_def word_less_nat_alt not_less)
    then show ?thesis
      using release [OF env [OF t]]
      by (simp add: wp_bind [of "ext f" for f] wp_ext r wp_bind [of "assign x y" for x y] wp_assign wp_return
        kIOReturnSuccess_def kIOReturnNoMemory_def)
  qed
  obtain ret p e where c: "run_state (dk_CreateBuffer dk len) (env s) = ((ret, p), e)"
    by (metis surj_pair)
  have "creates (dk_CreateBuffer dk len)" using ok by (simp add: platform_ok_def)
  then have p: "ret = 0 \<Longrightarrow> p \<noteq> None" using c by (metis createsD)
  have failed: "stage_end P ret (buf_update (\<lambda>_. p) (s\<lparr>env := e\<rparr>))" if "ret \<noteq> 0"
    using that un [OF buf [OF env [OF M]]] by (simp add: stage_end_def kIOReturnSuccess_def)
  show ?thesis
    unfolding allocBuffer_def
    using p failed mapping [OF buf [OF env [OF M]]]
    by (auto simp: wp_bind [of "ext f" for f] wp_ext c wp_bind [of "assign x y" for x y] wp_assign wp_return
        deref_def kIOReturnSuccess_def)
qed

lemma mapped_frame:
  "mapped s \<Longrightarrow> mapped (rxBuffer_update f s)" "mapped s \<Longrightarrow> mapped (txBuffer_update f s)"
  "mapped s \<Longrightarrow> mapped (s\<lparr>env := e\<rparr>)"
  "mapped s \<Longrightarrow> mapped (rxBytes_update g s)"
  "1526 \<le> length bs \<Longrightarrow> mapped s \<Longrightarrow> mapped (s\<lparr>txBytes := Some bs\<rparr>)"
  by (auto simp: mapped_def ctrl_ok_def staged_frame_bytes)

lemma mapped_log [keeps_intros]:
  fixes f :: "('e, 'a) state"
  assumes "\<And>a. neutral (c a)" "\<And>a. call_ok (c a)" "\<And>a. \<not> stop_call (c a)"
  shows "keeps mapped (ext_log f c)"
proof (rule keepsI, rule wp_exec)
  fix s :: "'e sys" assume "mapped s"
  then show "wp (ext_log f c) (\<lambda>_. mapped) s"
    using assms by (simp add: wp_simps mapped_def staged_def unstopped_log ctrl_ok_def neutral_def
      split: prod.split)
qed

lemma mapped_unstopped: "mapped s \<Longrightarrow> unstopped s"
  by (simp add: mapped_def staged_def)

lemma wp_alloc_rx:
  assumes "piped s" and "platform_ok dk"
  shows "wp (allocBuffer dk len rxBuffer_update rxBuffer rxBytes_update) (stage_end mapped) s"
proof (rule wp_allocBuffer [where M = mapped])
  show "mapped s" using assms(1) by (simp add: piped_def queued_def starting_def mapped_def)
qed (use assms(2) in \<open>auto intro: mapped_frame mapped_log mapped_unstopped\<close>)

lemma wp_alloc_tx:
  assumes "mapped s" and "platform_ok dk"
  shows "wp (allocBuffer dk TX_BUFFER_LEN txBuffer_update txBuffer txBytes_update) (stage_end mapped) s"
proof (rule wp_allocBuffer [where M = mapped])
  show "mapped (t\<lparr>txBytes := Some bs\<rparr>)" if "mapped t" "unat TX_BUFFER_LEN \<le> length bs" for t and bs
    using that by (intro mapped_frame) (simp_all add: TX_BUFFER_LEN_def TX_HEADER_LEN_def TX_MAX_FRAME_def)
qed (use assms in \<open>auto intro: mapped_frame mapped_log mapped_unstopped\<close>)

text \<open>With the data queue, and with the timer, that later stages call into.\<close>

definition belled :: "'e sys \<Rightarrow> bool" where
  "belled s \<longleftrightarrow> mapped s \<and> txDataQueue s \<noteq> None"

definition timed :: "'e sys \<Rightarrow> bool" where
  "timed s \<longleftrightarrow> mapped s \<and> rxBackoffTimer s \<noteq> None"

lemma mapped_more_frame [simp]:
  "mapped (s\<lparr>env := e\<rparr>) = mapped s"
  "mapped (rxAction_update f s) = mapped s" "mapped (txAction_update f s) = mapped s"
  "mapped (txDataQueue_update f s) = mapped s" "mapped (txDataAvailableAction_update f s) = mapped s"
  "mapped (rxBackoffTimer_update f s) = mapped s" "mapped (rxBackoffAction_update f s) = mapped s"
  by (simp_all add: mapped_def ctrl_ok_def)

lemmas setup_defs = belled_def timed_def

lemma stage_ext:
  assumes "\<And>e. P (s\<lparr>env := e\<rparr>)" and "\<And>t. P t \<Longrightarrow> unstopped t"
  shows "wp (ext f) (stage_end P) s"
  using assms(1) assms(2) [OF assms(1)] by (auto simp: wp_ext stage_end_def split: prod.split)

lemma wp_doorbell:
  assumes "mapped s"
  shows "wp (do { q \<leftarrow> gets txSubmit; deref q kIOReturnSuccess (\<lambda>q. acquire (dk_CopyDataQueue dk q)
      txDataQueue_update kIOReturnNoResources) }) (stage_end belled) s"
proof -
  obtain q where q: "txSubmit s = Some q" using assms by (auto simp: mapped_def)
  show ?thesis
    unfolding wp_bind wp_gets q deref_def option.case
    by (rule stage_acquire) (use assms in \<open>auto simp: belled_def mapped_unstopped ioreturn_defs\<close>)
qed

lemma wp_timer:
  assumes "belled s"
  shows "wp (do { d \<leftarrow> gets dispatchQueue; acquire (dk_CreateTimer dk d) rxBackoffTimer_update
      kIOReturnNoResources }) (stage_end timed) s"
  unfolding wp_bind wp_gets
  by (rule stage_acquire) (use assms in \<open>auto simp: setup_defs mapped_unstopped ioreturn_defs\<close>)

lemma wp_set_doorbell:
  assumes "belled s"
  shows "wp (do { s \<leftarrow> gets id; deref (txDataQueue s) kIOReturnSuccess
      (\<lambda>q. ext (dk_SetDataAvailableHandler dk q (txDataAvailableAction s))) }) (stage_end belled) s"
proof -
  obtain q where "txDataQueue s = Some q" using assms by (auto simp: belled_def)
  then show ?thesis
    by (simp add: wp_bind wp_gets deref_def)
      (rule stage_ext, use assms in \<open>auto simp: belled_def mapped_unstopped\<close>)
qed

lemma wp_set_timer:
  assumes "timed s"
  shows "wp (do { s \<leftarrow> gets id; deref (rxBackoffTimer s) kIOReturnSuccess
      (\<lambda>t. ext (dk_SetHandler dk t (rxBackoffAction s))) }) (stage_end timed) s"
    and "wp (do { t \<leftarrow> gets rxBackoffTimer; deref t kIOReturnSuccess (\<lambda>t. ext (dk_SetEnable dk t True)) })
      (stage_end timed) s"
proof -
  obtain q where "rxBackoffTimer s = Some q" using assms by (auto simp: timed_def)
  then show "wp (do { s \<leftarrow> gets id; deref (rxBackoffTimer s) kIOReturnSuccess
      (\<lambda>t. ext (dk_SetHandler dk t (rxBackoffAction s))) }) (stage_end timed) s"
    and "wp (do { t \<leftarrow> gets rxBackoffTimer; deref t kIOReturnSuccess (\<lambda>t. ext (dk_SetEnable dk t True)) })
      (stage_end timed) s"
    by (simp_all add: wp_bind wp_gets deref_def)
      (rule stage_ext, use assms in \<open>auto simp: timed_def mapped_unstopped\<close>)+
qed

text \<open>The datapath is ready, and the driver is running.\<close>

definition ready :: "'e sys \<Rightarrow> bool" where
  "ready s \<longleftrightarrow> running s \<and> interface s \<noteq> None \<and> txDatapathReady s"

lemma mapped_ready: "mapped s \<Longrightarrow> ready (s\<lparr>txDatapathReady := True\<rparr>)"
  by (auto simp: ready_def running_def mapped_def staged_def ctrl_ok_def unstopped_def mac_ok_def
    super_stops_def outstanding_def balanced_def drv_inv_def tx_inv_def)

lemma ready_unstopped: "ready s \<Longrightarrow> unstopped s"
  by (simp add: ready_def running_def)

lemma wp_setupDatapath:
  assumes s: "queued s" and ok: "platform_ok dk"
  shows "wp (setupDatapath dk) (stage_end ready) s"
proof -
  have act: "wp (create f rxAction_update) (stage_end mapped) t" "wp (create f txAction_update) (stage_end mapped) t"
    if "mapped t" for f and t :: "'a sys"
    by (rule stage_create; use that in \<open>auto simp: mapped_unstopped\<close>)+
  have bell: "wp (create f txDataAvailableAction_update) (stage_end belled) t" if "belled t" for f and t :: "'a sys"
    by (rule stage_create) (use that in \<open>auto simp: belled_def mapped_unstopped\<close>)
  have backoff: "wp (create f rxBackoffAction_update) (stage_end timed) t" if "timed t" for f and t :: "'a sys"
    by (rule stage_create) (use that in \<open>auto simp: timed_def mapped_unstopped\<close>)
  have fin: "wp (do { assign txDatapathReady_update True; return kIOReturnSuccess }) (stage_end ready) t"
    if "timed t" for t :: "'a sys"
    using that by (simp add: wp_simps stage_end_def timed_def mapped_ready)
  show ?thesis
    unfolding setupDatapath_def
    by (intro check_stage [OF wp_copy_pipe_in [OF s]] check_stage [OF wp_copy_pipe_out]
      check_stage [OF wp_alloc_rx [OF _ ok]] check_stage [OF wp_alloc_tx [OF _ ok]]
      check_stage [OF act(1)] check_stage [OF act(2)] check_stage [OF wp_doorbell]
      check_stage [OF bell] check_stage [OF wp_set_doorbell] check_stage [OF wp_timer]
      check_stage [OF backoff] check_stage [OF wp_set_timer(1)] check_stage [OF wp_set_timer(2)] fin)
qed


section \<open>Who writes the MAC address\<close>

text \<open>Nothing but \<open>start_mac_store\<close>.\<close>

definition mac_is :: "mac_addr \<Rightarrow> bool \<Rightarrow> 'e sys \<Rightarrow> bool" where
  "mac_is m v s \<longleftrightarrow> macAddress s = m \<and> macValid s = v"

lemma mac_is_ext [keeps_intros]: "keeps (mac_is m v) (ext f)"
  by (rule keeps_ext) (simp add: mac_is_def)

lemma mac_is_emit [keeps_intros]: "keeps (mac_is m v) (emit c)"
  by (rule keeps_emit) (simp add: mac_is_def)

lemma mac_is_log [keeps_intros]: "keeps (mac_is m v) (ext_log f c)"
  by (rule keeps_log) (simp add: mac_is_def)

lemma mac_is_deref [keeps_intros]: "(\<And>x. keeps (mac_is m v) (f x)) \<Longrightarrow> keeps (mac_is m v) (deref p d f)"
  unfolding deref_def by (intro keeps_intros) auto

lemma mac_is_control:
  fixes w :: "('e sys, 'a) state"
  assumes "\<And>s0. keeps (control_step s0) w"
  shows "keeps (\<lambda>s. mac_is m v s \<and> ctrl_ok s) w"
  by (rule control_keeps [OF assms]) (auto simp: control_step_def mac_is_def)

lemma mac_is_create [keeps_intros]:
  "(\<And>s p. mac_is m v s \<Longrightarrow> mac_is m v (upd (\<lambda>_. p) s)) \<Longrightarrow> keeps (mac_is m v) (create f upd)"
  unfolding create_def by (intro keeps_intros; simp)

lemma mac_is_acquire [keeps_intros]:
  "(\<And>s p. mac_is m v s \<Longrightarrow> mac_is m v (upd (\<lambda>_. p) s)) \<Longrightarrow> keeps (mac_is m v) (acquire f upd missing)"
  unfolding acquire_def by (intro keeps_intros; simp)

lemma mac_is_check [keeps_intros]:
  "keeps (mac_is m v) w \<Longrightarrow> keeps (mac_is m v) k \<Longrightarrow> keeps (mac_is m v) (check w k)"
  unfolding check_def by (intro keeps_intros)

lemma start_queues_mac: "keeps (mac_is m v) (start_queues dk)"
  unfolding start_queues_def create_queue_def by (intro keeps_intros; simp add: mac_is_def)

lemma setupDatapath_mac: "keeps (mac_is m v) (setupDatapath dk)"
  unfolding setupDatapath_def copy_pipe_def allocBuffer_def
  by (intro keeps_intros; simp add: mac_is_def)

lemma start_publish_mac_mac: "keeps (mac_is m v) (start_publish_mac dk loaded)"
  unfolding start_publish_mac_def os_object_def publishProperty_def by (intro keeps_intros)

lemma ReleaseResources_mac: "keeps (mac_is m v) (ReleaseResources dk)"
  unfolding ReleaseResources_split release_stack_def releaseDatapath_def return_leftover_def
    txReturnPacket_def close_interface_def
  by (intro keeps_intros; simp add: mac_is_def)

lemma finalize_mac: "keeps (mac_is m v) (finalize dk provider)"
  unfolding finalize_def super_Stop_def
  by (intro keeps_intros ReleaseResources_mac; simp add: mac_is_def)

lemma cancel_handler_mac: "keeps (mac_is m v) (cancel_handler dk provider)"
  unfolding cancel_handler_def by (intro keeps_intros finalize_mac)

lemma finishStop_mac: "keeps (mac_is m v) (finishStop dk provider)"
  unfolding finishStop_def cancel_source_def super_Stop_def
  by (intro keeps_intros ReleaseResources_mac finalize_mac; simp add: mac_is_def)

lemma inert_mac: "(\<And>s0. keeps (inert s0) w) \<Longrightarrow> keeps (mac_is m v) w"
  by (auto simp: keeps_def inert_defs mac_is_def)

lemma Stop_mac: "keeps (mac_is m v) (Stop dk provider)"
  unfolding Stop_def by (intro keeps_intros finishStop_mac inert_mac quiesceDatapath_inert)

lemma mac_ok_keeps: "(\<And>m v. keeps (mac_is m v) w) \<Longrightarrow> keeps mac_ok w"
  by (auto simp: keeps_def mac_is_def mac_ok_def)


section \<open>Failing\<close>

lemma wp_quiesce:
  assumes "unstopped s"
  shows "wp (quiesceDatapath dk) (\<lambda>_ t. unstopped t \<and> quiet t) s"
proof -
  have s: "drv_inv None s" using assms by (simp add: unstopped_def)
  show ?thesis
  proof (rule wp_mono [OF wp_conj [OF keeps_wp [OF quiesceDatapath_keeps s]
      wp_conj [OF quiesceDatapath_silent keeps_wp [OF quiesceDatapath_inert [of s] inert_refl]]]])
    fix a t assume t: "drv_inv None t \<and> silent s t \<and> inert s t"
    then show "unstopped t \<and> quiet t"
      using assms same_stops_counts [OF inert_same_stops, of s t]
      by (simp add: unstopped_def silent_def mac_ok_def inert_defs)
  qed
qed

lemma unstopped_parts:
  "unstopped s \<Longrightarrow> mac_ok s"
  "unstopped s \<Longrightarrow> drv_inv None s" "unstopped s \<Longrightarrow> super_stops s = 0" "unstopped s \<Longrightarrow> balanced s"
  "unstopped s \<Longrightarrow> outstanding s = 0"
  by (simp_all add: unstopped_def)

lemma wp_start_fail_stop:
  fixes dk :: "'e dk"
  assumes "unstopped s"
  shows "wp (start_fail dk provider ret) (\<lambda>r t. r = ret \<and> cancelling [] t) s"
  unfolding start_fail_def wp_bind [of "quiesceDatapath dk"]
proof (rule wp_mono [OF wp_quiesce [OF assms]])
  fix a and t :: "'e sys" assume t: "unstopped t \<and> quiet t"
  have "wp (ReleaseResources dk) (\<lambda>_. wp (super_Stop dk provider)
      (\<lambda>_. wp (return ret) (\<lambda>r t. r = ret \<and> cancelling [] t))) t"
    by (rule wp_release_and_stop) (use t in \<open>auto simp: unstopped_parts wp_return cancelling_def\<close>)
  then show "wp (do { ReleaseResources dk; super_Stop dk provider; return ret })
      (\<lambda>r t. r = ret \<and> cancelling [] t) t"
    by (simp only: wp_bind_fun)
qed

lemma wp_start_fail:
  assumes "unstopped s"
  shows "wp (start_fail dk provider ret) (\<lambda>r t. r = ret \<and> cancelling [] t \<and> mac_ok t) s"
proof -
  have "keeps mac_ok (start_fail dk provider ret)"
    unfolding start_fail_def super_Stop_def
    by (rule mac_ok_keeps) (intro keeps_intros ReleaseResources_mac inert_mac quiesceDatapath_inert)
  from keeps_wp [OF this, of s] show ?thesis
    using wp_conj [OF wp_start_fail_stop [OF assms, of dk provider ret]] assms
    by (auto simp: unstopped_def wp_run)
qed

text \<open>How \<open>Start\<close> ends once it has opened the way to fail.\<close>

definition start_end :: "kern_return \<Rightarrow> 'e sys \<Rightarrow> bool" where
  "start_end ret t \<longleftrightarrow> (if ret = kIOReturnSuccess then ready t \<and> macValid t
       \<and> Registered (macAddress t) 0 \<in> set (calls t)
     else cancelling [] t \<and> mac_ok t)"

lemma wp_or_fail:
  fixes dk :: "'e dk"
  assumes "wp m (stage_end P) s" and "\<And>t. P t \<Longrightarrow> wp k start_end t"
  shows "wp (or_fail dk provider m k) start_end s"
  unfolding or_fail_def wp_bind
proof (rule wp_mono [OF assms(1)])
  fix ret and t :: "'e sys" assume t: "stage_end P ret t"
  have "wp (start_fail dk provider ret) start_end t" if "ret \<noteq> kIOReturnSuccess"
    using t that
    by (intro wp_mono [OF wp_start_fail]) (auto simp: stage_end_def start_end_def)
  then show "wp (if ret \<noteq> kIOReturnSuccess then start_fail dk provider ret else k) start_end t"
    using t assms(2) by (simp add: stage_end_def)
qed

lemma ready_log:
  assumes "ready s" and "neutral c" "call_ok c" "\<not> stop_call c"
  shows "ready (s\<lparr>env := e, calls := calls s @ [c]\<rparr>)"
  using assms by (simp add: ready_def running_def unstopped_log ctrl_ok_def)

lemma wp_start_register:
  fixes dk :: "'e dk"
  assumes "ready s" and "macValid s"
  shows "wp (start_register dk provider) start_end s"
proof -
  have fail: "wp (do { quiesceDatapath dk; finishStop dk provider; return ret }) start_end t"
    if "ready t" "ret \<noteq> kIOReturnSuccess" for ret and t :: "'e sys"
  proof -
    have "wp (finishStop dk provider) (\<lambda>_. wp (return ret) start_end) u" if "unstopped u \<and> quiet u" for u :: "'e sys"
      by (rule wp_mono [OF wp_conj [OF wp_finishStop keeps_wp [OF mac_ok_keeps [OF finishStop_mac]]]])
        (use that \<open>ret \<noteq> kIOReturnSuccess\<close> in \<open>auto simp: unstopped_parts wp_return start_end_def\<close>)
    then have "wp (quiesceDatapath dk) (\<lambda>_. wp (finishStop dk provider) (\<lambda>_. wp (return ret) start_end)) t"
      by (intro wp_mono [OF wp_quiesce [OF ready_unstopped [OF that(1)]]])
    then show ?thesis by (simp only: wp_bind_fun)
  qed
  have registered: "ready (s\<lparr>env := e, calls := calls s @ [Registered m ret]\<rparr>)" for e m ret
    using assms(1) by (rule ready_log) simp_all
  have ok: "start_end kIOReturnSuccess (t\<lparr>env := e\<rparr>)"
    if "ready t" "macValid t" "Registered (macAddress t) 0 \<in> set (calls t)" for e and t :: "'e sys"
    using that by (simp add: start_end_def ready_def running_def ctrl_ok_def)
  have linked: "wp (do { ext_log (dk_reportLinkStatus dk True) (LinkReported True);
       ext (dk_RegisterService dk); return kIOReturnSuccess }) start_end t"
    if "ready t" "macValid t" "Registered (macAddress t) 0 \<in> set (calls t)" for t :: "'e sys"
  proof -
    have "ready (t\<lparr>env := e, calls := calls t @ [LinkReported True r]\<rparr>)" for e r
      using that(1) by (rule ready_log) simp_all
    from ok [OF this] that(2,3) show ?thesis by (auto simp: wp_simps split: prod.split)
  qed
  show ?thesis
    unfolding start_register_def wp_bind [of "gets x" for x] wp_gets
    using registered fail [OF registered] linked [OF registered] assms(2)
    by (simp add: wp_bind [of "ext_log x y" for x y] wp_ext_log kIOReturnSuccess_def split: prod.split)
qed

text \<open>Before \<open>Start\<close> has anything to give back.\<close>

definition untouched :: "'e sys \<Rightarrow> bool" where
  "untouched s \<longleftrightarrow> drv_inv None s \<and> mac_ok s \<and> gone s \<and> balanced s \<and> outstanding s = 0 \<and> super_stops s \<le> 1
     \<and> \<not> stopping s"

lemma initial_staged:
  "drv_inv None (initial_sys e)" "mac_ok (initial_sys e)" "gone (initial_sys e)"
  "calls (initial_sys e) = []" "txPacket (initial_sys e) = None" "rxBytes (initial_sys e) = None"
  by (simp_all add: initial_sys_def zero_ivars_def ivars.defs drv_inv_def inv_defs mac_ok_def gone_def
    datapath_objects_def stack_objects_def)

section \<open>Start as a whole\<close>

lemma stage_mac:
  assumes "wp w (stage_end P) s" and "\<And>m v. keeps (mac_is m v) w" and "macValid s"
  shows "wp w (stage_end (\<lambda>t. P t \<and> macValid t)) s"
proof -
  have "macValid (exec_state w s)"
    using keepsD [OF assms(2), of "macAddress s" "macValid s" s] assms(3) by (simp add: mac_is_def)
  then show ?thesis using assms(1) by (auto simp: wp_run stage_end_def)
qed

lemma wp_start_init_chip:
  assumes "starting s" and "macValid s"
  shows "wp (start_init_chip dk) (stage_end (\<lambda>t. starting t \<and> macValid t)) s"
proof -
  have k: "keeps (\<lambda>s. mac_is m v s \<and> ctrl_ok s) (start_init_chip dk)" for m v
    unfolding start_init_chip_def by (intro keeps_intros mac_is_control init_chip_control)
  have "macValid (exec_state (start_init_chip dk) s)"
    using keepsD [OF k, of "macAddress s" "macValid s" s] assms by (auto simp: mac_is_def starting_def)
  then show ?thesis
    using stage_keeps [OF start_init_chip_starting assms(1), of dk] by (auto simp: wp_run stage_end_def)
qed

lemma wp_start_tail:
  fixes dk :: "'e dk"
  assumes ok: "platform_ok dk" and s: "starting s" "macValid s"
  shows "wp (do {
      start_publish_mac dk loaded;
      or_fail dk provider (start_init_chip dk) (
      or_fail dk provider (start_queues dk) (
      or_fail dk provider (setupDatapath dk) (
      start_register dk provider))) }) start_end s"
  unfolding wp_bind [of "start_publish_mac dk loaded"]
proof (rule wp_mono [OF wp_conj [OF keeps_wp [OF start_publish_mac_starting s(1)]
      keeps_wp [OF start_publish_mac_mac, of "macAddress s" "macValid s" s]]])
  show "mac_is (macAddress s) (macValid s) s" by (simp add: mac_is_def)
  fix a and t :: "'e sys" assume "starting t \<and> mac_is (macAddress s) (macValid s) t"
  then have t: "starting t" "macValid t" using s(2) by (simp_all add: mac_is_def)
  have queues: "wp (start_queues dk) (stage_end (\<lambda>t. queued t \<and> macValid t)) u"
    if "starting u \<and> macValid u" for u
    by (rule stage_mac [OF wp_start_queues [OF _ ok] start_queues_mac]) (use that in auto)
  have stp: "wp (setupDatapath dk) (stage_end (\<lambda>t. ready t \<and> macValid t)) u"
    if "queued u \<and> macValid u" for u
    by (rule stage_mac [OF wp_setupDatapath [OF _ ok] setupDatapath_mac]) (use that in auto)
  show "wp (or_fail dk provider (start_init_chip dk) (or_fail dk provider (start_queues dk) (
      or_fail dk provider (setupDatapath dk) (start_register dk provider)))) start_end t"
    by (intro wp_or_fail [OF wp_start_init_chip [OF t]] wp_or_fail [OF queues] wp_or_fail [OF stp]
      wp_start_register) auto
qed

lemma wp_start_chain:
  fixes dk :: "'e dk"
  assumes ok: "platform_ok dk" and s: "starting s"
  shows "wp (or_fail dk provider (start_open dk) (
     or_fail dk provider (start_control_buffer dk) (
     or_fail dk provider (start_identify dk) (
     or_fail dk provider (start_phy_id dk) (
     or_fail dk provider (start_check_phy dk) (do {
     (ret, eeprom_loaded) \<leftarrow> start_mac dk;
     or_fail dk provider (return ret) (do {
     start_publish_mac dk eeprom_loaded;
     or_fail dk provider (start_init_chip dk) (
     or_fail dk provider (start_queues dk) (
     or_fail dk provider (setupDatapath dk) (
     start_register dk provider))) }) })))))) start_end s"
proof -
  have buffer: "wp (start_control_buffer dk) (stage_end starting) t" if "starting t" for t
    using that by (intro wp_start_control_buffer ok) (simp_all add: starting_def)
  have mac: "wp (start_mac dk) (\<lambda>a. wp (case a of (ret, eeprom_loaded) \<Rightarrow>
      or_fail dk provider (return ret) (do {
        start_publish_mac dk eeprom_loaded;
        or_fail dk provider (start_init_chip dk) (
        or_fail dk provider (start_queues dk) (
        or_fail dk provider (setupDatapath dk) (
        start_register dk provider))) })) start_end) t" if "starting t" for t
  proof (rule wp_mono [OF wp_start_mac [OF that]])
    fix a :: "kern_return \<times> bool" and u :: "'e sys"
    assume "(case a of (ret, loaded) \<Rightarrow> stage_end (\<lambda>t. starting t \<and> macValid t) ret) u"
    then show "wp (case a of (ret, eeprom_loaded) \<Rightarrow>
      or_fail dk provider (return ret) (do {
        start_publish_mac dk eeprom_loaded;
        or_fail dk provider (start_init_chip dk) (
        or_fail dk provider (start_queues dk) (
        or_fail dk provider (setupDatapath dk) (
        start_register dk provider))) })) start_end u"
      by (auto simp: wp_return split: prod.splits
        intro!: wp_or_fail [where P = "\<lambda>t. starting t \<and> macValid t"] wp_start_tail ok)
  qed
  show ?thesis
    by (intro wp_or_fail [OF stage_keeps [OF start_open_starting s]] wp_or_fail [OF buffer]
      wp_or_fail [OF stage_keeps [OF start_identify_starting]]
      wp_or_fail [OF stage_keeps [OF start_phy_id_starting]]
      wp_or_fail [OF stage_keeps [OF start_check_phy_starting]])
      (simp_all add: wp_bind [of "start_mac dk"] mac)
qed

lemma wp_Start:
  fixes dk :: "'e dk"
  assumes ok: "platform_ok dk"
  shows "wp (Start dk provider) (\<lambda>ret t. start_end ret t \<or> ret \<noteq> kIOReturnSuccess \<and> untouched t)
    (initial_sys e)"
proof -
  let ?s = "\<lambda>e' cs itf. (initial_sys e)\<lparr>env := e', calls := cs, interface := itf\<rparr>"
  have refused: "untouched (?s e' cs None)" if "cs \<in> {[SuperStarted r], [SuperStarted r, SuperStopped q]}"
    for e' cs r q
    using that
    by (auto simp: untouched_def drv_inv_def inv_defs mac_ok_def gone_def datapath_objects_def
      stack_objects_def balanced_def outstanding_def super_stops_def initial_sys_def zero_ivars_def ivars.defs)
  have refused': "untouched ((initial_sys e)\<lparr>env := e', calls := [SuperStarted r]\<rparr>)" for e' r
    by (auto simp: untouched_def drv_inv_def inv_defs mac_ok_def gone_def datapath_objects_def
      stack_objects_def balanced_def outstanding_def super_stops_def initial_sys_def zero_ivars_def ivars.defs)
  have go: "starting (?s e' [SuperStarted r] (Some i))" for e' r i
    by (auto simp: starting_def staged_def unstopped_def drv_inv_def inv_defs mac_ok_def
      balanced_def outstanding_def super_stops_def ctrl_ok_def initial_sys_def zero_ivars_def ivars.defs)
  obtain ret e1 where start: "run_state (dk_super_Start dk provider) e = (ret, e1)" by (metis surj_pair)
  obtain itf e2 where cast: "run_state (dk_cast_interface dk provider) e1 = (itf, e2)" by (metis surj_pair)
  have order: "(initial_sys e)\<lparr>calls := cs, env := e', interface := p\<rparr> = ?s e' cs p" for e' cs p
    by (simp add: initial_sys_def zero_ivars_def ivars.defs)
  have init: "env (initial_sys e) = e" "calls (initial_sys e) = []"
    by (simp_all add: initial_sys_def ivars.defs)
  show ?thesis
  proof (cases "ret = kIOReturnSuccess \<and> itf \<noteq> None")
    case True
    then obtain i where i: "itf = Some i" by blast
    have ret: "ret = kIOReturnSuccess" using True by simp
    show ?thesis
      unfolding Start_def
      apply (simp only: wp_bind [of "ext_log f c" for f c] wp_ext_log init start prod.case ret simp_thms if_False if_True)
      apply (simp only: wp_bind [of "ext f" for f] wp_ext wp_bind [of "assign x y" for x y] wp_assign)
      apply (simp add: cast i)
      apply (simp only: order append.simps)
      apply (rule wp_mono [OF wp_start_chain [OF ok go]])
      apply simp
      done
  next
    case False
    then consider "ret \<noteq> kIOReturnSuccess" | "ret = kIOReturnSuccess" "itf = None" by blast
    then show ?thesis
    proof cases
      case 1
      then show ?thesis
        using refused' by (simp add: Start_def wp_simps start init)
    next
      case 2
      have "untouched ((initial_sys e)\<lparr>calls := [SuperStarted r, SuperStopped q], env := e', interface := None\<rparr>)"
        "untouched ((initial_sys e)\<lparr>interface := None, env := e', calls := [SuperStarted r, SuperStopped q]\<rparr>)"
        for r q e'
        using refused [of "[SuperStarted r, SuperStopped q]" r q e']
        by (simp_all add: initial_sys_def zero_ivars_def ivars.defs)
      then show ?thesis
        using 2 by (auto simp: Start_def wp_simps start cast init super_Stop_def ioreturn_defs split: prod.split)
    qed
  qed
qed

end
