(* ===== verification/Driver.thy ===== *)
theory Driver
  imports Bring_Up
begin

text \<open>
  The driver as a state machine. DriverKit runs every entry point of the class on one serial queue,
  so a step is one entry point from its first line to its last, in whatever order the system calls
  them: \<open>Start\<close>, the transmit doorbell, the two completions, the backoff timer, the interface and
  promiscuous switches, \<open>Stop\<close>, and the cancellation handlers that \<open>Stop\<close> leaves behind, in any order
  and between any other steps. The outside may change its own state at any time, and the device may
  fill the receive buffer.
\<close>

section \<open>Runs of a transition system\<close>

inductive reaches :: "('s \<Rightarrow> bool) \<Rightarrow> ('s \<Rightarrow> 's \<Rightarrow> bool) \<Rightarrow> 's \<Rightarrow> bool" for init step where
  first: "init s \<Longrightarrow> reaches init step s"
| onward: "reaches init step s \<Longrightarrow> step s t \<Longrightarrow> reaches init step t"

text \<open>What a client of a transition system may use: an invariant of the reachable states.\<close>

locale invariant_system =
  fixes init :: "'s \<Rightarrow> bool" and step :: "'s \<Rightarrow> 's \<Rightarrow> bool" and inv :: "'s \<Rightarrow> bool"
  assumes init_inv: "init s \<Longrightarrow> inv s"
    and step_inv: "inv s \<Longrightarrow> step s t \<Longrightarrow> inv t"
begin

lemma reaches_inv: "reaches init step s \<Longrightarrow> inv s"
  by (induction rule: reaches.induct) (auto intro: init_inv step_inv)

lemma star_inv: "inv s \<Longrightarrow> step\<^sup>*\<^sup>* s t \<Longrightarrow> inv t"
  by (rotate_tac, induction rule: rtranclp_induct) (auto intro: step_inv)

end

section \<open>The steps of the driver\<close>

datatype phase = Fresh | Started | Stopped | Refused

text \<open>Where \<open>Start\<close> leads: a driver that refused before it acquired anything gets no more calls.\<close>

definition after_start :: "kern_return \<Rightarrow> 'e sys \<Rightarrow> phase" where
  "after_start ret s = (if ret = kIOReturnSuccess then Started else if stopping s then Stopped else Refused)"

text \<open>The device has written \<open>bs\<close> over the receive buffer.\<close>

definition fill_rx :: "u8 list \<Rightarrow> 'e sys \<Rightarrow> 'e sys" where
  "fill_rx bs s = rxBytes_update (map_option (\<lambda>b. overlay b 0 (take (length b) bs))) s"

text \<open>The entry points that may be called in either phase of a driver that has started.\<close>

datatype entry = Doorbell | RxDone kern_return u32 "u8 list" | TxDone kern_return u32 | BackoffFired
  | EnableInterface bool | Promiscuous bool

fun enter :: "'e dk \<Rightarrow> entry \<Rightarrow> 'e sys \<Rightarrow> 'e sys" where
  "enter dk Doorbell s = exec_state (TxDataAvailable dk) s"
| "enter dk (RxDone status n bs) s = exec_state (RxComplete dk status n) (fill_rx bs s)"
| "enter dk (TxDone status n) s = exec_state (TxComplete dk status n) s"
| "enter dk BackoffFired s = exec_state (RxBackoffExpired dk) s"
| "enter dk (EnableInterface b) s = exec_state (setInterfaceEnable dk b) s"
| "enter dk (Promiscuous b) s = exec_state (setPromiscuousModeEnable dk b) s"

inductive driver_step :: "'e dk \<Rightarrow> obj \<Rightarrow> phase \<times> 'e sys \<Rightarrow> phase \<times> 'e sys \<Rightarrow> bool" for dk provider where
  start: "run_state (Start dk provider) s = (ret, t) \<Longrightarrow>
    driver_step dk provider (Fresh, s) (after_start ret t, t)"
| entry: "p \<in> {Started, Stopped} \<Longrightarrow> driver_step dk provider (p, s) (p, enter dk e s)"
| stop: "driver_step dk provider (Started, s) (Stopped, exec_state (Stop dk provider) s)"
| cancelled: "0 < outstanding s \<Longrightarrow>
    driver_step dk provider (Stopped, s) (Stopped, exec_state (cancel_handler dk provider) s)"
| outside: "driver_step dk provider (p, s) (p, s\<lparr>env := e\<rparr>)"

inductive_cases driver_stepE: "driver_step dk provider c d"
inductive_simps step_from_stopped: "driver_step dk provider (Stopped, s) d"
inductive_simps step_from_refused: "driver_step dk provider (Refused, s) d"

definition fresh :: "phase \<times> 'e sys \<Rightarrow> bool" where
  "fresh c \<longleftrightarrow> (\<exists>e. c = (Fresh, initial_sys e))"

abbreviation reachable :: "'e dk \<Rightarrow> obj \<Rightarrow> phase \<times> 'e sys \<Rightarrow> bool" where
  "reachable dk provider \<equiv> reaches fresh (driver_step dk provider)"

section \<open>The invariant\<close>

fun sys_inv :: "phase \<times> 'e sys \<Rightarrow> bool" where
  "sys_inv (Fresh, s) = (\<exists>e. s = initial_sys e)"
| "sys_inv (Started, s) = (running s \<and> macValid s)"
| "sys_inv (Stopped, s) = (cancelling [] s \<and> mac_ok s)"
| "sys_inv (Refused, s) = untouched s"

lemma fill_rx_inv:
  "drv_inv h s \<Longrightarrow> drv_inv h (fill_rx bs s)"
  by (simp add: fill_rx_def drv_inv_def mem_inv_def)

lemma fill_rx_keeps_running: "running s \<Longrightarrow> running (fill_rx bs s)"
  using fill_rx_inv [of None s bs]
  by (simp add: running_def unstopped_def ctrl_ok_def mac_ok_def super_stops_def outstanding_def
    balanced_def fill_rx_def)

lemma fill_rx_keeps_cancelling:
  assumes "cancelling [] s"
  shows "cancelling [] (fill_rx bs s)"
proof (cases "finished s")
  case True
  then have "fill_rx bs s = s" by (simp add: fill_rx_def finished_def gone_def)
  then show ?thesis using assms by simp
next
  case False
  then have "waiting 0 s" using assms by (simp add: cancelling_def)
  then have "waiting 0 (fill_rx bs s)"
    using fill_rx_inv [of None s bs]
    by (simp add: waiting_def quiet_def super_stops_def outstanding_def balanced_def fill_rx_def)
  then show ?thesis by (simp add: cancelling_def)
qed

lemma running_keeps:
  fixes m :: "('e sys, 'a) state"
  assumes "keeps (drv_inv None) m" and "\<And>s0. keeps (inert s0) m"
  shows "keeps running m"
proof (rule keepsI)
  fix s :: "'e sys" let ?t = "exec_state m s"
  assume s: "running s"
  have t: "drv_inv None ?t" "inert s ?t"
    by (rule keepsD [OF assms(1)], use s in \<open>simp add: running_def unstopped_def\<close>)
      (rule keepsD [OF assms(2) inert_refl])
  then show "running ?t"
    using s same_stops_counts [OF inert_same_stops [OF t(2)]]
    by (simp add: running_def unstopped_def mac_ok_def ctrl_ok_def inert_defs)
qed

lemmas entry_running =
  running_keeps [OF RxComplete_keeps RxComplete_inert]
  running_keeps [OF TxComplete_keeps TxComplete_inert]
  running_keeps [OF TxDataAvailable_keeps TxDataAvailable_inert]
  running_keeps [OF RxBackoffExpired_keeps RxBackoffExpired_inert]
  running_keeps [OF setInterfaceEnable_keeps setInterfaceEnable_inert]

lemmas entry_mac =
  inert_mac [OF RxComplete_inert] inert_mac [OF TxComplete_inert] inert_mac [OF TxDataAvailable_inert]
  inert_mac [OF RxBackoffExpired_inert] inert_mac [OF setInterfaceEnable_inert]

lemma setPromiscuous_running:
  assumes "running s"
  shows "running (exec_state (setPromiscuousModeEnable dk b) s)"
proof -
  have "control_step s (exec_state (setPromiscuousModeEnable dk b) s)"
    using assms by (intro keepsD [OF setPromiscuousModeEnable_control control_step_refl]) (simp add: running_def)
  then show ?thesis
    using assms control_step_unstopped control_step_ctrl_ok by (auto simp: running_def)
qed

lemma setPromiscuous_mac:
  assumes "ctrl_ok s"
  shows "mac_is m v s \<Longrightarrow> mac_is m v (exec_state (setPromiscuousModeEnable dk b) s)"
  using keepsD [OF mac_is_control [OF setPromiscuousModeEnable_control], of m v s dk b] assms by simp

lemma mac_valid_keeps: "(\<And>m v. keeps (mac_is m v) w) \<Longrightarrow> keeps macValid w"
  by (auto simp: keeps_def mac_is_def)

lemmas entry_valid = entry_mac [THEN mac_valid_keeps]

lemma enter_running: "running s \<Longrightarrow> macValid s \<Longrightarrow> running (enter dk e s) \<and> macValid (enter dk e s)"
proof (cases e)
  case (Promiscuous b)
  assume "running s" "macValid s"
  then show ?thesis
    using Promiscuous setPromiscuous_running setPromiscuous_mac [of s "macAddress s" "macValid s" dk b]
    by (simp add: mac_is_def running_def)
next
  case (RxDone status n bs)
  assume "running s" "macValid s"
  then have "running (fill_rx bs s)" "macValid (fill_rx bs s)"
    by (simp_all add: fill_rx_keeps_running) (simp add: fill_rx_def)
  then show ?thesis
    by (simp add: RxDone keepsD [OF entry_running(1)] keepsD [OF entry_valid(1)])
qed (simp_all add: keepsD [OF entry_running(2)] keepsD [OF entry_running(3)] keepsD [OF entry_running(4)]
    keepsD [OF entry_running(5)] keepsD [OF entry_valid(2)] keepsD [OF entry_valid(3)]
    keepsD [OF entry_valid(4)] keepsD [OF entry_valid(5)])


lemma enter_cancelling:
  assumes s: "cancelling [] s" "mac_ok s"
  shows "cancelling [] (enter dk e s) \<and> mac_ok (enter dk e s)"
proof (cases e)
  case (Promiscuous b)
  have "stopping s" using s(1) by (auto simp: cancelling_def waiting_def finished_def quiet_def)
  then show ?thesis using s by (simp add: Promiscuous setPromiscuous_quiet)
next
  case (RxDone status n bs)
  have "cancelling [] (fill_rx bs s)" "mac_ok (fill_rx bs s)"
    using s by (simp_all add: fill_rx_keeps_cancelling) (simp add: fill_rx_def mac_ok_def)
  then show ?thesis
    by (simp add: RxDone keepsD [OF entry_cancelling(1)] keepsD [OF mac_ok_keeps [OF entry_mac(1)]])
qed (simp_all add: s keepsD [OF entry_cancelling(2)] keepsD [OF entry_cancelling(3)]
    keepsD [OF entry_cancelling(4)] keepsD [OF mac_ok_keeps [OF entry_mac(2)]]
    keepsD [OF mac_ok_keeps [OF entry_mac(3)]] keepsD [OF mac_ok_keeps [OF entry_mac(4)]]
    keepsD [OF mac_ok_keeps [OF entry_mac(5)]]
    keepsD [OF cancelling_keeps [OF setInterfaceEnable_keeps setInterfaceEnable_silent setInterfaceEnable_inert]])

lemma Stop_inv:
  assumes "running s"
  shows "cancelling [] (exec_state (Stop dk provider) s) \<and> mac_ok (exec_state (Stop dk provider) s)"
proof
  have s: "drv_inv None s" "super_stops s = 0" "balanced s" "outstanding s = 0" "mac_ok s"
    using assms by (simp_all add: running_def unstopped_def)
  show "cancelling [] (exec_state (Stop dk provider) s)"
    using wp_Stop [OF s(1-4)] by (simp add: wp_run)
  show "mac_ok (exec_state (Stop dk provider) s)"
    by (rule keepsD [OF mac_ok_keeps [OF Stop_mac] s(5)])
qed

lemma cancelled_inv:
  assumes "cancelling [] s" "mac_ok s" "0 < outstanding s"
  shows "cancelling [] (exec_state (cancel_handler dk provider) s)
    \<and> mac_ok (exec_state (cancel_handler dk provider) s)"
  using wp_cancel_handler [OF assms(1,3)] keepsD [OF mac_ok_keeps [OF cancel_handler_mac] assms(2)]
  by (simp add: wp_run)

lemma cancelling_stopping: "cancelling fs s \<Longrightarrow> stopping s"
  by (auto simp: cancelling_def waiting_def finished_def quiet_def)

lemma env_inv: "sys_inv (p, s) \<Longrightarrow> sys_inv (p, s\<lparr>env := e\<rparr>)"
proof (cases p)
  case Fresh
  assume "sys_inv (p, s)"
  then obtain e' where "s = initial_sys e'" using Fresh by auto
  then have "s\<lparr>env := e\<rparr> = initial_sys e" by (simp add: initial_sys_def ivars.defs)
  then show ?thesis using Fresh by auto
qed (auto simp: running_def ctrl_ok_def cancelling_def waiting_def finished_def quiet_def super_stops_def
    outstanding_def balanced_def mac_ok_def untouched_def)

lemma start_inv:
  assumes "platform_ok dk" and "run_state (Start dk provider) (initial_sys e) = (ret, t)"
  shows "sys_inv (after_start ret t, t)"
proof -
  have "start_end ret t \<or> ret \<noteq> kIOReturnSuccess \<and> untouched t"
    by (rule wp_runD [OF wp_Start [OF assms(1)] assms(2)])
  then show ?thesis
    by (auto simp: start_end_def after_start_def ready_def untouched_def dest: cancelling_stopping
      split: if_splits)
qed

lemma driver_step_inv:
  assumes "driver_step dk provider c d" and "platform_ok dk" and "sys_inv c"
  shows "sys_inv d"
  using assms
proof (induction rule: driver_step.induct)
  case (start s ret t)
  then show ?case using start_inv by fastforce
next
  case (entry p s e)
  then show ?case using enter_running [of s dk e] enter_cancelling [of s dk e] by auto
next
  case (stop s)
  then show ?case by (simp add: Stop_inv)
next
  case (cancelled s)
  then show ?case by (simp add: cancelled_inv)
next
  case (outside p s e)
  then show ?case by (intro env_inv)
qed

interpretation driver: invariant_system fresh "driver_step dk provider" "\<lambda>c. platform_ok dk \<longrightarrow> sys_inv c"
  for dk :: "'e dk" and provider
proof
  show "fresh c \<Longrightarrow> platform_ok dk \<longrightarrow> sys_inv c" for c :: "phase \<times> 'e sys" by (auto simp: fresh_def)
  show "platform_ok dk \<longrightarrow> sys_inv d" if "platform_ok dk \<longrightarrow> sys_inv c" "driver_step dk provider c d" for c d
    using that driver_step_inv by blast
qed

lemma reachable_inv: "platform_ok dk \<Longrightarrow> reachable dk provider c \<Longrightarrow> sys_inv c"
  using driver.reaches_inv by blast

end
