(* ===== verification/Bench.thy ===== *)
theory Bench
  imports Driver
begin

text \<open>
  A concrete outside, used by the witnesses: every operation succeeds, the device answers register
  accesses as a LAN9500A with the EEPROM \<open>A5 02 02 02 02 02 02 ...\<close> would, the transmit queue
  holds a number of frames, and the packet pool never runs dry. The contents of the two mapped
  transfer buffers are parameters.
\<close>

record bench =
  e2p_cmd :: u32
  mac_cr :: u32
  backlog :: nat
  serial :: nat
  clock :: u64

definition bench_read :: "bench \<Rightarrow> u16 \<Rightarrow> u32" where
  "bench_read b reg =
     (if reg = REG_E2P_CMD then E2P_LOADED
      else if reg = REG_E2P_DATA then (if e2p_cmd b AND E2P_ADDR_MASK = 0 then 0xA5 else 0x02)
      else if reg = REG_MAC_CR then mac_cr b
      else 0)"

definition bench_request ::
    "u8 \<Rightarrow> u16 \<Rightarrow> u8 list \<Rightarrow> bench \<Rightarrow> (kern_return \<times> u8 list \<times> u16) \<times> bench" where
  "bench_request type reg bs b =
     (if type = REQUEST_IN then ((0, le32_bytes (bench_read b reg), 4), b)
      else let v = le32_word (bs ! 0) (bs ! 1) (bs ! 2) (bs ! 3)
        in ((0, bs, 4), if reg = REG_E2P_CMD then b\<lparr>e2p_cmd := v\<rparr>
             else if reg = REG_MAC_CR then b\<lparr>mac_cr := v\<rparr> else b))"

definition bench_dequeue :: "bench \<Rightarrow> (u32 \<times> pkt option) \<times> bench" where
  "bench_dequeue b = (case backlog b of 0 \<Rightarrow> ((0, None), b)
     | Suc n \<Rightarrow> ((1, Some (serial b)), b\<lparr>backlog := n, serial := serial b + 1\<rparr>))"

definition bench_address :: "u8 list \<Rightarrow> u8 list \<Rightarrow> obj \<Rightarrow> kern_return \<times> u64 \<times> u8 list option" where
  "bench_address rx tx b =
     (if b = 20 then (0, 4096, Some rx) else if b = 21 then (0, 1526, Some tx)
      else (0, 4, Some [0, 0, 0, 0]))"

definition bench_platform :: "u8 list \<Rightarrow> u8 list \<Rightarrow> bench dk" where
  "bench_platform rx tx = \<lparr>
     dk_super_Start = (\<lambda>p. return 0),
     dk_super_Stop = (\<lambda>p. return 0),
     dk_super_setInterfaceEnable = (\<lambda>b. return 0),
     dk_super_setMaxTransferUnit = (\<lambda>n. return 0),
     dk_cast_interface = (\<lambda>p. return (Some 2)),
     dk_Open = (\<lambda>i. return 0),
     dk_Close = (\<lambda>i. return ()),
     dk_DeviceRequest = (\<lambda>i type req val reg n bs. State (bench_request type reg bs)),
     dk_CopyPipe = (\<lambda>i ep. return (0, Some (if ep = EP_BULK_IN then 3 else 4))),
     dk_AsyncIO = (\<lambda>p b bs n a. return 0),
     dk_Abort = (\<lambda>p. return (0, None)),
     dk_ClearStall = (\<lambda>p. return 0),
     dk_CreateBuffer = (\<lambda>n. return (0, Some (if n = 4 then 10 else if n = 4096 then 20 else 21))),
     dk_GetAddressRange = (\<lambda>b. return (bench_address rx tx b)),
     dk_CreateAction = (\<lambda>k. return (0, Some 30)),
     dk_CopyDataQueue = (\<lambda>q. return (0, Some 31)),
     dk_SetDataAvailableHandler = (\<lambda>q a. return 0),
     dk_CreateTimer = (\<lambda>q. return (0, Some 32)),
     dk_SetHandler = (\<lambda>t a. return 0),
     dk_SetEnable = (\<lambda>t b. return 0),
     dk_WakeAtTime = (\<lambda>t d l. return 0),
     dk_clock_gettime = State (\<lambda>b. (clock b, b\<lparr>clock := clock b + 1\<rparr>)),
     dk_CopyDispatchQueue = return (0, Some 33),
     dk_CreatePool = return (0, Some 34),
     dk_CreateQueue = (\<lambda>k p q. return (0, Some 40)),
     dk_registerEthernetInterface = (\<lambda>m qs p. return 0),
     dk_reportLinkStatus = (\<lambda>b. return 0),
     dk_RegisterService = return 0,
     dk_alloc = return True,
     dk_SetProperties = (\<lambda>k p. return 0),
     dk_setEnable = (\<lambda>q b. return 0),
     dk_DequeuePackets = (\<lambda>q. State bench_dequeue),
     dk_enqueuePackets = (\<lambda>q k. return 0),
     dk_allocatePacket = (\<lambda>p. State (\<lambda>b. ((0, Some (serial b)), b\<lparr>serial := serial b + 1\<rparr>))),
     dk_deallocatePacket = (\<lambda>p k. return 0),
     dk_getDataLength = (\<lambda>k. return 60),
     dk_getDataOff = (\<lambda>k. return 8),
     dk_getDataVirtualAddress = (\<lambda>k. return 0x100000000),
     dk_setDataLength = (\<lambda>k n. return 0),
     dk_peek = (\<lambda>a n. return (replicate n 7)),
     dk_poke = (\<lambda>a bs. return ()),
     dk_Cancel = (\<lambda>x. return 0),
     dk_release = (\<lambda>x. return ()) \<rparr>"

text \<open>The operations, one by one, so that proofs need not unfold the record.\<close>

lemma bench_ops [simp]:
  "dk_super_Start (bench_platform rx tx) = (\<lambda>p. return 0)"
  "dk_super_Stop (bench_platform rx tx) = (\<lambda>p. return 0)"
  "dk_super_setInterfaceEnable (bench_platform rx tx) = (\<lambda>b. return 0)"
  "dk_super_setMaxTransferUnit (bench_platform rx tx) = (\<lambda>n. return 0)"
  "dk_cast_interface (bench_platform rx tx) = (\<lambda>p. return (Some 2))"
  "dk_Open (bench_platform rx tx) = (\<lambda>i. return 0)"
  "dk_Close (bench_platform rx tx) = (\<lambda>i. return ())"
  "dk_DeviceRequest (bench_platform rx tx) = (\<lambda>i type req val reg n bs. State (bench_request type reg bs))"
  "dk_CopyPipe (bench_platform rx tx) = (\<lambda>i ep. return (0, Some (if ep = EP_BULK_IN then 3 else 4)))"
  "dk_AsyncIO (bench_platform rx tx) = (\<lambda>p b bs n a. return 0)"
  "dk_Abort (bench_platform rx tx) = (\<lambda>p. return (0, None))"
  "dk_ClearStall (bench_platform rx tx) = (\<lambda>p. return 0)"
  "dk_CreateBuffer (bench_platform rx tx) = (\<lambda>n. return (0, Some (if n = 4 then 10 else if n = 4096 then 20 else 21)))"
  "dk_GetAddressRange (bench_platform rx tx) = (\<lambda>b. return (bench_address rx tx b))"
  "dk_CreateAction (bench_platform rx tx) = (\<lambda>k. return (0, Some 30))"
  "dk_CopyDataQueue (bench_platform rx tx) = (\<lambda>q. return (0, Some 31))"
  "dk_SetDataAvailableHandler (bench_platform rx tx) = (\<lambda>q a. return 0)"
  "dk_CreateTimer (bench_platform rx tx) = (\<lambda>q. return (0, Some 32))"
  "dk_SetHandler (bench_platform rx tx) = (\<lambda>t a. return 0)"
  "dk_SetEnable (bench_platform rx tx) = (\<lambda>t b. return 0)"
  "dk_WakeAtTime (bench_platform rx tx) = (\<lambda>t d l. return 0)"
  "dk_clock_gettime (bench_platform rx tx) = State (\<lambda>b. (clock b, b\<lparr>clock := clock b + 1\<rparr>))"
  "dk_CopyDispatchQueue (bench_platform rx tx) = return (0, Some 33)"
  "dk_CreatePool (bench_platform rx tx) = return (0, Some 34)"
  "dk_CreateQueue (bench_platform rx tx) = (\<lambda>k p q. return (0, Some 40))"
  "dk_registerEthernetInterface (bench_platform rx tx) = (\<lambda>m qs p. return 0)"
  "dk_reportLinkStatus (bench_platform rx tx) = (\<lambda>b. return 0)"
  "dk_RegisterService (bench_platform rx tx) = return 0"
  "dk_alloc (bench_platform rx tx) = return True"
  "dk_SetProperties (bench_platform rx tx) = (\<lambda>k p. return 0)"
  "dk_setEnable (bench_platform rx tx) = (\<lambda>q b. return 0)"
  "dk_DequeuePackets (bench_platform rx tx) = (\<lambda>q. State bench_dequeue)"
  "dk_enqueuePackets (bench_platform rx tx) = (\<lambda>q k. return 0)"
  "dk_allocatePacket (bench_platform rx tx) = (\<lambda>p. State (\<lambda>b. ((0, Some (serial b)), b\<lparr>serial := serial b + 1\<rparr>)))"
  "dk_deallocatePacket (bench_platform rx tx) = (\<lambda>p k. return 0)"
  "dk_getDataLength (bench_platform rx tx) = (\<lambda>k. return 60)"
  "dk_getDataOff (bench_platform rx tx) = (\<lambda>k. return 8)"
  "dk_getDataVirtualAddress (bench_platform rx tx) = (\<lambda>k. return 0x100000000)"
  "dk_setDataLength (bench_platform rx tx) = (\<lambda>k n. return 0)"
  "dk_peek (bench_platform rx tx) = (\<lambda>a n. return (replicate n 7))"
  "dk_poke (bench_platform rx tx) = (\<lambda>a bs. return ())"
  "dk_Cancel (bench_platform rx tx) = (\<lambda>x. return 0)"
  "dk_release (bench_platform rx tx) = (\<lambda>x. return ())"
  by (simp_all add: bench_platform_def)

definition bench_start :: bench where
  "bench_start = \<lparr>e2p_cmd = 0, mac_cr = 0, backlog = 2, serial = 100, clock = 0\<rparr>"

lemma bench_platform_ok: "4096 \<le> length rx \<Longrightarrow> 1526 \<le> length tx \<Longrightarrow> platform_ok (bench_platform rx tx)"
  by (simp add: platform_ok_def creates_def maps_whole_def bench_platform_def bench_address_def)

section \<open>A started driver\<close>

text \<open>The state \<open>Start\<close> leaves on this platform: \<open>b\<close> is the outside, \<open>cs\<close> the calls so far.\<close>

definition bench_world :: "u8 list \<Rightarrow> u8 list \<Rightarrow> bench \<Rightarrow> call list \<Rightarrow> bench sys" where
  "bench_world rx tx b cs = (initial_sys b)\<lparr>interface := Some 2, ctrlBuffer := Some 10,
     ctrlBytes := Some [16, 0, 0, 0], interfaceOpened := True, macAddress := replicate 6 2,
     macValid := True, dispatchQueue := Some 33, pool := Some 34, txSubmit := Some 40,
     rxSubmit := Some 40, txComplete := Some 40, rxComplete := Some 40, pipeIn := Some 3,
     pipeOut := Some 4, rxBuffer := Some 20, rxBytes := Some rx, txBuffer := Some 21,
     txBytes := Some tx, rxAction := Some 30, txAction := Some 30, txDataQueue := Some 31,
     txDataAvailableAction := Some 30, txDatapathReady := True, rxBackoffTimer := Some 32,
     rxBackoffAction := Some 30, calls := cs\<rparr>"

definition bench_ready :: bench where
  "bench_ready = \<lparr>e2p_cmd = 0x80000006, mac_cr = 0x80000C, backlog = 2, serial = 100, clock = 0\<rparr>"

definition bench_run :: "u8 list \<Rightarrow> u8 list \<Rightarrow> kern_return \<times> bench sys" where
  "bench_run rx tx = run_state (Start (bench_platform rx tx) 1) (initial_sys bench_start)"

definition bench_calls :: "u8 list \<Rightarrow> u8 list \<Rightarrow> call list" where
  "bench_calls rx tx = calls (snd (bench_run rx tx))"

lemma bench_run_checked:
  "case bench_run rx tx of (ret, s) \<Rightarrow> ret = 0 \<and> s = bench_world rx tx bench_ready (calls s)
     \<and> filter (\<lambda>c. \<not> register_call c) (calls s) = [SuperStarted 0, Opened 0,
         Published ''SMSC95xxIDRev'' (Number 0), Published ''SMSC95xxPHYID'' (Number 0),
         Published ''SMSC95xxMACAddress'' (Data (replicate 6 2)),
         Published ''SMSC95xxEEPROMLoaded'' (Boolean True), Registered (replicate 6 2) 0,
         LinkReported True 0]"
  by code_simp

lemma bench_run_eq: "bench_run rx tx = (0, bench_world rx tx bench_ready (bench_calls rx tx))"
  using bench_run_checked [of rx tx] by (auto simp: bench_calls_def split: prod.splits)

lemma bench_calls_eq:
  "filter (\<lambda>c. \<not> register_call c) (bench_calls rx tx) = [SuperStarted 0, Opened 0,
     Published ''SMSC95xxIDRev'' (Number 0), Published ''SMSC95xxPHYID'' (Number 0),
     Published ''SMSC95xxMACAddress'' (Data (replicate 6 2)),
     Published ''SMSC95xxEEPROMLoaded'' (Boolean True), Registered (replicate 6 2) 0, LinkReported True 0]"
  using bench_run_checked [of rx tx] by (auto simp: bench_calls_def split: prod.splits)

text \<open>What register accesses add nothing to.\<close>

lemma tally_no_registers:
  assumes "\<And>c. register_call c \<Longrightarrow> f c = 0"
  shows "tally f cs = tally f (filter (\<lambda>c. \<not> register_call c) cs)"
  using assms by (induction cs) auto

lemma bench_calls_tally [simp]:
  "tally tx_taken (bench_calls rx tx) = {#}" "tally tx_given (bench_calls rx tx) = {#}"
  "tally rx_acquired (bench_calls rx tx) = {#}" "tally rx_disposed (bench_calls rx tx) = {#}"
  "tally in_accepted (bench_calls rx tx) = 0" "tally in_completed (bench_calls rx tx) = 0"
  "tally out_accepted (bench_calls rx tx) = 0" "tally out_completed (bench_calls rx tx) = 0"
  "tally super_stopped (bench_calls rx tx) = 0" "tally cancel_begun (bench_calls rx tx) = 0"
  "tally cancel_ran (bench_calls rx tx) = 0"
  by (subst tally_no_registers, (auto elim: register_call.elims)[], simp add: bench_calls_eq)+

definition bench_rx :: "u8 list" where "bench_rx = replicate 4096 0"
definition bench_tx :: "u8 list" where "bench_tx = replicate 1526 0"
abbreviation bench_dk :: "bench dk" where "bench_dk \<equiv> bench_platform bench_rx bench_tx"

lemma bench_dk_ok: "platform_ok bench_dk"
  by (rule bench_platform_ok) (simp_all only: bench_rx_def bench_tx_def length_replicate order.refl)

definition bench_up :: "bench sys" where
  "bench_up = bench_world bench_rx bench_tx bench_ready (bench_calls bench_rx bench_tx)"

lemma bench_up_reachable: "reachable bench_dk 1 (Started, bench_up)"
proof -
  have "driver_step bench_dk 1 (Fresh, initial_sys bench_start) (after_start 0 bench_up, bench_up)"
    using bench_run_eq [of bench_rx bench_tx]
    by (intro driver_step.start) (simp add: bench_run_def bench_up_def)
  then show ?thesis
    by (intro reaches.onward [OF reaches.first]) (auto simp: fresh_def after_start_def kIOReturnSuccess_def)
qed


section \<open>Running it\<close>

lemma run_ext [simp]:
  "run_state (ext f) s = (case run_state f (env s) of (a, e) \<Rightarrow> (a, s\<lparr>env := e\<rparr>))"
  by (simp add: ext_def)

lemma run_emit [simp]: "run_state (emit c) s = ((), s\<lparr>calls := calls s @ [c]\<rparr>)"
  by (simp add: emit_def)

lemma run_ext_log [simp]:
  "run_state (ext_log f c) s =
     (case run_state f (env s) of (a, e) \<Rightarrow> (a, s\<lparr>env := e, calls := calls s @ [c a]\<rparr>))"
  by (simp add: ext_log_def split: prod.split)

lemmas bench_defs = bench_world_def initial_sys_def zero_ivars_def ivars.defs kIOReturnSuccess_def

section \<open>A driver with a packet on the wire\<close>

lemma drain_once:
  assumes "\<not> txInFlight s" and "run_state (tx_drain_body dk) s = (Sent, t)" and "txInFlight t"
  shows "tx_drain_loop dk n s = Some (n + 1, t)"
  using assms by (subst tx_drain_loop.simps, simp) (subst tx_drain_loop.simps, simp)

text \<open>With the interface enabled: the read is armed. \<open>w\<close> abbreviates the counters it moves.\<close>

definition bench_enabled :: "u8 list \<Rightarrow> u8 list \<Rightarrow> call list \<Rightarrow> bench sys" where
  "bench_enabled rx tx cs = (bench_world rx tx bench_ready (cs @ [SuperEnabled True 0, QueueEnabled 40 True 0,
     QueueEnabled 40 True 0, QueueEnabled 40 True 0, QueueEnabled 40 True 0, LinkReported True 0,
     SubmitIn 3 RX_BUFFER_LEN 0]))\<lparr>rxArmed := True, rxRunning := True, rxArmCount := 1\<rparr>"

lemma bench_enabled:
  "enter (bench_platform rx tx) (EnableInterface True) (bench_world rx tx bench_ready cs) = bench_enabled rx tx cs"
  by (simp add: bench_enabled_def setInterfaceEnable_def super_setInterfaceEnable_def Let_def armRxRead_def
    bench_defs)

text \<open>The transfer the first packet becomes.\<close>

definition bench_frame :: "u8 list \<Rightarrow> u8 list" where
  "bench_frame tx = overlay (tx_header 60 @ drop 8 tx) 8 (replicate 60 7)"

definition bench_sent :: "u8 list \<Rightarrow> u8 list \<Rightarrow> call list \<Rightarrow> bench sys" where
  "bench_sent rx tx cs = (bench_enabled rx tx cs)\<lparr>txBytes := Some (bench_frame tx), txInFlight := True,
     txPacket := Some 100, txDoorbells := 1, txDrains := 1, txDequeued := 1, txSubmitted := 1,
     env := bench_ready\<lparr>backlog := 1, serial := 101\<rparr>,
     calls := calls (bench_enabled rx tx cs) @ [TxDequeued 100, CopyOut 0x100000000 8 60,
       SubmitOut 4 (take 68 (bench_frame tx)) 0]\<rparr>"

lemma bench_body:
  assumes "1526 \<le> length tx"
  shows "run_state (tx_drain_body (bench_platform rx tx))
      ((bench_enabled rx tx cs)\<lparr>txDoorbells := 1, inTxDataAvailable := True, txDrains := 1\<rparr>) =
    (Sent, (bench_sent rx tx cs)\<lparr>inTxDataAvailable := True\<rparr>)"
  using assms by (simp add: bench_enabled_def bench_sent_def bench_frame_def tx_drain_body_def txSubmitPacket_def
    tx_submit_transfer_def deref_def bench_dequeue_def bench_ready_def bench_defs Let_def TX_MAX_FRAME_def
    TX_BUFFER_LEN_def tx_prepend_result LOWEST_MAPPED_def POOL_BUFFER_SIZE_def TX_HEADER_LEN_def)

lemma bench_doorbell:
  assumes "1526 \<le> length tx"
  shows "enter (bench_platform rx tx) Doorbell (bench_enabled rx tx cs) = bench_sent rx tx cs"
proof -
  let ?s = "(bench_enabled rx tx cs)\<lparr>txDoorbells := 1, inTxDataAvailable := True, txDrains := 1\<rparr>"
  have loop: "tx_drain_loop (bench_platform rx tx) 0 ?s = Some (1, (bench_sent rx tx cs)\<lparr>inTxDataAvailable := True\<rparr>)"
    using drain_once [OF _ bench_body [OF assms]]
    by (simp add: bench_sent_def bench_enabled_def bench_defs)
  show ?thesis
    using loop
    by (simp add: TxDataAvailable_def txDrainSubmission_def bench_sent_def bench_enabled_def bench_defs)
qed

lemma reachable_enter:
  "reachable dk provider (p, s) \<Longrightarrow> p = Started \<or> p = Stopped \<Longrightarrow> reachable dk provider (p, enter dk e s)"
  by (erule reaches.onward) (auto intro: driver_step.entry)

lemma reachable_stop:
  "reachable dk provider (Started, s) \<Longrightarrow> reachable dk provider (Stopped, exec_state (Stop dk provider) s)"
  by (erule reaches.onward) (rule driver_step.stop)

lemma reachable_cancelled:
  "reachable dk provider (Stopped, s) \<Longrightarrow> 0 < outstanding s \<Longrightarrow>
     reachable dk provider (Stopped, exec_state (cancel_handler dk provider) s)"
  by (erule reaches.onward) (rule driver_step.cancelled)

definition bench_busy :: "bench sys" where
  "bench_busy = bench_sent bench_rx bench_tx (bench_calls bench_rx bench_tx)"

lemma bench_busy_reachable: "reachable bench_dk 1 (Started, bench_busy)"
proof -
  have "1526 \<le> length bench_tx" by (simp only: bench_tx_def length_replicate)
  then have busy: "bench_busy = enter bench_dk Doorbell (enter bench_dk (EnableInterface True) bench_up)"
    by (simp only: bench_busy_def bench_up_def bench_enabled bench_doorbell)
  show ?thesis unfolding busy by (intro reachable_enter bench_up_reachable; simp)
qed

lemma bench_busy_facts:
  "txDequeued bench_busy = 1" "txReturned bench_busy = 0" "txLost bench_busy = 0" "txInFlight bench_busy"
  "txPacket bench_busy = Some 100" "rxArmed bench_busy" "macAddress bench_busy = replicate 6 2"
  "macValid bench_busy" "tally tx_taken (calls bench_busy) = {#100#}"
  "tally tx_given (calls bench_busy) = {#}" "tally in_accepted (calls bench_busy) = 1"
  "tally out_accepted (calls bench_busy) = 1"
  by (simp_all add: bench_busy_def bench_sent_def bench_enabled_def bench_defs)

text \<open>The same driver after \<open>Stop\<close>: four cancellations are outstanding.\<close>

definition bench_stopped :: "bench sys" where
  "bench_stopped = exec_state (Stop bench_dk 1) bench_busy"

lemma bench_stopped_reachable: "reachable bench_dk 1 (Stopped, bench_stopped)"
  unfolding bench_stopped_def by (rule reachable_stop) (rule bench_busy_reachable)

lemma bench_stopped_outstanding: "outstanding bench_stopped = 4" "super_stops bench_stopped = 0"
  by (simp_all add: bench_stopped_def Stop_def quiesceDatapath_def abort_pipe_def finishStop_def
    source_count_def cancel_source_def bench_busy_def bench_sent_def bench_enabled_def bench_defs Let_def
    outstanding_def super_stops_def)

section \<open>A driver that has received\<close>

text \<open>A transfer with a frame of 60 bytes and a runt.\<close>

definition bench_transfer :: "u8 list" where
  "bench_transfer = [0, 0, 0x40, 0] @ replicate 64 5 @ [0, 0, 4, 0] @ replicate 4 6"

lemma bench_transfer_next:
  "smsc95xx_rx_next (bench_transfer @ rest) 76 0 =
     Some \<lparr>rx_frame = 4, rx_frame_len = 64, rx_status = 0x400000, rx_offset = 68\<rparr>"
  "smsc95xx_rx_next (bench_transfer @ rest) 76 68 =
     Some \<lparr>rx_frame = 72, rx_frame_len = 4, rx_status = 0x40000, rx_offset = 76\<rparr>"
  "smsc95xx_rx_next (bench_transfer @ rest) 76 76 = None"
  by (code_simp, simp?)+

lemma bench_transfer_slice: "slice 4 60 (bench_transfer @ rest) = replicate 60 5"
  by code_simp

definition bench_received :: "u8 list \<Rightarrow> u8 list \<Rightarrow> call list \<Rightarrow> bench sys" where
  "bench_received rest tx cs = (bench_enabled (bench_transfer @ rest) tx cs)\<lparr>rxFrames := 1, rxDropped := 1,
     rxRecords := 2, rxDropShort := 1, rxCompletions := 1, rxByteCount := 76, rxSubmitDequeued := 1,
     rxArmCount := 2, env := bench_ready\<lparr>backlog := 1, serial := 101\<rparr>,
     calls := calls (bench_enabled (bench_transfer @ rest) tx cs) @ [RxCompleted 0 76, RxDequeued 100,
       CopyIn 0x100000000 8 (replicate 60 5), SetLength 100 60 0, RxEnqueued 100 0,
       SubmitIn 3 RX_BUFFER_LEN 0]\<rparr>"

lemma bench_received:
  assumes "length rx = 4096"
  shows "enter (bench_platform rx tx) (RxDone 0 76 bench_transfer) (bench_enabled rx tx cs)
    = bench_received (drop 76 rx) tx cs"
proof -
  have "length bench_transfer = 76" by code_simp
  then have fill: "fill_rx bench_transfer (bench_enabled rx tx cs) = bench_enabled (bench_transfer @ drop 76 rx) tx cs"
    using assms by (simp add: fill_rx_def bench_enabled_def bench_defs overlay_def)
  show ?thesis
    unfolding enter.simps fill
    by (simp add: RxComplete_def rx_transfer_def rx_loop.simps bench_transfer_next bench_received_def
      bench_enabled_def bench_defs rx_record_body_def rx_into_packet_def rx_fill_def rx_deliver_def
      drop_record_def rxAcquirePacket_def deliverPacket_def deref_def bench_dequeue_def bench_ready_def
      rearmRxRead_def armRxRead_def Let_def RX_STS_ERROR_SUM_def RX_STS_FILTER_FAIL_def RX_CRC_LEN_def
      rx_limit_defs bench_transfer_slice)
qed

definition bench_served :: "bench sys" where
  "bench_served = bench_received (drop 76 bench_rx) bench_tx (bench_calls bench_rx bench_tx)"

lemma bench_served_reachable: "reachable bench_dk 1 (Started, bench_served)"
proof -
  have "length bench_rx = 4096" by (simp only: bench_rx_def length_replicate)
  then have served: "bench_served
      = enter bench_dk (RxDone 0 76 bench_transfer) (enter bench_dk (EnableInterface True) bench_up)"
    by (simp only: bench_served_def bench_up_def bench_enabled bench_received)
  show ?thesis unfolding served by (intro reachable_enter bench_up_reachable; simp)
qed

lemma bench_served_facts:
  "rxRecords bench_served = 2" "rxFrames bench_served = 1" "rxDropped bench_served = 1"
  "rxDropShort bench_served = 1" "tally rx_acquired (calls bench_served) = {#100#}"
  "tally rx_disposed (calls bench_served) = {#100#}"
  by (simp_all add: bench_served_def bench_received_def bench_enabled_def bench_defs)

end
