(* ===== verification/Rx_Delivery.thy ===== *)
theory Rx_Delivery
  imports Bench "HOL-Library.Sublist"
begin

text \<open>
  What the receive path does with the bytes of a transfer. Every run copies to the stack only the
  payloads of acceptable records, in their order; a stack that supplies packets and takes them gets
  them all.
\<close>

section \<open>The payloads copied\<close>

fun copied :: "call \<Rightarrow> u8 list list" where
  "copied (CopyIn base off bs) = [bs]"
| "copied _ = []"

definition copies :: "call list \<Rightarrow> u8 list list" where
  "copies cs = concat (map copied cs)"

lemma copies_simps [simp]:
  "copies [] = []" "copies (c # cs) = copied c @ copies cs" "copies (cs @ ds) = copies cs @ copies ds"
  by (simp_all add: copies_def)

text \<open>The records whose payload the driver hands on, and that payload.\<close>

definition acceptable :: "rx_record \<Rightarrow> bool" where
  "acceptable r \<longleftrightarrow> rx_status r AND (RX_STS_ERROR_SUM OR RX_STS_FILTER_FAIL) = 0
     \<and> RX_CRC_LEN < rx_frame_len r \<and> rx_frame_len r - RX_CRC_LEN \<le> RX_MAX_PAYLOAD"

definition payload :: "u8 list \<Rightarrow> rx_record \<Rightarrow> u8 list" where
  "payload buf r = slice (unat (rx_frame r)) (unat (rx_frame_len r - RX_CRC_LEN)) buf"

definition payloads :: "u8 list \<Rightarrow> u32 \<Rightarrow> size_t \<Rightarrow> u8 list list" where
  "payloads buf len off = map (payload buf) (filter acceptable (rx_records buf len off))"

section \<open>Only acceptable payloads\<close>

definition copied_so_far :: "u8 list list \<Rightarrow> 'e sys \<Rightarrow> bool" where
  "copied_so_far c s \<longleftrightarrow> copies (calls s) = c"

lemma copied_so_far_env [simp]: "copied_so_far c (s\<lparr>env := e\<rparr>) = copied_so_far c s"
  by (simp add: copied_so_far_def)

lemma copied_so_far_log:
  "copied k = [] \<Longrightarrow> copied_so_far c (s\<lparr>env := e, calls := calls s @ [k]\<rparr>) = copied_so_far c s"
  "copied k = [] \<Longrightarrow> copied_so_far c (s\<lparr>calls := calls s @ [k]\<rparr>) = copied_so_far c s"
  by (simp_all add: copied_so_far_def)

lemmas copied_so_far_keeps = keeps_intros keeps_ext keeps_emit

lemma copied_ext_log: "(\<And>a. copied (k a) = []) \<Longrightarrow> keeps (copied_so_far c) (ext_log f k)"
  unfolding ext_log_def by (intro copied_so_far_keeps) (simp_all add: copied_so_far_log)

lemma copied_deref: "(\<And>x. keeps (copied_so_far c) (f x)) \<Longrightarrow> keeps (copied_so_far c) (deref p d f)"
  unfolding deref_def by (intro copied_so_far_keeps) (simp_all add: copied_so_far_log)

lemma deallocate_copies: "keeps (copied_so_far c) (deallocate dk k)"
  unfolding deallocate_def by (intro keeps_intros copied_deref copied_ext_log) simp

lemma deliverPacket_copies: "keeps (copied_so_far c) (deliverPacket dk k)"
  unfolding deliverPacket_def
  by (intro keeps_intros copied_deref copied_ext_log deallocate_copies) (simp_all add: copied_so_far_def)

lemma drop_record_copies:
  "(\<And>s f. calls (r f s) = calls s) \<Longrightarrow> keeps (copied_so_far c) (drop_record r)"
  unfolding drop_record_def by (intro keeps_intros) (simp_all add: copied_so_far_def)

lemma rxPoolPacket_copies: "keeps (copied_so_far c) (rxPoolPacket dk)"
  unfolding rxPoolPacket_def
  by (intro keeps_intros copied_deref keeps_ext keeps_emit) (simp_all add: copied_so_far_def)

lemma rxAcquirePacket_copies: "keeps (copied_so_far c) (rxAcquirePacket dk)"
  unfolding rxAcquirePacket_def
  by (intro keeps_intros rxPoolPacket_copies keeps_ext keeps_emit) (simp_all add: copied_so_far_def)

lemma rx_unfilled_copies: "keeps (copied_so_far c) (rx_unfilled dk k)"
  unfolding rx_unfilled_def
  by (intro keeps_intros drop_record_copies deallocate_copies) (simp_all add: copied_so_far_def)

lemma rx_deliver_copies: "keeps (copied_so_far c) (rx_deliver dk k)"
  unfolding rx_deliver_def
  by (intro keeps_intros drop_record_copies deliverPacket_copies) (simp_all add: copied_so_far_def)

text \<open>A record either copies nothing, or is acceptable and copies its payload.\<close>

definition copied_record :: "u8 list \<Rightarrow> rx_record \<Rightarrow> u8 list list \<Rightarrow> 'e sys \<Rightarrow> bool" where
  "copied_record buf r c t \<longleftrightarrow> copied_so_far c t \<or> acceptable r \<and> copied_so_far (c @ [payload buf r]) t"

lemma wp_rx_fill_copies:
  assumes "copied_so_far c s"
  shows "wp (rx_fill dk k base off n bs) (\<lambda>_. copied_so_far (c @ [bs])) s"
proof -
  have rest: "keeps (copied_so_far d) (do {
     sret \<leftarrow> ext_log (dk_setDataLength dk k (ucast n)) (SetLength k (ucast n));
     if sret \<noteq> kIOReturnSuccess then rx_unfilled dk k else rx_deliver dk k })" for d
    by (intro keeps_intros copied_ext_log rx_unfilled_copies rx_deliver_copies) simp
  have here: "wp (ext_log (dk_poke dk (base + off) bs) (\<lambda>_. CopyIn base off bs)) (\<lambda>_. copied_so_far (c @ [bs])) s"
    using assms by (simp add: wp_ext_log copied_so_far_def split: prod.split)
  show ?thesis
    unfolding rx_fill_def wp_bind [of "ext_log (dk_poke dk (base + off) bs) k" for k]
    by (rule wp_mono [OF here]) (rule keeps_wp [OF rest])
qed

lemma copied_recordI: "copied_so_far c t \<Longrightarrow> copied_record buf r c t"
  by (simp add: copied_record_def)

lemma wp_rx_into_copies:
  assumes s: "copied_so_far c s" and r: "acceptable r"
  shows "wp (rx_into_packet dk buf r (rx_frame_len r - RX_CRC_LEN) k) (\<lambda>_. copied_record buf r c) s"
proof -
  have refuse: "keeps (copied_so_far c) (do { drop_record rxDropBadAddr_update; deallocate dk k; return b })"
    "keeps (copied_so_far c) (do { drop_record rxDropBadFit_update; deallocate dk k; return b })" for b
    by (intro keeps_intros drop_record_copies deallocate_copies; simp)+
  have fill: "wp (rx_fill dk k base off (rx_frame_len r - RX_CRC_LEN)
      (slice (unat (rx_frame r)) (unat (rx_frame_len r - RX_CRC_LEN)) buf)) (\<lambda>_. copied_record buf r c) t"
    if "copied_so_far c t" for base off t
    by (rule wp_mono [OF wp_rx_fill_copies [OF that]]) (simp add: copied_record_def payload_def r)
  show ?thesis
    unfolding rx_into_packet_def
    using s by (auto simp: wp_bind [of "ext f" for f] wp_ext split: prod.splits if_splits
      intro!: wp_mono [OF keeps_wp [OF refuse(1)]] wp_mono [OF keeps_wp [OF refuse(2)]] fill copied_recordI)
qed

lemma wp_rx_record_copies:
  assumes "copied_so_far c s"
  shows "wp (rx_record_body dk buf r) (\<lambda>_. copied_record buf r c) s"
proof (cases "acceptable r")
  case False
  have "keeps (copied_so_far c) (rx_record_body dk buf r)" if "\<not> acceptable r"
    using that unfolding rx_record_body_def Let_def
    by (auto simp: acceptable_def not_less not_le intro!: keeps_intros drop_record_copies simp: copied_so_far_def)
  then show ?thesis using False assms by (auto simp: copied_record_def intro: wp_mono [OF keeps_wp])
next
  case True
  then have g: "rx_status r AND (RX_STS_ERROR_SUM OR RX_STS_FILTER_FAIL) = 0" "\<not> rx_frame_len r \<le> RX_CRC_LEN"
    "\<not> RX_MAX_PAYLOAD < rx_frame_len r - RX_CRC_LEN" by (auto simp: acceptable_def)
  have s: "copied_so_far c (rxRecords_update (\<lambda>n. n + 1) s)" using assms by (simp add: copied_so_far_def)
  have none: "wp (drop_record rxDropNoBuffer_update) (\<lambda>_. copied_so_far c) t" if "copied_so_far c t" for t :: "'a sys"
    using that by (intro keeps_wp drop_record_copies) simp_all
  have acquired: "wp (case x of (packet, fromSubmitQueue) \<Rightarrow> (case packet of
        None \<Rightarrow> do { drop_record rxDropNoBuffer_update; return False }
      | Some packet \<Rightarrow> rx_into_packet dk buf r (rx_frame_len r - RX_CRC_LEN) packet))
      (\<lambda>_. copied_record buf r c) t" if "copied_so_far c t" for x and t :: "'a sys"
    using wp_rx_into_copies [OF that True] none [OF that, THEN wp_mono]
    by (auto simp: wp_bind wp_return copied_record_def split: prod.splits option.splits)
  show ?thesis
    unfolding rx_record_body_def Let_def
    by (simp add: g wp_bind [of "incr x y" for x y] wp_incr wp_bind [of "rxAcquirePacket dk"])
      (rule wp_mono [OF keeps_wp [OF rxAcquirePacket_copies s]], erule acquired)
qed

lemma wp_rx_loop_copies:
  "copied_so_far c s \<Longrightarrow>
     wp (rx_loop dk buf len off n) (\<lambda>_ t. \<exists>ns. copied_so_far (c @ ns) t \<and> subseq ns (payloads buf len off)) s"
proof (induction dk buf len off n arbitrary: c s rule: rx_loop.induct)
  case (1 dk buf len off n)
  show ?case
  proof (cases "smsc95xx_rx_next buf (ucast len) off")
    case None
    then show ?thesis using 1(2) by (subst rx_loop.simps) (auto simp: wp_simps intro: exI [of _ "[]"])
  next
    case (Some r)
    have more: "payloads buf len off = (if acceptable r then [payload buf r] else []) @ payloads buf len (rx_offset r)"
      unfolding payloads_def by (subst rx_records.simps) (simp add: Some)
    let ?post = "\<lambda>t. \<exists>ns. copied_so_far (c @ ns) t \<and> subseq ns (payloads buf len off)"
    have go: "wp (if b then rx_loop dk buf len (rx_offset r) (n + 1) else return (n + 1)) (\<lambda>_. ?post) t"
      if t: "copied_record buf r c t" for b and t :: "'a sys"
    proof -
      have "\<exists>ps. copied_so_far (c @ ps) t \<and> subseq ps (if acceptable r then [payload buf r] else [])"
        using t by (auto simp: copied_record_def intro: exI [of _ "[]"] exI [of _ "[payload buf r]"])
      then obtain ps where ps: "copied_so_far (c @ ps) t" "subseq ps (if acceptable r then [payload buf r] else [])"
        by blast
      have "subseq (ps @ []) (payloads buf len off)"
        unfolding more by (rule list_emb_append_mono [OF ps(2)]) simp
      then have "?post t" using ps(1) by auto
      moreover have "wp (rx_loop dk buf len (rx_offset r) (n + 1)) (\<lambda>_. ?post) t" if b
        using 1(1) [OF Some that ps(1)]
      proof (rule wp_mono)
        fix t' :: "'a sys"
        assume "\<exists>ns. copied_so_far ((c @ ps) @ ns) t' \<and> subseq ns (payloads buf len (rx_offset r))"
        then obtain ns where ns: "copied_so_far (c @ ps @ ns) t'" "subseq ns (payloads buf len (rx_offset r))"
          by auto
        have "subseq (ps @ ns) (payloads buf len off)"
          unfolding more by (rule list_emb_append_mono [OF ps(2) ns(2)])
        then show "?post t'" using ns(1) by blast
      qed
      ultimately show ?thesis by (simp add: wp_return)
    qed
    show ?thesis
      by (subst rx_loop.simps) (auto simp: Some wp_bind intro!: wp_mono [OF wp_rx_record_copies [OF 1(2)]] go)
  qed
qed


lemma armRxRead_copies: "keeps (copied_so_far c) (armRxRead dk)"
  unfolding armRxRead_def
  by (intro keeps_intros copied_ext_log | simp add: copied_so_far_def split: prod.split option.split)+

lemma rearmRxRead_copies: "keeps (copied_so_far c) (rearmRxRead dk b)"
  unfolding rearmRxRead_def Let_def
  by (intro keeps_intros armRxRead_copies copied_ext_log keeps_ext) (simp_all add: copied_so_far_def)

text \<open>The payloads a completion may hand on.\<close>

definition carried :: "'e sys \<Rightarrow> kern_return \<Rightarrow> u32 \<Rightarrow> u8 list list" where
  "carried s status n = (case rxBytes s of
     Some buf \<Rightarrow> if rxRunning s \<and> status = kIOReturnSuccess \<and> n \<noteq> 0 then payloads buf n 0 else []
   | None \<Rightarrow> [])"

lemma wp_rx_transfer_copies:
  assumes "copied_so_far c s"
  shows "wp (rx_transfer dk buf pipe status n) (\<lambda>_ t. \<exists>ns. copied_so_far (c @ ns) t
    \<and> subseq ns (if status = kIOReturnSuccess \<and> n \<noteq> 0 then payloads buf n 0 else [])) s"
proof (cases "status = kIOReturnSuccess \<and> n \<noteq> 0")
  case True
  have s: "copied_so_far c (rxByteCount_update (\<lambda>m. m + ucast n) s)"
    using assms by (simp add: copied_so_far_def)
  have tail: "keeps (copied_so_far d) (do {
      whenever (records = 0) (incr rxZeroRecords_update 1); rearmRxRead dk True })" for records :: u32 and d
    by (intro keeps_intros rearmRxRead_copies) (simp add: copied_so_far_def)
  have fin: "wp (do { whenever (records = 0) (incr rxZeroRecords_update 1); rearmRxRead dk True })
      (\<lambda>_ t. \<exists>ns. copied_so_far (c @ ns) t \<and> subseq ns (payloads buf n 0)) t"
    if "\<exists>ns. copied_so_far (c @ ns) t \<and> subseq ns (payloads buf n 0)" for records :: u32 and t :: "'a sys"
    using that keeps_wp [OF tail] by (blast intro: wp_mono)
  show ?thesis
    using True unfolding rx_transfer_def
    by (simp add: wp_bind [of "incr x y" for x y] wp_incr wp_bind [of "rx_loop dk buf n 0 0"])
      (rule wp_mono [OF wp_rx_loop_copies [OF s]], rule fin)
next
  case False
  have "keeps (copied_so_far c) (rx_transfer dk buf pipe status n)"
    using False unfolding rx_transfer_def
    by (auto intro!: keeps_intros copied_deref copied_ext_log rearmRxRead_copies simp: copied_so_far_def)
  then have c: "wp (rx_transfer dk buf pipe status n) (\<lambda>_. copied_so_far c) s"
    using assms by (rule keeps_wp)
  show ?thesis
  proof (rule wp_mono [OF c])
    fix t :: "'a sys"
    assume "copied_so_far c t"
    then show "\<exists>ns. copied_so_far (c @ ns) t
        \<and> subseq ns (if status = kIOReturnSuccess \<and> n \<noteq> 0 then payloads buf n 0 else [])"
      by (auto intro: exI [of _ "[]"])
  qed
qed

text \<open>
  C17: Whatever the stack and the device do, a read completion copies into packets only payloads of
  acceptable records of that transfer, each at most once and in the order the device sent them; a
  failed, empty or late completion copies nothing.
\<close>

theorem rx_copies_payloads:
  "\<exists>ns. copies (calls (exec_state (RxComplete dk status n) s)) = copies (calls s) @ ns
     \<and> subseq ns (carried s status n)"
proof -
  let ?s = "inRxComplete_update (\<lambda>_. True) (rxCompletions_update (\<lambda>n. n + 1)
      (rxArmed_update (\<lambda>_. False) (s\<lparr>calls := calls s @ [RxCompleted status n]\<rparr>)))"
  let ?c = "copies (calls s)"
  have s: "copied_so_far ?c ?s" by (simp add: copied_so_far_def)
  let ?post = "\<lambda>t. \<exists>ns. copied_so_far (?c @ ns) t \<and> subseq ns (carried s status n)"
  have none: "?post (inRxComplete_update (\<lambda>_. False) ?s)"
    using s by (auto simp: copied_so_far_def intro: exI [of _ "[]"])
  have full: "wp (rx_transfer dk buf (pipeIn s) status n) (\<lambda>_. wp (assign inRxComplete_update False) (\<lambda>_. ?post)) ?s"
    if "rxBytes s = Some buf" "rxRunning s" for buf
    by (rule wp_mono [OF wp_rx_transfer_copies [OF s]])
      (use that in \<open>auto simp: wp_assign carried_def copied_so_far_def\<close>)
  have "wp (RxComplete dk status n) (\<lambda>_. ?post) s"
    unfolding RxComplete_def
    using none full by (auto simp: wp_simps split: option.split)
  then show ?thesis by (simp add: wp_run copied_so_far_def)
qed


section \<open>A stack that takes everything\<close>

text \<open>
  The network stack at its best: the receive submission queue always has a packet, with its data at
  most 530 bytes into a mapped buffer, and takes every length and every packet handed back.
\<close>

definition supplying :: "'e dk \<Rightarrow> bool" where
  "supplying dk \<longleftrightarrow>
     (\<forall>q e. fst (eval_state (dk_DequeuePackets dk q) e) = 1 \<and> snd (eval_state (dk_DequeuePackets dk q) e) \<noteq> None)
   \<and> (\<forall>k e. unat (eval_state (dk_getDataOff dk k) e) \<le> 530)
   \<and> (\<forall>k e. LOWEST_MAPPED \<le> eval_state (dk_getDataVirtualAddress dk k) e)
   \<and> (\<forall>k n e. eval_state (dk_setDataLength dk k n) e = kIOReturnSuccess)
   \<and> (\<forall>q k e. eval_state (dk_enqueuePackets dk q k) e = kIOReturnSuccess)"

lemma supplying:
  assumes "supplying dk"
  shows "fst (eval_state (dk_DequeuePackets dk q) e) = 1"
    and "\<exists>k. snd (eval_state (dk_DequeuePackets dk q) e) = Some k"
    and "unat (eval_state (dk_getDataOff dk k) e) \<le> 530"
    and "\<not> eval_state (dk_getDataVirtualAddress dk k) e < LOWEST_MAPPED"
    and "eval_state (dk_setDataLength dk k n) e = kIOReturnSuccess"
    and "eval_state (dk_enqueuePackets dk q k) e = kIOReturnSuccess"
  using assms by (auto simp: supplying_def not_less)

definition taken :: "u64 \<Rightarrow> u64 \<Rightarrow> u8 list list \<Rightarrow> 'e sys \<Rightarrow> bool" where
  "taken f d c s \<longleftrightarrow> rxFrames s = f \<and> rxDropped s = d \<and> copies (calls s) = c
     \<and> rxSubmit s \<noteq> None \<and> rxComplete s \<noteq> None"

lemma wp_supplied_deliver:
  assumes "supplying dk" and "taken f d c s"
  shows "wp (rx_deliver dk k) (\<lambda>go t. go \<and> taken (f + 1) d c t) s"
  unfolding rx_deliver_def deliverPacket_def
  using assms(2) by (auto simp: wp_simps wp_bind_fun taken_def case_prod_beta supplying [OF assms(1)])

lemma wp_supplied_fill:
  assumes "supplying dk" and "taken f d c s"
  shows "wp (rx_fill dk k base off n bs) (\<lambda>go t. go \<and> taken (f + 1) d (c @ [bs]) t) s"
  unfolding rx_fill_def wp_simps wp_bind_fun case_prod_beta supplying [OF assms(1)]
  by simp (rule wp_supplied_deliver [OF assms(1)], use assms(2) in \<open>simp add: taken_def\<close>)

lemma wp_supplied_into:
  assumes "supplying dk" and "taken f d c s" and "acceptable r"
  shows "wp (rx_into_packet dk buf r (rx_frame_len r - RX_CRC_LEN) k)
    (\<lambda>go t. go \<and> taken (f + 1) d (c @ [payload buf r]) t) s"
proof -
  have n: "unat (rx_frame_len r - RX_CRC_LEN) \<le> 1518"
    using assms(3) by (simp add: acceptable_def RX_MAX_PAYLOAD_def word_le_nat_alt)
  have fits: "\<not> POOL_BUFFER_SIZE < off + (rx_frame_len r - RX_CRC_LEN)" if "unat off \<le> 530" for off
  proof -
    have "unat (off + (rx_frame_len r - RX_CRC_LEN)) = unat off + unat (rx_frame_len r - RX_CRC_LEN)"
      using n that by (intro unat_add_small) simp
    then show ?thesis using n that by (simp add: POOL_BUFFER_SIZE_def word_less_nat_alt)
  qed
  have t: "taken f d c (s\<lparr>env := e\<rparr>)" for e using assms(2) by (simp add: taken_def)
  show ?thesis
    unfolding rx_into_packet_def wp_bind wp_ext case_prod_beta wp_bind_fun
    using fits supplying(3,4) [OF assms(1)] wp_supplied_fill [OF assms(1) t]
    by (simp add: wp_ext case_prod_beta payload_def)
qed

lemma wp_supplied_acquire:
  assumes "supplying dk" and "taken f d c s"
  shows "wp (rxAcquirePacket dk) (\<lambda>(p, b) t. p \<noteq> None \<and> taken f d c t) s"
proof -
  obtain q where q: "rxSubmit s = Some q" using assms(2) by (auto simp: taken_def)
  obtain k where "snd (eval_state (dk_DequeuePackets dk q) (env s)) = Some k"
    using supplying(2) [OF assms(1)] by blast
  then show ?thesis
    using assms(2) by (simp add: rxAcquirePacket_def wp_simps case_prod_beta q supplying(1) [OF assms(1)] taken_def)
qed

text \<open>One record: an acceptable one is a frame more, any other is a drop more.\<close>

lemma wp_supplied_record:
  assumes dk: "supplying dk" and s: "taken f d c s"
  shows "wp (rx_record_body dk buf r) (\<lambda>go t. go \<and> (if acceptable r
    then taken (f + 1) d (c @ [payload buf r]) t else taken f (d + 1) c t)) s"
proof (cases "acceptable r")
  case False
  then show ?thesis
    using s unfolding rx_record_body_def Let_def
    by (auto simp: wp_simps drop_record_def acceptable_def taken_def not_less not_le)
next
  case True
  then have g: "rx_status r AND (RX_STS_ERROR_SUM OR RX_STS_FILTER_FAIL) = 0" "\<not> rx_frame_len r \<le> RX_CRC_LEN"
    "\<not> RX_MAX_PAYLOAD < rx_frame_len r - RX_CRC_LEN" by (auto simp: acceptable_def)
  have s': "taken f d c (rxRecords_update (\<lambda>n. n + 1) s)" using s by (simp add: taken_def)
  let ?post = "\<lambda>go t. go \<and> taken (f + 1) d (c @ [payload buf r]) t"
  have acquired: "wp (case x of (packet, fromSubmitQueue) \<Rightarrow> (case packet of
        None \<Rightarrow> do { drop_record rxDropNoBuffer_update; return False }
      | Some packet \<Rightarrow> rx_into_packet dk buf r (rx_frame_len r - RX_CRC_LEN) packet)) ?post t"
    if "case x of (p, b) \<Rightarrow> p \<noteq> None \<and> taken f d c t" for x and t :: "'a sys"
    using that wp_supplied_into [OF dk _ True] by (auto split: prod.splits option.splits)
  show ?thesis
    unfolding rx_record_body_def Let_def
    by (simp add: g True wp_bind [of "incr x y" for x y] wp_incr wp_bind [of "rxAcquirePacket dk"])
      (rule wp_mono [OF wp_supplied_acquire [OF dk s']], rule acquired, simp split: prod.splits)
qed

lemma wp_supplied_loop:
  "supplying dk \<Longrightarrow> taken f d c s \<Longrightarrow> wp (rx_loop dk buf len off n) (\<lambda>_. taken
      (f + of_nat (length (payloads buf len off)))
      (d + of_nat (length (filter (\<lambda>r. \<not> acceptable r) (rx_records buf len off))))
      (c @ payloads buf len off)) s"
proof (induction dk buf len off n arbitrary: f d c s rule: rx_loop.induct)
  case (1 dk buf len off n)
  show ?case
  proof (cases "smsc95xx_rx_next buf (ucast len) off")
    case None
    then have "rx_records buf len off = []" by (subst rx_records.simps) simp
    then show ?thesis using 1(3) None by (subst rx_loop.simps) (simp add: wp_simps payloads_def)
  next
    case (Some r)
    then have more: "rx_records buf len off = r # rx_records buf len (rx_offset r)"
      by (subst rx_records.simps) simp
    note IH = 1(1) [OF Some _ 1(2)]
    have go: "wp (if b then rx_loop dk buf len (rx_offset r) (n + 1) else return (n + 1))
        (\<lambda>_. taken (f + of_nat (length (payloads buf len off)))
          (d + of_nat (length (filter (\<lambda>r. \<not> acceptable r) (rx_records buf len off))))
          (c @ payloads buf len off)) t"
      if "b \<and> (if acceptable r then taken (f + 1) d (c @ [payload buf r]) t else taken f (d + 1) c t)"
      for b and t :: "'a sys"
      using that IH [of True "f + 1" d "c @ [payload buf r]" t] IH [of True f "d + 1" c t]
      by (simp add: payloads_def more split: if_splits) (simp_all add: ac_simps)
    show ?thesis
      by (subst rx_loop.simps)
        (simp add: Some wp_bind, rule wp_mono [OF wp_supplied_record [OF 1(2,3)]], rule go)
  qed
qed

lemma arm_taken: "keeps (taken f d c) (armRxRead dk)"
  unfolding armRxRead_def ext_log_def
  by (intro keeps_intros keeps_ext keeps_emit | simp add: taken_def split: prod.split option.split)+

lemma rearm_taken: "keeps (taken f d c) (rearmRxRead dk b)"
  unfolding rearmRxRead_def Let_def ext_log_def
  by (intro keeps_intros arm_taken keeps_ext keeps_emit) (simp_all add: taken_def)

lemma wp_supplied_complete:
  assumes dk: "supplying dk" and s: "taken f d c s" "rxRunning s" "rxBytes s = Some buf" "pool s \<noteq> None"
    and n: "n \<noteq> 0"
  shows "wp (RxComplete dk kIOReturnSuccess n) (\<lambda>_. taken (f + of_nat (length (payloads buf n 0)))
      (d + of_nat (length (filter (\<lambda>r. \<not> acceptable r) (rx_records buf n 0))))
      (c @ payloads buf n 0)) s"
proof -
  let ?s = "inRxComplete_update (\<lambda>_. True) (rxCompletions_update (\<lambda>n. n + 1)
      (rxArmed_update (\<lambda>_. False) (s\<lparr>calls := calls s @ [RxCompleted kIOReturnSuccess n]\<rparr>)))"
  let ?Q = "taken (f + of_nat (length (payloads buf n 0)))
      (d + of_nat (length (filter (\<lambda>r. \<not> acceptable r) (rx_records buf n 0)))) (c @ payloads buf n 0)"
  have s': "taken f d c (rxByteCount_update (\<lambda>m. m + ucast n) ?s)" using s by (simp add: taken_def)
  have tail: "keeps ?Q (do { whenever (records = 0) (incr rxZeroRecords_update 1); rearmRxRead dk True;
      assign inRxComplete_update False })" for records :: u32
    by (intro keeps_intros rearm_taken) (simp_all add: taken_def)
  obtain p q where pq: "pool s = Some p" "rxComplete s = Some q" using s by (auto simp: taken_def)
  have body: "wp (rx_transfer dk buf pipe kIOReturnSuccess n) (\<lambda>_. wp (assign inRxComplete_update False) (\<lambda>_. ?Q)) ?s" for pipe
    unfolding rx_transfer_def
    using n keeps_wp [OF tail]
    by (simp add: wp_bind [of "incr x y" for x y] wp_incr wp_bind [of "rx_loop dk buf n 0 0"])
      (rule wp_mono [OF wp_supplied_loop [OF dk s']], simp add: wp_bind wp_bind_fun)
  show ?thesis
    unfolding RxComplete_def
    using s pq body by (simp add: wp_simps wp_bind_fun kIOReturnAborted_def kIOReturnSuccess_def)
qed


section \<open>From the wire to the stack\<close>

text \<open>What the driver hands on of a record the device packed: no error flag, more than a checksum,
  and at most 1518 bytes without it.\<close>

fun deliverable :: "u32 \<times> u8 list \<Rightarrow> bool" where
  "deliverable (flags, frame) \<longleftrightarrow> flags AND (RX_STS_ERROR_SUM OR RX_STS_FILTER_FAIL) = 0
     \<and> 4 < length frame \<and> length frame \<le> 1522"

fun without_crc :: "u32 \<times> u8 list \<Rightarrow> u8 list" where
  "without_crc (flags, frame) = take (length frame - 4) frame"

lemma status_flags:
  assumes "n \<le> 16383"
  shows "status_word flags n AND (RX_STS_ERROR_SUM OR RX_STS_FILTER_FAIL)
    = flags AND (RX_STS_ERROR_SUM OR RX_STS_FILTER_FAIL)"
proof (rule bit_word_eqI)
  fix i assume "i < LENGTH(32)"
  have n: "(of_nat n :: u32) = take_bit 14 (of_nat n)"
    using assms by (intro take_bit_word_self [symmetric]) (simp add: unat_of_nat_small)
  have m: "RX_STS_LEN_MASK = push_bit 16 (mask 14)" "RX_STS_ERROR_SUM = push_bit 15 1"
      "RX_STS_FILTER_FAIL = push_bit 30 1"
    by (simp_all add: RX_STS_LEN_MASK_def RX_STS_ERROR_SUM_def RX_STS_FILTER_FAIL_def mask_eq_exp_minus_1)
  have e: "bit (RX_STS_ERROR_SUM OR RX_STS_FILTER_FAIL) i \<longleftrightarrow> i = 15 \<or> i = 30"
    unfolding m bit_or_iff bit_push_bit_iff by (auto simp: bit_1_iff)
  show "bit (status_word flags n AND (RX_STS_ERROR_SUM OR RX_STS_FILTER_FAIL)) i
    = bit (flags AND (RX_STS_ERROR_SUM OR RX_STS_FILTER_FAIL)) i"
    unfolding status_word_def RX_STS_LEN_SHIFT_def bit_and_iff e
    by (subst n) (auto simp: m(1) bit_and_iff bit_or_iff bit_not_iff bit_push_bit_iff bit_take_bit_iff bit_mask_iff)
qed

lemma seen_record:
  assumes r: "r \<in> set (rx_records buf len 0)" and len: "unat len \<le> length buf"
  shows "acceptable r = deliverable (seen buf r)" and "payload buf r = without_crc (seen buf r)"
proof -
  have b: "4 \<le> unat (rx_frame_len r)" "unat (rx_frame r) + unat (rx_frame_len r) \<le> unat len"
    using rx.chain_bounds [OF chain_rx_records _ r] by simp_all
  have n: "unat (rx_frame_len r - 4) = unat (rx_frame_len r) - 4"
    using b by (simp add: unat_sub word_le_nat_alt)
  have l: "length (slice (unat (rx_frame r)) (unat (rx_frame_len r)) buf) = unat (rx_frame_len r)"
    using b len by (intro length_slice) simp
  show "acceptable r = deliverable (seen buf r)"
    by (auto simp: acceptable_def seen_def l RX_CRC_LEN_def RX_MAX_PAYLOAD_def word_less_nat_alt
      word_le_nat_alt n)
  show "payload buf r = without_crc (seen buf r)"
    by (simp add: payload_def seen_def l RX_CRC_LEN_def n) (simp add: slice_def min_def)
qed

lemma payloads_seen:
  assumes "unat len \<le> length buf"
  shows "payloads buf len 0 = map without_crc (filter deliverable (map (seen buf) (rx_records buf len 0)))"
    and "length (filter (\<lambda>r. \<not> acceptable r) (rx_records buf len 0))
      = length (filter (\<lambda>x. \<not> deliverable x) (map (seen buf) (rx_records buf len 0)))"
  using seen_record [OF _ assms]
  by (simp_all add: payloads_def filter_map comp_def cong: filter_cong)

lemma deliverable_encoded:
  assumes "\<forall>(flags, frame) \<in> set recs. 4 \<le> length frame \<and> length frame \<le> 16383"
  shows "map without_crc (filter deliverable (map (\<lambda>(fl, fr). (status_word fl (length fr), fr)) recs))
      = map without_crc (filter deliverable recs)"
    and "length (filter (\<lambda>x. \<not> deliverable x) (map (\<lambda>(fl, fr). (status_word fl (length fr), fr)) recs))
      = length (filter (\<lambda>x. \<not> deliverable x) recs)"
  using assms by (induction recs) (auto simp: status_flags)

lemma payloads_encoded:
  assumes "\<forall>(flags, frame) \<in> set recs. 4 \<le> length frame \<and> length frame \<le> 16383"
    and "length pad < 4" and "length (encode_records recs @ pad) < 2 ^ 32"
    and "buf = encode_records recs @ pad @ stale" and "len = of_nat (length (encode_records recs @ pad))"
  shows "payloads buf len 0 = map without_crc (filter deliverable recs)"
    and "length (filter (\<lambda>r. \<not> acceptable r) (rx_records buf len 0))
      = length (filter (\<lambda>x. \<not> deliverable x) recs)"
proof -
  have len: "unat len = length (encode_records recs @ pad)"
    unfolding assms(5) by (rule unat_of_nat_small) (use assms(3) in simp)
  have "map (seen buf) (rx_records buf len 0) = map (\<lambda>(fl, fr). (status_word fl (length fr), fr)) recs"
    by (rule rx_records_encoded [where pre = "[]" and rest = "pad @ stale" and k = "length pad"])
      (use assms len in simp_all)
  moreover have "unat len \<le> length buf" using len assms(4) by simp
  ultimately show "payloads buf len 0 = map without_crc (filter deliverable recs)"
    "length (filter (\<lambda>r. \<not> acceptable r) (rx_records buf len 0)) = length (filter (\<lambda>x. \<not> deliverable x) recs)"
    using deliverable_encoded [OF assms(1)] by (simp_all add: payloads_seen)
qed


text \<open>The bench with a receive queue that never runs dry.\<close>

definition bench_supplied :: "bench dk" where
  "bench_supplied = bench_dk\<lparr>dk_DequeuePackets := \<lambda>q. return (1, Some 7)\<rparr>"

lemma bench_supplied_ok: "supplying bench_supplied"
  by (simp add: bench_supplied_def supplying_def LOWEST_MAPPED_def kIOReturnSuccess_def)


end
