(* ===== verification/Rx_Idle.thy ===== *)
theory Rx_Idle
  imports Bench
begin

text \<open>
  The idle backoff of the receive path (\<open>rearmRxRead\<close>, \<open>RxBackoffExpired\<close>): a device with nothing to
  deliver completes reads at once, and the driver must not answer each one with another read forever.
\<close>

section \<open>Reads submitted\<close>

fun rx_reads :: "call \<Rightarrow> nat" where
  "rx_reads (SubmitIn p n ret) = 1"
| "rx_reads _ = 0"

text \<open>Nothing arrives in these steps, and the interface is not switched.\<close>

fun idle_entry :: "entry \<Rightarrow> bool" where
  "idle_entry (RxDone status n bs) \<longleftrightarrow> status \<noteq> kIOReturnSuccess \<or> n = 0"
| "idle_entry (EnableInterface b) \<longleftrightarrow> False"
| "idle_entry _ \<longleftrightarrow> True"

text \<open>The reads submitted so far and the run of empty completions are \<open>n\<close> and \<open>r\<close>.\<close>

definition level :: "nat \<Rightarrow> u64 \<Rightarrow> 'e sys \<Rightarrow> bool" where
  "level n r s \<longleftrightarrow> tally rx_reads (calls s) = n \<and> rxIdleRun s = r"

lemma level_ext [keeps_intros]: "keeps (level n r) (ext f)"
  by (rule keeps_ext) (simp add: level_def)

lemma level_emit: "rx_reads c = 0 \<Longrightarrow> keeps (level n r) (emit c)"
  by (rule keeps_emit) (simp add: level_def)

lemma level_log: "(\<And>a. rx_reads (c a) = 0) \<Longrightarrow> keeps (level n r) (ext_log f c)"
  unfolding ext_log_def by (intro keeps_intros level_emit)

lemma level_deref: "(\<And>x. keeps (level n r) (f x)) \<Longrightarrow> keeps (level n r) (deref p d f)"
  unfolding deref_def by (intro keeps_intros level_emit) simp_all

lemmas level_intros = keeps_intros level_log level_deref level_emit

section \<open>The transmit path and the promiscuous switch leave both alone\<close>

lemma txReturnPacket_level: "keeps (level n r) (txReturnPacket dk k)"
  unfolding txReturnPacket_def by (intro level_intros) (simp_all add: level_def)

lemma txSubmitPacket_level: "keeps (level n r) (txSubmitPacket dk k)"
  unfolding txSubmitPacket_def tx_submit_transfer_def reject_packet_def Let_def
  by (intro level_intros | simp add: level_def split: prod.split option.split)+

lemma tx_drain_body_level: "keeps (level n r) (tx_drain_body dk)"
  unfolding tx_drain_body_def
  by (intro level_intros txSubmitPacket_level txReturnPacket_level) (simp_all add: level_def)

lemma tx_drain_loop_level:
  assumes "tx_drain_loop dk k s = Some (sent, t)"
  shows "level n r s \<Longrightarrow> level n r t"
proof -
  have "level n r s \<longrightarrow> level n r (snd x)" if "tx_drain_loop dk k s = Some x" for k s x
  proof (rule tx_drain_loop.raw_induct [OF _ that], intro impI, goal_cases)
    case (1 loop dk k s x)
    have "level n r (exec_state (tx_drain_body dk) s)"
      by (rule keepsD [OF tx_drain_body_level 1(3)])
    then show ?case
      using 1 by (auto split: if_splits prod.splits drain_outcome.splits)
  qed
  from this [OF assms] show "level n r s \<Longrightarrow> level n r t" by simp
qed

lemma txDrainSubmission_level: "keeps (level n r) (txDrainSubmission dk)"
proof -
  have loop: "keeps (level n r) (State (\<lambda>s. case tx_drain_loop dk 0 s of
      None \<Rightarrow> (None, s\<lparr>calls := calls s @ [Diverged]\<rparr>) | Some (sent, s) \<Rightarrow> (Some sent, s)))"
    by (rule keepsI) (auto simp: level_def split: option.split dest: tx_drain_loop_level [unfolded level_def])
  show ?thesis
    unfolding txDrainSubmission_def by (intro level_intros loop) (simp_all add: level_def)
qed

lemma TxDataAvailable_level: "keeps (level n r) (TxDataAvailable dk)"
  unfolding TxDataAvailable_def by (intro level_intros txDrainSubmission_level) (simp_all add: level_def)

lemma TxComplete_level: "keeps (level n r) (TxComplete dk status k)"
  unfolding TxComplete_def
  by (intro level_intros txDrainSubmission_level txReturnPacket_level) (simp_all add: level_def)

lemma setPromiscuous_level: "keeps (level n r) (setPromiscuousModeEnable dk b)"
  unfolding setPromiscuousModeEnable_def readRegister_def writeRegister_def device_request_def Let_def
  by (intro level_intros | simp add: level_def split: prod.split option.split)+

section \<open>One empty completion\<close>

lemma wp_arm_level:
  "level n r s \<Longrightarrow> wp (armRxRead dk) (\<lambda>_ t. level n r t \<or> level (Suc n) r t) s"
  by (auto simp: armRxRead_def wp_simps level_def split: option.split prod.split)

text \<open>A further empty completion reads again only while the run is within the limit.\<close>

lemma wp_rearm_level:
  assumes "level n r s"
  shows "wp (rearmRxRead dk False) (\<lambda>_ t. level n (r + 1) t \<or> r + 1 \<le> RX_IDLE_RUN_LIMIT \<and> level (Suc n) (r + 1) t) s"
    (is "wp _ ?Q s")
proof -
  have arm: "wp (do { armRxRead dk; skip }) ?Q t" if "level n (r + 1) t" "r + 1 \<le> RX_IDLE_RUN_LIMIT" for t
    unfolding wp_bind by (rule wp_mono [OF wp_arm_level [OF that(1)]]) (use that in \<open>auto simp: wp_simps\<close>)
  have s: "level n (r + 1) (rxIdleRun_update (\<lambda>x. x + 1) s)" "rxIdleRun (rxIdleRun_update (\<lambda>x. x + 1) s) = r + 1"
    using assms by (simp_all add: level_def)
  show ?thesis
  proof (cases "r + 1 \<le> RX_IDLE_RUN_LIMIT")
    case True
    then show ?thesis using arm [OF s(1)] s(2) by (simp add: rearmRxRead_def wp_simps)
  next
    case False
    then show ?thesis using s
      by (auto simp: rearmRxRead_def wp_simps level_def Let_def split: option.split prod.split)
  qed
qed

lemma level_frame [simp]:
  "level n r (env_update h s) = level n r s" "level n r (rxCompletionErrors_update f s) = level n r s"
  "level n r (rxByteCount_update f s) = level n r s" "level n r (rxZeroLength_update f s) = level n r s"
  "level n r (rxArmed_update g s) = level n r s" "level n r (rxCompletions_update f s) = level n r s"
  "level n r (inRxComplete_update g s) = level n r s" "level n r (rxBackoffWakes_update f s) = level n r s"
  by (simp_all add: level_def)

lemma level_calls [simp]: "level n r (s\<lparr>calls := cs\<rparr>) \<longleftrightarrow> tally rx_reads cs = n \<and> rxIdleRun s = r"
  by (simp add: level_def)

lemma levelD: "level n r s \<Longrightarrow> tally rx_reads (calls s) = n" "level n r s \<Longrightarrow> rxIdleRun s = r"
  by (simp_all add: level_def)

lemma wp_idle_completion:
  assumes "level n r s" and "status \<noteq> kIOReturnSuccess \<or> k = 0"
  shows "wp (RxComplete dk status k) (\<lambda>_ t. level n r t \<or> level n (r + 1) t \<or>
    r + 1 \<le> RX_IDLE_RUN_LIMIT \<and> level (Suc n) (r + 1) t) s"
    (is "wp _ ?Q s")
proof -
  have rearm: "wp (rearmRxRead dk False) ?Q t" if "level n r t" for t
    by (rule wp_mono [OF wp_rearm_level [OF that]]) auto
  have transfer: "wp (rx_transfer dk buf pipe status k) ?Q t" if "level n r t" for buf pipe t
    using assms(2) that
    by (auto simp: rx_transfer_def wp_simps split: option.split prod.split intro!: rearm)
      (simp_all add: level_def)
  have guarded: "wp (if status = kIOReturnAborted \<and> \<not> rxRunning u then skip
      else if \<not> rxRunning u then skip
      else case (rxBytes u, pool u, rxComplete u) of
        (Some buf, Some _, Some _) \<Rightarrow> rx_transfer dk buf (pipeIn u) status k
      | _ \<Rightarrow> skip) ?Q t" if "level n r t" for u t
    using that by (auto simp: wp_if wp_skip intro!: transfer split: option.split)
  show ?thesis
    unfolding RxComplete_def wp_bind wp_emit wp_assign wp_incr wp_gets id_apply
    by (rule wp_mono [OF guarded]) (use assms(1) in \<open>auto simp: level_def\<close>)
qed

section \<open>Any run of idle steps\<close>

definition spare :: "u64 \<Rightarrow> nat" where
  "spare r = unat RX_IDLE_RUN_LIMIT - unat r"

lemma spare_next:
  assumes "unat r + 1 < 2 ^ 64"
  shows "unat (r + 1) = Suc (unat r)" "spare (r + 1) \<le> spare r"
    "r + 1 \<le> RX_IDLE_RUN_LIMIT \<Longrightarrow> Suc (spare (r + 1)) = spare r"
proof -
  show r: "unat (r + 1) = Suc (unat r)" using assms unat_add_small [of r 1] by simp
  show "spare (r + 1) \<le> spare r" "r + 1 \<le> RX_IDLE_RUN_LIMIT \<Longrightarrow> Suc (spare (r + 1)) = spare r"
    using r by (simp_all add: spare_def word_le_nat_alt)
qed

lemma idle_step:
  assumes s: "level n r s" and "idle_entry e" and r: "unat r + 1 < 2 ^ 64"
  shows "\<exists>n' r'. level n' r' (enter dk e s) \<and> unat r' \<le> unat r + 1
    \<and> n' + spare r' \<le> n + spare r + of_bool (e = BackoffFired)"
proof -
  have same: "\<exists>n' r'. level n' r' t \<and> unat r' \<le> unat r + 1 \<and> n' + spare r' \<le> n + spare r + b"
    if "level n r t" for t :: "'a sys" and b using that by (intro exI [of _ n] exI [of _ r]) simp
  show ?thesis
  proof (cases e)
    case (RxDone status k bs)
    then have "level n r (fill_rx bs s)" "status \<noteq> kIOReturnSuccess \<or> k = 0"
      using s assms(2) by (simp_all add: level_def fill_rx_def)
    from wp_exec [OF wp_idle_completion [OF this, of dk]]
    consider "level n r (enter dk e s)" | "level n (r + 1) (enter dk e s)"
      | "r + 1 \<le> RX_IDLE_RUN_LIMIT" "level (Suc n) (r + 1) (enter dk e s)"
      unfolding RxDone by auto
    then show ?thesis
    proof cases
      case 2
      then show ?thesis using spare_next [OF r] by (intro exI [of _ n] exI [of _ "r + 1"]) simp
    next
      case 3
      then show ?thesis using spare_next [OF r] by (intro exI [of _ "Suc n"] exI [of _ "r + 1"]) simp
    qed (rule same)
  next
    case BackoffFired
    have "wp (RxBackoffExpired dk) (\<lambda>_ t. level n r t \<or> level (Suc n) r t) s"
      using s by (auto simp: RxBackoffExpired_def wp_simps intro!: wp_mono [OF wp_arm_level])
    from wp_exec [OF this] BackoffFired consider "level n r (enter dk e s)" | "level (Suc n) r (enter dk e s)" by auto
    then show ?thesis
    proof cases
      case 2
      then show ?thesis using BackoffFired by (intro exI [of _ "Suc n"] exI [of _ r]) simp
    qed (rule same)
  qed (use assms(2) s in \<open>auto intro!: same [of _ 0, simplified] keepsD [OF TxDataAvailable_level] keepsD [OF TxComplete_level]
      keepsD [OF setPromiscuous_level]\<close>)
qed

lemma idle_run:
  assumes "level n r s" and "list_all idle_entry es" and "unat r + length es < 2 ^ 64"
  shows "\<exists>n' r'. level n' r' (fold (enter dk) es s)
    \<and> n' + spare r' \<le> n + spare r + length (filter (\<lambda>e. e = BackoffFired) es)"
  using assms
proof (induction es arbitrary: n r s)
  case Nil
  then show ?case by auto
next
  case (Cons e es)
  obtain n1 r1 where 1: "level n1 r1 (enter dk e s)" "unat r1 \<le> unat r + 1"
    "n1 + spare r1 \<le> n + spare r + of_bool (e = BackoffFired)"
    using idle_step [OF Cons.prems(1), of e dk] Cons.prems by auto
  obtain n2 r2 where "level n2 r2 (fold (enter dk) es (enter dk e s))"
    "n2 + spare r2 \<le> n1 + spare r1 + length (filter (\<lambda>e. e = BackoffFired) es)"
    using Cons.IH [OF 1(1)] Cons.prems 1(2) by auto
  then show ?case using 1(3) by (auto intro!: exI [of _ n2] exI [of _ r2])
qed

text \<open>
  C12: An idle device is not polled in a busy loop: over any sequence of steps in which no data arrives and
  the interface is not switched, whatever the device and the system answer, the driver submits at most
  as many reads as are left of the eight immediate ones, and one for every time the 100 ms timer fired.
\<close>

theorem idle_polling_bounded:
  assumes "list_all idle_entry es" and "unat (rxIdleRun s) + length es < 2 ^ 64"
  shows "tally rx_reads (calls (fold (enter dk) es s)) \<le> tally rx_reads (calls s)
    + (8 - unat (rxIdleRun s)) + length (filter (\<lambda>e. e = BackoffFired) es)"
  using idle_run [OF _ assms(1), of _ "rxIdleRun s" s dk] assms(2)
  by (auto simp: level_def spare_def RX_IDLE_RUN_LIMIT_def)

lemma idle_polling_bounded_witness:
  "tally rx_reads (calls (fold (enter bench_dk) (replicate 20 (RxDone kIOReturnSuccess 0 []) @ [BackoffFired]) bench_up))
     \<le> tally rx_reads (calls bench_up) + 9"
proof -
  have "rxIdleRun bench_up = 0" by (simp add: bench_up_def bench_defs)
  then show ?thesis
    using idle_polling_bounded [of "replicate 20 (RxDone kIOReturnSuccess 0 []) @ [BackoffFired]" bench_up bench_dk]
    by (simp add: list_all_iff)
qed

end
