(* ===== verification/Tx_Drain.thy ===== *)
theory Tx_Drain
  imports Bench
begin

text \<open>
  When the drain loop of the transmit path ends. Nothing in the loop counts, so it ends only because
  the submission queue does: it returns on every stack whose supply of packets shrinks with each
  one taken, and on a stack that keeps presenting packets the driver refuses it never returns.
\<close>

section \<open>A finite supply\<close>

text \<open>
  \<open>stock\<close> bounds the packets the stack can still present. Taking one uses it up; nothing else the
  driver calls while it drains adds to it.
\<close>

definition no_gain :: "('e \<Rightarrow> nat) \<Rightarrow> ('e, 'a) state \<Rightarrow> bool" where
  "no_gain stock f \<longleftrightarrow> (\<forall>e. stock (exec_state f e) \<le> stock e)"

definition finite_supply :: "'e dk \<Rightarrow> ('e \<Rightarrow> nat) \<Rightarrow> bool" where
  "finite_supply dk stock \<longleftrightarrow>
     (\<forall>q e. fst (eval_state (dk_DequeuePackets dk q) e) \<noteq> 0 \<longrightarrow>
        stock (exec_state (dk_DequeuePackets dk q) e) < stock e)
   \<and> (\<forall>k. no_gain stock (dk_getDataLength dk k)) \<and> (\<forall>k. no_gain stock (dk_getDataOff dk k))
   \<and> (\<forall>k. no_gain stock (dk_getDataVirtualAddress dk k)) \<and> (\<forall>a n. no_gain stock (dk_peek dk a n))
   \<and> (\<forall>p b bs n a. no_gain stock (dk_AsyncIO dk p b bs n a))
   \<and> (\<forall>q k. no_gain stock (dk_enqueuePackets dk q k))"

definition stocked :: "('e \<Rightarrow> nat) \<Rightarrow> nat \<Rightarrow> 'e sys \<Rightarrow> bool" where
  "stocked stock m s \<longleftrightarrow> stock (env s) \<le> m"

lemma stocked_ext: "no_gain stock f \<Longrightarrow> keeps (stocked stock m) (ext f)"
  by (auto simp: no_gain_def stocked_def keeps_def ext_def split: prod.split intro: order_trans)
    (metis order_trans snd_conv)

lemma stocked_ext_log: "no_gain stock f \<Longrightarrow> keeps (stocked stock m) (ext_log f c)"
  unfolding ext_log_def by (intro keeps_intros stocked_ext keeps_emit) (simp_all add: stocked_def)

lemma txReturnPacket_stocked:
  assumes "finite_supply dk stock"
  shows "keeps (stocked stock m) (txReturnPacket dk k)"
  using assms unfolding txReturnPacket_def
  by (intro keeps_intros stocked_ext_log) (auto simp: finite_supply_def stocked_def)

lemma tx_submit_transfer_stocked:
  assumes "finite_supply dk stock"
  shows "keeps (stocked stock m) (tx_submit_transfer dk k p b a bs n)"
  using assms unfolding tx_submit_transfer_def
  by (intro keeps_intros stocked_ext_log) (auto simp: finite_supply_def stocked_def)

lemma txSubmitPacket_stocked:
  assumes "finite_supply dk stock"
  shows "keeps (stocked stock m) (txSubmitPacket dk k)"
proof -
  have reject: "keeps (stocked stock m) (reject_packet ret)" for ret
    unfolding reject_packet_def by (intro keeps_intros) (simp add: stocked_def)
  show ?thesis
    using assms unfolding txSubmitPacket_def Let_def
    by (intro keeps_intros stocked_ext stocked_ext_log reject tx_submit_transfer_stocked)
      (auto simp: finite_supply_def stocked_def)
qed

lemma tx_drain_body_stock:
  assumes fin: "finite_supply dk stock"
  shows "wp (tx_drain_body dk) (\<lambda>outcome t. outcome \<noteq> Drained \<longrightarrow> stock (env t) < stock (env s)) s"
proof -
  let ?m = "stock (env s) - 1"
  have after: "wp (do { emit (TxDequeued k); incr txDequeued_update 1; sret \<leftarrow> txSubmitPacket dk k;
      if sret = kIOReturnSuccess then return Sent else do { txReturnPacket dk (Some k); return drain_outcome.Refused } })
    (\<lambda>outcome t. outcome \<noteq> Drained \<longrightarrow> stock (env t) < stock (env s)) v"
    if "stock (env v) < stock (env s)" for k and v :: "'a sys"
  proof -
    have "keeps (stocked stock ?m) (do { emit (TxDequeued k); incr txDequeued_update 1; sret \<leftarrow> txSubmitPacket dk k;
      if sret = kIOReturnSuccess then return Sent else do { txReturnPacket dk (Some k); return drain_outcome.Refused } })"
      by (intro keeps_intros keeps_emit txSubmitPacket_stocked [OF fin] txReturnPacket_stocked [OF fin])
        (simp_all add: stocked_def)
    moreover have "stocked stock ?m v" using that by (simp add: stocked_def)
    ultimately have "wp (do { emit (TxDequeued k); incr txDequeued_update 1; sret \<leftarrow> txSubmitPacket dk k;
        if sret = kIOReturnSuccess then return Sent else do { txReturnPacket dk (Some k); return drain_outcome.Refused } })
      (\<lambda>_. stocked stock ?m) v" by (rule keeps_wp)
    then show ?thesis by (rule wp_mono) (use that in \<open>auto simp: stocked_def\<close>)
  qed
  have dec: "stock (exec_state (dk_DequeuePackets dk q) (env s)) < stock (env s)"
    if "fst (eval_state (dk_DequeuePackets dk q) (env s)) \<noteq> 0" for q
    using fin that by (simp add: finite_supply_def)
  show ?thesis
    unfolding tx_drain_body_def deref_def
    by (simp add: wp_bind wp_bind_fun wp_simps case_prod_beta split: option.split)
      (use after [where v = "s\<lparr>env := exec_state (dk_DequeuePackets dk q) (env s)\<rparr>" for q] dec
        in \<open>simp add: wp_bind wp_bind_fun wp_simps\<close>)
qed


lemma drain_ends:
  assumes "finite_supply dk stock"
  shows "\<exists>r. tx_drain_loop dk n s = Some r"
proof (induction "stock (env s)" arbitrary: n s rule: less_induct)
  case less
  obtain outcome t where run: "run_state (tx_drain_body dk) s = (outcome, t)" by fastforce
  then have "outcome \<noteq> Drained \<Longrightarrow> stock (env t) < stock (env s)"
    using tx_drain_body_stock [OF assms, of s] by (simp add: wp_def)
  from less [OF this] show ?case
    by (subst tx_drain_loop.simps) (cases outcome; simp add: run)
qed

text \<open>
  C18: The drain loop terminates on every stack whose supply of packets is finite: if each packet taken
  off the submission queue uses up some of a stock that nothing else the loop calls adds to, the loop
  returns from any state, however many packets it has to refuse on the way.
\<close>

theorem drain_terminates:
  assumes "finite_supply dk stock"
  shows "\<exists>sent t. tx_drain_loop dk n s = Some (sent, t)"
  using drain_ends [OF assms, of n s] by auto

lemma bench_finite: "finite_supply (bench_platform rx tx) backlog"
  by (auto simp: finite_supply_def no_gain_def bench_dequeue_def split: nat.splits)

lemma drain_terminates_witness:
  "\<exists>sent t. tx_drain_loop bench_dk 0 bench_up = Some (sent, t)"
  by (rule drain_terminates [OF bench_finite])

section \<open>A supply without end\<close>

text \<open>
  A stack that presents a packet every time it is asked, of a length the driver refuses: the
  completion queue hands each refused packet straight back, so the stack can go on presenting it.
\<close>

definition insists :: "'e dk \<Rightarrow> pkt \<Rightarrow> bool" where
  "insists dk k \<longleftrightarrow> (\<forall>q e. eval_state (dk_DequeuePackets dk q) e = (1, Some k))
     \<and> (\<forall>e. eval_state (dk_getDataLength dk k) e = 0)"

lemma insists_body:
  assumes dk: "insists dk k" and s: "txSubmit s \<noteq> None" "\<not> txInFlight s"
  shows "wp (tx_drain_body dk) (\<lambda>outcome t. outcome = drain_outcome.Refused \<and> txSubmit t \<noteq> None \<and> \<not> txInFlight t) s"
proof -
  have bad: "kIOReturnBadArgument \<noteq> kIOReturnSuccess" by (simp add: kIOReturnBadArgument_def kIOReturnSuccess_def)
  show ?thesis
    using s bad dk unfolding insists_def
    by (auto simp: tx_drain_body_def txSubmitPacket_def txReturnPacket_def reject_packet_def wp_simps
      wp_bind_fun case_prod_beta split: option.splits)
qed

text \<open>
  C19: Nothing bounds the drain loop but the stack: on a stack that keeps presenting a packet of length
  zero the loop never returns, although each such packet is handed back at once.
\<close>

theorem drain_diverges:
  assumes "insists dk k" and "txSubmit s \<noteq> None" and "\<not> txInFlight s"
  shows "tx_drain_loop dk n s = None"
proof -
  have "insists dk k \<longrightarrow> txSubmit s \<noteq> None \<longrightarrow> txInFlight s" if "tx_drain_loop dk n s = Some r" for n s r
  proof (rule tx_drain_loop.raw_induct [OF _ that], intro impI, goal_cases)
    case (1 loop dk n s r)
    obtain outcome t where run: "run_state (tx_drain_body dk) s = (outcome, t)" by fastforce
    show "txInFlight s"
    proof (rule ccontr)
      assume s: "\<not> txInFlight s"
      then have "outcome = drain_outcome.Refused" "txSubmit t \<noteq> None" "\<not> txInFlight t"
        using wp_runD [OF insists_body [OF 1(3,4) s] run] by simp_all
      then show False using 1 s run by (auto split: if_splits)
    qed
  qed
  from this [of n s] show ?thesis using assms by (cases "tx_drain_loop dk n s") auto
qed

lemma drain_diverges_witness:
  "tx_drain_loop (bench_dk\<lparr>dk_DequeuePackets := \<lambda>q. return (1, Some 7), dk_getDataLength := \<lambda>k. return 0\<rparr>)
     0 bench_up = None"
  by (rule drain_diverges [where k = 7]) (simp_all add: insists_def bench_up_def bench_defs)

end
