(* ===== verification/Tx_Wire.thy ===== *)
theory Tx_Wire
  imports Bench
begin

text \<open>
  The bytes that reach the bulk OUT pipe: one packet's submission on every branch, and the shape of
  every transfer of a whole run of the driver.
\<close>

section \<open>Submitting one packet\<close>

text \<open>Reading packet memory gives as many bytes as were asked for.\<close>

definition reads_whole :: "'e dk \<Rightarrow> bool" where
  "reads_whole dk \<longleftrightarrow> (\<forall>a n e. length (eval_state (dk_peek dk a n) e) = n)"

lemma frame_overlay:
  assumes "length h = 8" "8 + length fr \<le> length b"
  shows "take (8 + length fr) (overlay (h @ drop 8 b) 8 fr) = h @ fr"
  using assms take_overlay [of 8 fr "h @ drop 8 b"] by simp

lemma length_frame_overlay:
  assumes "length h = 8" "8 + length fr \<le> length b"
  shows "length (overlay (h @ drop 8 b) 8 fr) = length b"
  using assms by (subst length_overlay) simp_all

text \<open>The frames the driver sends, given the packet's length, data offset and base address.\<close>

definition sendable :: "u32 \<Rightarrow> size_t \<Rightarrow> u64 \<Rightarrow> bool" where
  "sendable n off base \<longleftrightarrow> 42 \<le> unat n \<and> unat n \<le> 1514 \<and> LOWEST_MAPPED \<le> base + off
     \<and> off + ucast n \<le> POOL_BUFFER_SIZE"

lemma unat_ucast_64 [simp]: "unat (ucast (n :: u32) :: size_t) = unat n"
  by (simp add: unat_ucast_up)

lemma transfer_length:
  fixes n :: u32
  assumes "unat n \<le> 1514"
  shows "unat (ucast (8 + ucast n :: size_t) :: u32) = 8 + unat n"
proof -
  have "unat (8 + ucast n :: size_t) = 8 + unat n"
    using assms by (subst unat_add_small) simp_all
  then show ?thesis using assms by (simp add: unsigned_ucast_eq take_bit_nat_eq_self)
qed

lemma submit_run:
  assumes "txBytes s = Some b" "1526 \<le> length b" "txBuffer s = Some buffer" "pipeOut s = Some pipe"
    "txAction s = Some action"
    and n: "run_state (dk_getDataLength dk k) (env s) = (n, e1)"
    and off: "run_state (dk_getDataOff dk k) e1 = (off, e2)"
    and base: "run_state (dk_getDataVirtualAddress dk k) e2 = (base, e3)"
  shows "run_state (txSubmitPacket dk k) s =
    (if sendable n off base then
       (let (frame, e4) = run_state (dk_peek dk (base + off) (unat n)) e3;
            bytes = overlay (tx_header (ucast n) @ drop 8 b) 8 frame
        in run_state (tx_submit_transfer dk k pipe buffer action bytes (ucast (8 + ucast n :: size_t)))
          (s\<lparr>env := e4, calls := calls s @ [CopyOut base off (unat n)], txBytes := Some bytes\<rparr>))
     else (kIOReturnBadArgument, s\<lparr>env := e3, txRejected := txRejected s + 1,
         txBytes := Some (if 42 \<le> unat n \<and> unat n \<le> 1514 then tx_header (ucast n) @ drop 8 b else b)\<rparr>))"
proof -
  have l: "unat TX_BUFFER_LEN = 1526" by (simp add: TX_BUFFER_LEN_def TX_HEADER_LEN_def TX_MAX_FRAME_def)
  have le: "TX_MAX_FRAME < n \<longleftrightarrow> 1518 < unat n" "n = 0 \<longleftrightarrow> unat n = 0"
    by (simp_all add: TX_MAX_FRAME_def word_less_nat_alt unat_eq_0)
  have prep: "smsc95xx_tx_prepend b TX_BUFFER_LEN (ucast n) =
      (if 42 \<le> unat n \<and> unat n \<le> 1514 then (8, tx_header (ucast n) @ drop 8 b) else (0, b))"
    using assms(2) by (subst tx_prepend_result) (simp_all add: l)
  show ?thesis
    unfolding txSubmitPacket_def
    by (auto simp: assms sendable_def prep le Let_def reject_packet_def TX_HEADER_LEN_def not_less not_le
      split: prod.split)
qed


lemma bench_reads_whole: "reads_whole (bench_platform rx tx)"
  by (simp add: reads_whole_def)


section \<open>Every transfer of a run\<close>

text \<open>A transfer the chip can read: one frame behind the two command words that describe it.\<close>

fun well_framed :: "call \<Rightarrow> bool" where
  "well_framed (SubmitOut pipe bs ret) \<longleftrightarrow>
     (\<exists>frame. bs = tx_header (of_nat (length frame)) @ frame \<and> 42 \<le> length frame \<and> length frame \<le> 1514)"
| "well_framed _ \<longleftrightarrow> True"

definition wire_ok :: "'e sys \<Rightarrow> bool" where
  "wire_ok s \<longleftrightarrow> list_all well_framed (calls s) \<and> (\<forall>b. txBytes s = Some b \<longrightarrow> 1526 \<le> length b)"

lemma wire_ext [keeps_intros]: "keeps wire_ok (ext f)"
  by (rule keeps_ext) (simp add: wire_ok_def)

lemma wire_emit: "well_framed c \<Longrightarrow> keeps wire_ok (emit c)"
  by (rule keeps_emit) (simp add: wire_ok_def)

lemma wire_log: "(\<And>a. well_framed (c a)) \<Longrightarrow> keeps wire_ok (ext_log f c)"
  unfolding ext_log_def by (intro keeps_intros wire_emit)

lemma wire_deref: "(\<And>x. keeps wire_ok (f x)) \<Longrightarrow> keeps wire_ok (deref p d f)"
  unfolding deref_def by (intro keeps_intros wire_emit) simp_all

lemmas wire_intros = keeps_intros wire_log wire_deref wire_emit

lemma txSubmitPacket_wire:
  assumes peek: "reads_whole dk"
  shows "keeps wire_ok (txSubmitPacket dk k)"
proof (rule keepsI)
  fix s :: "'a sys"
  assume s: "wire_ok s"
  obtain n e1 off e2 base e3 where r: "run_state (dk_getDataLength dk k) (env s) = (n, e1)"
    "run_state (dk_getDataOff dk k) e1 = (off, e2)" "run_state (dk_getDataVirtualAddress dk k) e2 = (base, e3)"
    by (metis surj_pair)
  show "wire_ok (exec_state (txSubmitPacket dk k) s)"
  proof (cases "txBytes s = None \<or> txBuffer s = None \<or> pipeOut s = None \<or> txAction s = None")
    case True
    then show ?thesis
      using s by (auto simp: txSubmitPacket_def r reject_packet_def wire_ok_def Let_def split: option.split)
  next
    case False
    then obtain b buffer pipe action where f: "txBytes s = Some b" "txBuffer s = Some buffer"
      "pipeOut s = Some pipe" "txAction s = Some action" by auto
    have b: "1526 \<le> length b" using s f(1) by (simp add: wire_ok_def)
    show ?thesis
    proof (cases "sendable n off base")
      case True
      then have n: "42 \<le> unat n" "unat n \<le> 1514" by (simp_all add: sendable_def)
      obtain frame e4 where p: "run_state (dk_peek dk (base + off) (unat n)) e3 = (frame, e4)" by fastforce
      have len: "length frame = unat n" using peek p by (metis fst_conv reads_whole_def)
      have take: "take (8 + unat n) (overlay (tx_header (ucast n) @ drop 8 b) 8 frame) = tx_header (ucast n) @ frame"
        unfolding len [symmetric] using b n len by (intro frame_overlay) simp_all
      have "well_framed (SubmitOut pipe (tx_header (ucast n) @ frame) ret)" for ret
        using n len by (auto intro!: exI [of _ frame])
      moreover have "1526 \<le> length (overlay (tx_header (ucast n) @ drop 8 b) 8 frame)"
        using b n len by (subst length_frame_overlay) simp_all
      ultimately show ?thesis
        using True s take transfer_length [OF n(2)]
        unfolding submit_run [OF f(1) b f(2-4) r]
        by (auto simp: tx_submit_transfer_def p Let_def wire_ok_def simp del: well_framed.simps(1) split: prod.splits)
    next
      case False
      then show ?thesis
        using s b f(1) unfolding submit_run [OF f(1) b f(2-4) r] by (simp add: wire_ok_def)
    qed
  qed
qed


lemma txReturnPacket_wire: "keeps wire_ok (txReturnPacket dk k)"
  unfolding txReturnPacket_def by (intro wire_intros) (simp_all add: wire_ok_def)

lemma tx_drain_body_wire: "reads_whole dk \<Longrightarrow> keeps wire_ok (tx_drain_body dk)"
  unfolding tx_drain_body_def
  by (intro wire_intros txSubmitPacket_wire txReturnPacket_wire) (simp_all add: wire_ok_def)

lemma tx_drain_loop_wire:
  assumes "reads_whole dk" and "tx_drain_loop dk n s = Some (sent, t)"
  shows "wire_ok s \<Longrightarrow> wire_ok t"
proof -
  have "reads_whole dk \<longrightarrow> wire_ok s \<longrightarrow> wire_ok (snd r)" if "tx_drain_loop dk n s = Some r" for n s r
  proof (rule tx_drain_loop.raw_induct [OF _ that], intro impI, goal_cases)
    case (1 loop dk n s r)
    have "wire_ok (exec_state (tx_drain_body dk) s)"
      by (rule keepsD [OF tx_drain_body_wire [OF 1(3)] 1(4)])
    then show ?case
      using 1 by (auto split: if_splits prod.splits drain_outcome.splits)
  qed
  from this [OF assms(2)] assms(1) show "wire_ok s \<Longrightarrow> wire_ok t" by simp
qed

lemma txDrainSubmission_wire:
  assumes "reads_whole dk"
  shows "keeps wire_ok (txDrainSubmission dk)"
proof -
  have loop: "keeps wire_ok (State (\<lambda>s. case tx_drain_loop dk 0 s of
      None \<Rightarrow> (None, s\<lparr>calls := calls s @ [Diverged]\<rparr>) | Some (sent, s) \<Rightarrow> (Some sent, s)))"
    by (rule keepsI) (auto simp: wire_ok_def split: option.split dest: tx_drain_loop_wire [OF assms, unfolded wire_ok_def])
  show ?thesis
    unfolding txDrainSubmission_def by (intro wire_intros loop) (simp_all add: wire_ok_def)
qed

lemma TxDataAvailable_wire: "reads_whole dk \<Longrightarrow> keeps wire_ok (TxDataAvailable dk)"
  unfolding TxDataAvailable_def
  by (intro wire_intros txDrainSubmission_wire) (simp_all add: wire_ok_def)

lemma TxComplete_wire: "reads_whole dk \<Longrightarrow> keeps wire_ok (TxComplete dk status n)"
  unfolding TxComplete_def
  by (intro wire_intros txDrainSubmission_wire txReturnPacket_wire) (simp_all add: wire_ok_def)

text \<open>No other part of the driver sends, or touches the transmit buffer but to map or drop it.\<close>

lemma armRxRead_wire: "keeps wire_ok (armRxRead dk)"
  unfolding armRxRead_def by (intro wire_intros | simp add: wire_ok_def split: prod.split option.split)+

lemma rearmRxRead_wire: "keeps wire_ok (rearmRxRead dk b)"
  unfolding rearmRxRead_def Let_def by (intro wire_intros armRxRead_wire) (simp_all add: wire_ok_def)

lemma RxBackoffExpired_wire: "keeps wire_ok (RxBackoffExpired dk)"
  unfolding RxBackoffExpired_def by (intro wire_intros armRxRead_wire) (simp_all add: wire_ok_def)

lemma rx_record_wire: "keeps wire_ok (rx_record_body dk buf r)"
  unfolding rx_record_body_def rx_into_packet_def rx_fill_def rx_unfilled_def rx_deliver_def deliverPacket_def
    deallocate_def rxAcquirePacket_def rxPoolPacket_def drop_record_def Let_def
  by (intro wire_intros) (simp_all add: wire_ok_def)

lemma rx_loop_wire: "keeps wire_ok (rx_loop dk buf len off n)"
proof (induction dk buf len off n rule: rx_loop.induct)
  case (1 dk buf len off n)
  then show ?case
    by (subst rx_loop.simps) (auto intro!: wire_intros rx_record_wire split: option.split)
qed

lemma RxComplete_wire: "keeps wire_ok (RxComplete dk status n)"
  unfolding RxComplete_def rx_transfer_def
  by (intro wire_intros rx_loop_wire rearmRxRead_wire | simp add: wire_ok_def split: prod.split option.split)+


lemma readRegister_wire [keeps_intros]: "keeps wire_ok (readRegister dk off val)"
  unfolding readRegister_def device_request_def
  by (intro wire_intros | simp add: wire_ok_def split: prod.split option.split)+

lemma writeRegister_wire [keeps_intros]: "keeps wire_ok (writeRegister dk off val)"
  unfolding writeRegister_def device_request_def
  by (intro wire_intros | simp add: wire_ok_def split: prod.split option.split)+

lemma read_out_wire [keeps_intros]: "keeps wire_ok (read_out dk off val)"
  unfolding read_out_def by (intro keeps_intros)

lemma miiRead_wire: "keeps wire_ok (miiRead dk phy reg val)"
proof -
  have "keeps wire_ok (wait_clear_loop dk off bits n)" for off bits n
    by (induction n) (auto intro!: keeps_intros)
  then show ?thesis unfolding miiRead_def wait_clear_def by (intro keeps_intros)
qed

lemma setPromiscuous_wire: "keeps wire_ok (setPromiscuousModeEnable dk b)"
  unfolding setPromiscuousModeEnable_def Let_def by (intro keeps_intros)

interpretation quiet_wire: register_io "quietRegRead dk" "quietRegWrite dk" wire_ok for dk :: "'e dk"
  by unfold_locales (auto simp: quietRegRead_def quietRegWrite_def intro!: keeps_intros dest: read_out_untouched)

interpretation init_wire: register_io "initRegRead dk" "initRegWrite dk" "\<lambda>(s, c). wire_ok s" for dk :: "'e dk"
proof
  show "keeps (\<lambda>(s, c). wire_ok s) (initRegRead dk reg v)" for reg v
    unfolding initRegRead_def by (intro keeps_intros on_driver_keeps) auto
  show "keeps (\<lambda>(s, c). wire_ok s) (initRegWrite dk reg v)" for reg v
    unfolding initRegWrite_def by (intro keeps_intros on_driver_keeps) auto
qed (rule init_io.read_untouched)

lemma publishProperty_wire [keeps_intros]: "keeps wire_ok (publishProperty dk key val)"
  unfolding publishProperty_def by (intro wire_intros) simp

lemma os_object_wire [keeps_intros]: "keeps wire_ok (os_object dk p)"
  unfolding os_object_def by (intro keeps_intros)

lemma eepromRead_wire [keeps_intros]: "keeps wire_ok (eepromRead dk off buf len)"
  unfolding eepromRead_def by (intro keeps_intros quiet_wire.eeprom_read_keeps)

lemma check_wire [keeps_intros]: "keeps wire_ok m \<Longrightarrow> keeps wire_ok k \<Longrightarrow> keeps wire_ok (check m k)"
  unfolding check_def by (intro keeps_intros)

lemma create_wire:
  "(\<And>s g. txBytes (upd g s) = txBytes s \<and> calls (upd g s) = calls s) \<Longrightarrow> keeps wire_ok (create f upd)"
  unfolding create_def by (intro keeps_intros) (simp_all add: wire_ok_def)

lemma acquire_wire:
  "(\<And>s g. txBytes (upd g s) = txBytes s \<and> calls (upd g s) = calls s) \<Longrightarrow> keeps wire_ok (acquire f upd missing)"
  unfolding acquire_def by (intro keeps_intros) (simp_all add: wire_ok_def)

lemma release_null_wire:
  "(\<And>s g. txBytes (upd g s) = txBytes s \<and> calls (upd g s) = calls s) \<Longrightarrow> keeps wire_ok (release_null dk sel upd)"
  by (rule release_null_keeps) (auto simp: wire_ok_def intro: wire_log)

lemma alloc_rx_wire: "keeps wire_ok (allocBuffer dk len rxBuffer_update rxBuffer rxBytes_update)"
  unfolding allocBuffer_def
  by (intro wire_intros release_null_wire) (simp_all add: wire_ok_def)

lemma alloc_tx_wire:
  assumes "platform_ok dk"
  shows "keeps wire_ok (allocBuffer dk TX_BUFFER_LEN txBuffer_update txBuffer txBytes_update)"
proof (rule keepsI, rule wp_exec)
  fix s :: "'a sys"
  assume s: "wire_ok s"
  have "keeps wire_ok (do { release_null dk txBuffer txBuffer_update; return r })" for r :: kern_return
    by (intro keeps_intros release_null_wire) simp
  from keeps_wp [OF this]
  have rel: "wp (release_null dk txBuffer txBuffer_update) (\<lambda>_. wp (return r) (\<lambda>_. wire_ok)) t"
    if "wire_ok t" for t and r :: kern_return
    using that by (simp add: wp_bind)
  have upd: "wire_ok (txBuffer_update g t)" "wire_ok (t\<lparr>env := e\<rparr>)"
      "wire_ok (t\<lparr>env := e, txBuffer := p, calls := calls t @ [NullDeref]\<rparr>)" "0 < TX_BUFFER_LEN"
    if "wire_ok t" for t :: "'a sys" and e g p
    using that by (simp_all add: wire_ok_def TX_BUFFER_LEN_def TX_HEADER_LEN_def TX_MAX_FRAME_def)
  have l: "unat TX_BUFFER_LEN = 1526" by (simp add: TX_BUFFER_LEN_def TX_HEADER_LEN_def TX_MAX_FRAME_def)
  have map: "\<exists>bs. address = Some bs \<and> 1526 \<le> length bs"
    if "run_state (dk_GetAddressRange dk b) e = ((0, n, address), e')" "\<not> n < TX_BUFFER_LEN" for b e n address e'
  proof -
    have "maps_whole (dk_GetAddressRange dk b)" using assms by (simp add: platform_ok_def)
    from maps_wholeD [OF this that(1)] show ?thesis using that(2) l by (auto simp: word_less_nat_alt)
  qed
  have bytes: "wire_ok (t\<lparr>txBytes := address\<rparr>)" if "wire_ok t" "\<exists>bs. address = Some bs \<and> 1526 \<le> length bs"
    for t :: "'a sys" and address using that by (auto simp: wire_ok_def)
  show "wp (allocBuffer dk TX_BUFFER_LEN txBuffer_update txBuffer txBytes_update) (\<lambda>_. wire_ok) s"
    unfolding allocBuffer_def deref_def
    using s by (auto simp: wp_simps kIOReturnSuccess_def upd split: prod.split option.split
      intro!: rel upd bytes dest: map)
qed

lemma setupDatapath_wire: "platform_ok dk \<Longrightarrow> keeps wire_ok (setupDatapath dk)"
  unfolding setupDatapath_def copy_pipe_def
  by (intro keeps_intros wire_intros alloc_rx_wire alloc_tx_wire create_wire acquire_wire) (simp_all add: wire_ok_def)


lemma abort_wire:
  "(\<And>status n. keeps wire_ok (c dk status n)) \<Longrightarrow> keeps wire_ok (abort_pipe dk sel c)"
  unfolding abort_pipe_def by (intro wire_intros) (simp_all split: prod.split)

lemma quiesceDatapath_wire: "reads_whole dk \<Longrightarrow> keeps wire_ok (quiesceDatapath dk)"
  unfolding quiesceDatapath_def
  by (intro wire_intros abort_wire RxComplete_wire TxComplete_wire) (simp_all add: wire_ok_def)

lemma releaseDatapath_wire [keeps_intros]: "keeps wire_ok (releaseDatapath dk)"
  unfolding releaseDatapath_def return_leftover_def
  by (intro wire_intros release_null_wire txReturnPacket_wire) (simp_all add: wire_ok_def)

lemma ReleaseResources_wire [keeps_intros]: "keeps wire_ok (ReleaseResources dk)"
  unfolding ReleaseResources_def close_interface_def
  by (intro keeps_intros wire_intros release_null_wire) (simp_all add: wire_ok_def)

lemma super_Stop_wire [keeps_intros]: "keeps wire_ok (super_Stop dk provider)"
  unfolding super_Stop_def by (intro wire_intros) simp

lemma finalize_wire [keeps_intros]: "keeps wire_ok (finalize dk provider)"
  unfolding finalize_def by (intro keeps_intros wire_intros) (simp_all add: wire_ok_def)

lemma finishStop_wire [keeps_intros]: "keeps wire_ok (finishStop dk provider)"
  unfolding finishStop_def cancel_source_def
  by (intro keeps_intros wire_intros) (simp_all add: wire_ok_def)

lemma Stop_wire: "reads_whole dk \<Longrightarrow> keeps wire_ok (Stop dk provider)"
  unfolding Stop_def by (intro keeps_intros quiesceDatapath_wire)

lemma cancel_handler_wire: "keeps wire_ok (cancel_handler dk provider)"
  unfolding cancel_handler_def by (intro keeps_intros wire_emit) simp

lemma enable_queues_wire: "keeps wire_ok (enable_queues dk qs n)"
  by (induction dk qs n rule: enable_queues.induct) (auto intro!: keeps_intros wire_log)

lemma disable_queues_wire: "keeps wire_ok (disable_queues dk qs)"
  by (induction dk qs rule: disable_queues.induct) (auto intro!: keeps_intros wire_log)

lemma setInterfaceEnable_wire: "keeps wire_ok (setInterfaceEnable dk b)"
  unfolding setInterfaceEnable_def enable_failed_def super_setInterfaceEnable_def Let_def
  by (intro wire_intros enable_queues_wire disable_queues_wire armRxRead_wire) (simp_all add: wire_ok_def)

lemma start_control_buffer_wire: "keeps wire_ok (start_control_buffer dk)"
  unfolding start_control_buffer_def
  by (intro keeps_intros wire_intros create_wire) (simp_all add: wire_ok_def)

lemma start_stages_wire:
  "keeps wire_ok (start_open dk)" "keeps wire_ok (start_identify dk)" "keeps wire_ok (start_phy_id dk)"
  "keeps wire_ok (start_check_phy dk)" "keeps wire_ok (start_mac dk)" "keeps wire_ok (start_publish_mac dk loaded)"
  "keeps wire_ok (start_init_chip dk)" "keeps wire_ok (start_queues dk)"
  unfolding start_open_def start_identify_def start_phy_id_def start_check_phy_def start_mac_def start_mac_signed_def
    start_mac_store_def start_publish_mac_def start_init_chip_def start_queues_def create_queue_def
  by (intro keeps_intros wire_intros miiRead_wire create_wire acquire_wire with_ctx_keeps init_wire.init_seq_keeps;
    simp add: wire_ok_def)+

lemma Start_wire:
  assumes "platform_ok dk" and "reads_whole dk"
  shows "keeps wire_ok (Start dk provider)"
  unfolding Start_def or_fail_def start_fail_def start_register_def
  by (intro keeps_intros wire_intros start_stages_wire start_control_buffer_wire setupDatapath_wire
      quiesceDatapath_wire assms) (simp_all add: wire_ok_def)

lemma enter_wire: "reads_whole dk \<Longrightarrow> wire_ok s \<Longrightarrow> wire_ok (enter dk e s)"
proof (cases e)
  case (RxDone status n bs)
  assume "wire_ok s"
  then have "wire_ok (fill_rx bs s)" by (simp add: fill_rx_def wire_ok_def)
  then show ?thesis by (simp add: RxDone keepsD [OF RxComplete_wire])
qed (simp_all add: keepsD [OF TxDataAvailable_wire] keepsD [OF TxComplete_wire] keepsD [OF RxBackoffExpired_wire]
    keepsD [OF setInterfaceEnable_wire] keepsD [OF setPromiscuous_wire])

interpretation wire: invariant_system fresh "driver_step dk provider"
    "\<lambda>(p, s). platform_ok dk \<longrightarrow> reads_whole dk \<longrightarrow> wire_ok s" for dk :: "'e dk" and provider
proof
  fix c :: "phase \<times> 'e sys" assume "fresh c"
  then show "case c of (p, s) \<Rightarrow> platform_ok dk \<longrightarrow> reads_whole dk \<longrightarrow> wire_ok s"
    by (auto simp: fresh_def initial_sys_def zero_ivars_def ivars.defs wire_ok_def)
next
  fix c d :: "phase \<times> 'e sys"
  assume c: "case c of (p, s) \<Rightarrow> platform_ok dk \<longrightarrow> reads_whole dk \<longrightarrow> wire_ok s" and "driver_step dk provider c d"
  from this(2,1) show "case d of (p, s) \<Rightarrow> platform_ok dk \<longrightarrow> reads_whole dk \<longrightarrow> wire_ok s"
  proof (induction rule: driver_step.induct)
    case (start s ret t)
    then show ?case using keepsD [OF Start_wire, of dk s provider] by auto
  next
    case (outside p s e)
    then show ?case by (simp add: wire_ok_def)
  qed (auto intro: enter_wire keepsD [OF Stop_wire] keepsD [OF cancel_handler_wire])
qed

text \<open>
  C5: Whatever happens, every transfer the driver ever puts on the bulk OUT pipe is one the chip can
  read: a single frame of 42 to 1514 bytes behind the two command words that state exactly its length.
\<close>

theorem transfers_well_framed:
  assumes "platform_ok dk" and "reads_whole dk" and "reachable dk provider (p, s)"
    and "SubmitOut pipe bs ret \<in> set (calls s)"
  shows "\<exists>frame. bs = tx_header (of_nat (length frame)) @ frame \<and> 42 \<le> length frame \<and> length frame \<le> 1514"
proof -
  have "wire_ok s" using wire.reaches_inv [OF assms(3)] assms(1,2) by simp
  then show ?thesis using assms(4) by (auto simp: wire_ok_def list_all_iff)
qed

lemma transfers_well_framed_witness:
  "\<exists>frame. take 68 (bench_frame bench_tx) = tx_header (of_nat (length frame)) @ frame
     \<and> 42 \<le> length frame \<and> length frame \<le> 1514"
  by (rule transfers_well_framed [OF bench_dk_ok bench_reads_whole bench_busy_reachable, of 4 _ 0])
    (simp add: bench_busy_def bench_sent_def)

end
