(* ===== verification/Trace.thy ===== *)
theory Trace
  imports Prelude
begin

text \<open>
  Calls to code outside the repository with a record of what was called, for the components that
  keep less state than the network driver: the device-level driver and the command-line tools. The
  outside is a state \<open>'e\<close> the called code works on; the record is the list of calls so far.
\<close>

record ('e, 'c) traced =
  outside :: 'e
  trace :: "'c list"

text \<open>Call \<open>f\<close>, and note what \<open>c\<close> says of its result.\<close>

definition call_out :: "('e, 'a) state \<Rightarrow> ('a \<Rightarrow> 'c list) \<Rightarrow> (('e, 'c, 'z) traced_scheme, 'a) state" where
  "call_out f c = State (\<lambda>s. case run_state f (outside s) of
     (a, e) \<Rightarrow> (a, s\<lparr>outside := e, trace := trace s @ c a\<rparr>))"

lemma run_call_out:
  "run_state (call_out f c) s = (eval_state f (outside s),
     s\<lparr>outside := exec_state f (outside s), trace := trace s @ c (eval_state f (outside s))\<rparr>)"
  by (simp add: call_out_def split_def)

text \<open>The answer of the called code is any value: a property of the caller may not depend on it.\<close>

lemma wp_call_out:
  "(\<And>a e. Q a (s\<lparr>outside := e, trace := trace s @ c a\<rparr>)) \<Longrightarrow> wp (call_out f c) Q s"
  by (simp add: wp_run run_call_out)

text \<open>\<open>f\<close> with no note taken.\<close>

definition ask :: "('e, 'a) state \<Rightarrow> (('e, 'c, 'z) traced_scheme, 'a) state" where
  "ask f = call_out f (\<lambda>_. [])"

lemma run_ask: "run_state (ask f) s = (eval_state f (outside s), s\<lparr>outside := exec_state f (outside s)\<rparr>)"
  by (simp add: ask_def run_call_out)

lemma wp_ask: "(\<And>a e. Q a (s\<lparr>outside := e\<rparr>)) \<Longrightarrow> wp (ask f) Q s"
  by (simp add: wp_run run_ask)

lemma keeps_call_out [keeps_intros]:
  "(\<And>s a e. P s \<Longrightarrow> P (s\<lparr>outside := e, trace := trace s @ c a\<rparr>)) \<Longrightarrow> keeps P (call_out f c)"
  by (simp add: keeps_def run_call_out)

lemma keeps_ask [keeps_intros]: "(\<And>s e. P s \<Longrightarrow> P (s\<lparr>outside := e\<rparr>)) \<Longrightarrow> keeps P (ask f)"
  by (simp add: keeps_def run_ask)

text \<open>What a run owes: the sum of what each call adds, an acquisition one and a release minus one.\<close>

definition owed :: "('c \<Rightarrow> int) \<Rightarrow> 'c list \<Rightarrow> int" where
  "owed f cs = sum_list (map f cs)"

lemma owed_simps [simp]:
  "owed f [] = 0"
  "owed f (c # cs) = f c + owed f cs"
  "owed f (cs @ ds) = owed f cs + owed f ds"
  by (simp_all add: owed_def)

section \<open>Loops that may not end\<close>

text \<open>
  A loop whose body either goes round again with new locals (\<open>Inl\<close>) or leaves with a value (\<open>Inr\<close>).
  Nothing bounds it: on a run that never leaves it has no result.
\<close>

partial_function (option) repeat_until :: "('a \<Rightarrow> ('s, 'a + 'b) state) \<Rightarrow> 'a \<Rightarrow> 's \<Rightarrow> ('b \<times> 's) option" where
  "repeat_until body a s =
     (case run_state (body a) s of
        (Inl a', s') \<Rightarrow> repeat_until body a' s'
      | (Inr b, s') \<Rightarrow> Some (b, s'))"

declare repeat_until.simps [code]

text \<open>The loop inside a computation: a run that never leaves is recorded as the call \<open>hung\<close>.\<close>

definition loop_forever :: "'c \<Rightarrow> 'b \<Rightarrow> ('a \<Rightarrow> (('e, 'c, 'z) traced_scheme, 'a + 'b) state) \<Rightarrow> 'a
    \<Rightarrow> (('e, 'c, 'z) traced_scheme, 'b) state" where
  "loop_forever hung b body a = State (\<lambda>s. case repeat_until body a s of
     Some r \<Rightarrow> r | None \<Rightarrow> (b, s\<lparr>trace := trace s @ [hung]\<rparr>))"

lemma repeat_until_result:
  assumes body: "\<And>a s. I a s \<Longrightarrow> wp (body a) (\<lambda>r t. case r of Inl a' \<Rightarrow> I a' t | Inr b \<Rightarrow> Q b t) s"
    and "I a s" and result: "repeat_until body a s = Some r"
  shows "Q (fst r) (snd r)"
proof -
  have "(\<forall>a s. I a s \<longrightarrow> wp (body a) (\<lambda>r t. case r of Inl a' \<Rightarrow> I a' t | Inr b \<Rightarrow> Q b t) s)
    \<longrightarrow> I a s \<longrightarrow> Q (fst r) (snd r)"
  proof (rule repeat_until.raw_induct [OF _ result], intro impI, goal_cases)
    case (1 loop body a s r)
    obtain x t where run: "run_state (body a) s = (x, t)" by fastforce
    have post: "case x of Inl a' \<Rightarrow> I a' t | Inr b \<Rightarrow> Q b t"
      using 1(3) [rule_format, OF 1(4)] run by (simp add: wp_run)
    show ?case
    proof (cases x)
      case (Inl a')
      then have "loop body a' t = Some r" using 1(2) run by simp
      from 1(1) [OF this] show ?thesis using 1(3) post Inl by simp
    next
      case (Inr b)
      then show ?thesis using 1(2) run post by auto
    qed
  qed
  then show ?thesis using assms by simp
qed

lemma repeat_until_ends:
  fixes stock :: "'a \<Rightarrow> 's \<Rightarrow> nat"
  assumes "\<And>a s. I a s \<Longrightarrow> wp (body a) (\<lambda>r t. case r of
      Inl a' \<Rightarrow> I a' t \<and> stock a' t < stock a s | Inr b \<Rightarrow> True) s"
  shows "I a s \<Longrightarrow> \<exists>r. repeat_until body a s = Some r"
proof (induction "stock a s" arbitrary: a s rule: less_induct)
  case less
  obtain x t where run: "run_state (body a) s = (x, t)" by fastforce
  have post: "case x of Inl a' \<Rightarrow> I a' t \<and> stock a' t < stock a s | Inr b \<Rightarrow> True"
    using assms [OF less.prems] run by (simp add: wp_run)
  show ?case
    using post run less.hyps by (cases x) (simp_all add: repeat_until.simps [of body a s])
qed

lemma repeat_until_never:
  assumes body: "\<And>a s. I a s \<Longrightarrow> wp (body a) (\<lambda>r t. \<exists>a'. r = Inl a' \<and> I a' t) s" and "I a s"
  shows "repeat_until body a s = None"
proof (rule ccontr)
  assume "repeat_until body a s \<noteq> None"
  then obtain r where "repeat_until body a s = Some r" by blast
  then have False
    by (rule repeat_until_result [where I = I and Q = "\<lambda>_ _. False", rotated 2])
      (use assms in \<open>auto intro: wp_mono [OF body]\<close>)
  then show False .
qed

lemma wp_loop_forever:
  assumes "\<And>a s. I a s \<Longrightarrow> wp (body a) (\<lambda>r t. case r of Inl a' \<Rightarrow> I a' t | Inr b \<Rightarrow> Q b t) s"
    and "I a s" and "repeat_until body a s = None \<Longrightarrow> Q b (s\<lparr>trace := trace s @ [hung]\<rparr>)"
  shows "wp (loop_forever hung b body a) Q s"
  using repeat_until_result [where I = I and Q = Q, OF assms(1) assms(2)] assms(3)
  by (cases "repeat_until body a s") (auto simp: loop_forever_def wp_def split: prod.split)

end
