(* ===== verification/Usb_Device.thy ===== *)
theory Usb_Device
  imports Platform Trace
begin

text \<open>
  The device-level driver \<open>SMSC95xxUSBDevice\<close>, which configures a device that arrives unconfigured
  and then holds it open (\<open>SMSC95xxUSBDevice.cpp\<close>). Its one instance variable is the borrowed device
  pointer; the USBDriverKit calls are parameters, and the calls made are recorded in order.
\<close>

section \<open>State and platform\<close>

record 'e usb_dk =
  ud_super_Start :: "obj \<Rightarrow> ('e, kern_return) state"
  ud_super_Stop :: "obj \<Rightarrow> ('e, kern_return) state"
  ud_cast_device :: "obj \<Rightarrow> ('e, obj option) state"
  ud_Open :: "obj \<Rightarrow> ('e, kern_return) state"
  ud_Close :: "obj \<Rightarrow> ('e, unit) state"
  ud_CreateInterfaceIterator :: "obj \<Rightarrow> ('e, kern_return \<times> u64) state"
  ud_CopyInterface :: "obj \<Rightarrow> u64 \<Rightarrow> ('e, kern_return \<times> obj option) state"
  ud_DestroyInterfaceIterator :: "obj \<Rightarrow> u64 \<Rightarrow> ('e, unit) state"
  ud_SetConfiguration :: "obj \<Rightarrow> u8 \<Rightarrow> bool \<Rightarrow> ('e, kern_return) state"
  ud_release :: "obj \<Rightarrow> ('e, unit) state"

datatype usb_call =
    UsbSuperStarted kern_return
  | UsbSuperFreed
  | UsbSuperStopped kern_return
  | UsbOpened obj kern_return
  | UsbClosed obj
  | UsbIterated kern_return u64
  | UsbIteratorGone u64
  | UsbCopied kern_return "obj option"
  | UsbConfigured u8 bool kern_return
  | UsbReleased obj

text \<open>
  \<open>ivars\<close> is a null pointer or points to the one field \<open>device\<close>.
\<close>

record 'e usb_sys = "('e, usb_call) traced" +
  usb_ivars :: "obj option option"

section \<open>The class\<close>

text \<open>\<open>IONewZero\<close> of the instance variables may fail; \<open>None\<close> is a null \<open>ivars\<close>.\<close>

definition usb_init :: "bool \<Rightarrow> bool \<Rightarrow> bool \<times> obj option option" where
  "usb_init super_ok allocated =
     (if \<not> super_ok then (False, None)
      else let ivars = (if allocated then Some None else None) in (ivars \<noteq> None, ivars))"

definition usb_free :: "('e usb_sys, unit) state" where
  "usb_free = do { assign usb_ivars_update None; call_out (return ()) (\<lambda>_. [UsbSuperFreed]) }"

definition CopyFirstInterface :: "'e usb_dk \<Rightarrow> obj \<Rightarrow> ('e usb_sys, kern_return \<times> obj option) state" where
  "CopyFirstInterface dk d = do {
     (ret, iter) \<leftarrow> call_out (ud_CreateInterfaceIterator dk d)
       (\<lambda>(ret, iter). [UsbIterated ret iter]);
     if ret \<noteq> kIOReturnSuccess then return (ret, None)
     else do {
       (ret, out) \<leftarrow> call_out (ud_CopyInterface dk d iter) (\<lambda>(ret, out). [UsbCopied ret out]);
       call_out (ud_DestroyInterfaceIterator dk d iter) (\<lambda>_. [UsbIteratorGone iter]);
       return (ret, out)
     }
   }"

definition usb_super_Stop :: "'e usb_dk \<Rightarrow> obj \<Rightarrow> ('e usb_sys, kern_return) state" where
  "usb_super_Stop dk provider = call_out (ud_super_Stop dk provider) (\<lambda>ret. [UsbSuperStopped ret])"

definition usb_Close :: "'e usb_dk \<Rightarrow> obj \<Rightarrow> ('e usb_sys, unit) state" where
  "usb_Close dk d = call_out (ud_Close dk d) (\<lambda>_. [UsbClosed d])"

text \<open>\<open>ivars->device = d;\<close>\<close>

definition set_device :: "obj option \<Rightarrow> ('e usb_sys, unit) state" where
  "set_device d = modify (\<lambda>s. s\<lparr>usb_ivars := map_option (\<lambda>_. d) (usb_ivars s)\<rparr>)"

text \<open>Selecting configuration 1, with interface matching; a failure gives the device back.\<close>

definition usb_select :: "'e usb_dk \<Rightarrow> obj \<Rightarrow> obj \<Rightarrow> ('e usb_sys, kern_return) state" where
  "usb_select dk provider d = do {
     ret \<leftarrow> call_out (ud_SetConfiguration dk d 1 True) (\<lambda>ret. [UsbConfigured 1 True ret]);
     if ret \<noteq> kIOReturnSuccess then do {
       usb_Close dk d;
       set_device None;
       usb_super_Stop dk provider;
       return ret
     } else return kIOReturnSuccess
   }"

text \<open>The open device: is it configured already?\<close>

definition usb_configure :: "'e usb_dk \<Rightarrow> obj \<Rightarrow> obj \<Rightarrow> ('e usb_sys, kern_return) state" where
  "usb_configure dk provider d = do {
     (ret, probe) \<leftarrow> CopyFirstInterface dk d;
     (case probe of
        Some p \<Rightarrow>
          if ret = kIOReturnSuccess then do {
            call_out (ud_release dk p) (\<lambda>_. [UsbReleased p]);
            return kIOReturnSuccess
          } else usb_select dk provider d
      | None \<Rightarrow> usb_select dk provider d)
   }"

definition usb_Start :: "'e usb_dk \<Rightarrow> obj \<Rightarrow> ('e usb_sys, kern_return) state" where
  "usb_Start dk provider = do {
     ret \<leftarrow> call_out (ud_super_Start dk provider) (\<lambda>ret. [UsbSuperStarted ret]);
     if ret \<noteq> kIOReturnSuccess then return ret
     else do {
       d \<leftarrow> ask (ud_cast_device dk provider);
       set_device d;
       (case d of
          None \<Rightarrow> do { usb_super_Stop dk provider; return kIOReturnNoDevice }
        | Some d \<Rightarrow> do {
            ret \<leftarrow> call_out (ud_Open dk d) (\<lambda>ret. [UsbOpened d ret]);
            if ret \<noteq> kIOReturnSuccess then do {
              set_device None;
              usb_super_Stop dk provider;
              return ret
            } else usb_configure dk provider d
          })
     }
   }"

definition usb_Stop :: "'e usb_dk \<Rightarrow> obj \<Rightarrow> ('e usb_sys, kern_return) state" where
  "usb_Stop dk provider = do {
     ivars \<leftarrow> gets usb_ivars;
     (case ivars of
        Some (Some d) \<Rightarrow> do { usb_Close dk d; set_device None }
      | _ \<Rightarrow> skip);
     usb_super_Stop dk provider
   }"

section \<open>Sessions balance\<close>

text \<open>
  What the run owes: a session opened and not closed, an interface reference copied and not
  released, an iterator made and not destroyed, a \<open>super::Start\<close> not followed by \<open>super::Stop\<close>.
\<close>

fun session_of :: "obj \<Rightarrow> usb_call \<Rightarrow> int" where
  "session_of d (UsbOpened e ret) = of_bool (e = d \<and> ret = kIOReturnSuccess)"
| "session_of d (UsbClosed e) = - of_bool (e = d)"
| "session_of d _ = 0"

fun reference_of :: "obj \<Rightarrow> usb_call \<Rightarrow> int" where
  "reference_of p (UsbCopied ret q) = of_bool (ret = kIOReturnSuccess \<and> q = Some p)"
| "reference_of p (UsbReleased q) = - of_bool (q = p)"
| "reference_of p _ = 0"

fun iterator_of :: "u64 \<Rightarrow> usb_call \<Rightarrow> int" where
  "iterator_of i (UsbIterated ret j) = of_bool (ret = kIOReturnSuccess \<and> j = i)"
| "iterator_of i (UsbIteratorGone j) = - of_bool (j = i)"
| "iterator_of i _ = 0"

fun service_of :: "usb_call \<Rightarrow> int" where
  "service_of (UsbSuperStarted ret) = of_bool (ret = kIOReturnSuccess)"
| "service_of (UsbSuperStopped ret) = - 1"
| "service_of _ = 0"

section \<open>What each step adds to the record\<close>

lemmas usb_close_defs = usb_Close_def usb_super_Stop_def

lemma wp_set_device [wp_simps]:
  "wp (set_device d) Q s = Q () (s\<lparr>usb_ivars := map_option (\<lambda>_. d) (usb_ivars s)\<rparr>)"
  by (simp add: set_device_def wp_simps)

text \<open>The calls of the probe, and what it found.\<close>

definition probe_log :: "kern_return \<Rightarrow> obj option \<Rightarrow> usb_call list \<Rightarrow> bool" where
  "probe_log ret out cs \<longleftrightarrow> (\<exists>i. cs = [UsbIterated ret i] \<and> ret \<noteq> kIOReturnSuccess \<and> out = None
     \<or> cs = [UsbIterated kIOReturnSuccess i, UsbCopied ret out, UsbIteratorGone i])"

lemma wp_CopyFirstInterface:
  assumes "\<And>ret out t cs. \<lbrakk>probe_log ret out cs; trace t = trace s @ cs; usb_ivars t = usb_ivars s\<rbrakk>
    \<Longrightarrow> Q (ret, out) t"
  shows "wp (CopyFirstInterface dk d) Q s"
  unfolding CopyFirstInterface_def wp_bind
proof (rule wp_call_out, clarsimp simp: wp_simps, intro conjI impI, goal_cases)
  case (1 ret i e)
  then show ?case by (intro assms [of ret None "[UsbIterated ret i]"]) (auto simp: probe_log_def)
next
  case (2 ret i e)
  show ?case
    unfolding wp_bind by (rule wp_call_out, clarsimp simp: wp_simps, rule wp_call_out, simp add: wp_simps)
      (rule assms [of _ _ "[UsbIterated kIOReturnSuccess i, UsbCopied _ _, UsbIteratorGone i]"],
       auto simp: probe_log_def wp_simps)
qed

definition select_log :: "obj \<Rightarrow> kern_return \<Rightarrow> usb_call list \<Rightarrow> bool" where
  "select_log d ret cs \<longleftrightarrow> (if ret = kIOReturnSuccess then cs = [UsbConfigured 1 True ret]
     else (\<exists>r. cs = [UsbConfigured 1 True ret, UsbClosed d, UsbSuperStopped r]))"

text \<open>What is left of the device pointer.\<close>

definition device_after :: "kern_return \<Rightarrow> obj option option \<Rightarrow> obj option option" where
  "device_after ret ivars = (if ret = kIOReturnSuccess then ivars else map_option (\<lambda>_. None) ivars)"

lemma wp_usb_select:
  assumes "\<And>ret t cs. \<lbrakk>select_log d ret cs; trace t = trace s @ cs;
    usb_ivars t = device_after ret (usb_ivars s)\<rbrakk> \<Longrightarrow> Q ret t"
  shows "wp (usb_select dk provider d) Q s"
  unfolding usb_select_def wp_bind
proof (rule wp_call_out, clarsimp simp: wp_simps, intro conjI impI, goal_cases)
  case (1 ret e)
  show ?case
    unfolding usb_close_defs wp_bind by (rule wp_call_out, simp add: wp_simps, rule wp_call_out)
      (use 1 in \<open>auto intro!: assms [of ret "[UsbConfigured 1 True ret, UsbClosed d, UsbSuperStopped _]"]
        simp: select_log_def device_after_def wp_simps\<close>)
next
  case (2 ret e)
  then show ?case
    by (auto intro!: assms [of kIOReturnSuccess "[UsbConfigured 1 True kIOReturnSuccess]"]
      simp: select_log_def device_after_def)
qed

text \<open>Everything \<open>Start\<close> may do once the device is open.\<close>

definition configure_log :: "obj \<Rightarrow> kern_return \<Rightarrow> usb_call list \<Rightarrow> bool" where
  "configure_log d ret cs \<longleftrightarrow> (\<exists>r out ps qs. cs = ps @ qs \<and> probe_log r out ps
     \<and> (if r = kIOReturnSuccess \<and> out \<noteq> None then ret = kIOReturnSuccess \<and> qs = [UsbReleased (the out)]
        else select_log d ret qs))"

lemma configure_log_found:
  "probe_log kIOReturnSuccess (Some p) ps \<Longrightarrow> configure_log d kIOReturnSuccess (ps @ [UsbReleased p])"
  unfolding configure_log_def
  by (intro exI [of _ kIOReturnSuccess] exI [of _ "Some p"] exI [of _ ps] exI [of _ "[UsbReleased p]"]) simp

lemma wp_usb_configure:
  fixes s :: "'e usb_sys"
  assumes "\<And>ret t cs. \<lbrakk>configure_log d ret cs; trace t = trace s @ cs;
    usb_ivars t = device_after ret (usb_ivars s)\<rbrakk> \<Longrightarrow> Q ret t"
  shows "wp (usb_configure dk provider d) Q s"
  unfolding usb_configure_def wp_bind
proof (rule wp_CopyFirstInterface)
  fix ret out ps and t :: "'e usb_sys"
  assume a: "probe_log ret out ps" "trace t = trace s @ ps" "usb_ivars t = usb_ivars s"
  have sel: "wp (usb_select dk provider d) Q t" if "\<not> (ret = kIOReturnSuccess \<and> out \<noteq> None)"
    by (rule wp_usb_select) (rule assms [of _ "ps @ _"], use a that in \<open>auto simp: configure_log_def\<close>)
  have rel: "wp (do { call_out (ud_release dk p) (\<lambda>_. [UsbReleased p]); return kIOReturnSuccess }) Q t"
    if "ret = kIOReturnSuccess" "out = Some p" for p
    unfolding wp_bind by (rule wp_call_out, simp add: wp_return)
      (rule assms [of _ "ps @ [UsbReleased p]"],
       use a that in \<open>auto simp: configure_log_found device_after_def\<close>)
  show "wp (case (ret, out) of (ret, probe) \<Rightarrow> (case probe of
        Some p \<Rightarrow> if ret = kIOReturnSuccess then do {
            call_out (ud_release dk p) (\<lambda>_. [UsbReleased p]); return kIOReturnSuccess }
          else usb_select dk provider d
      | None \<Rightarrow> usb_select dk provider d)) Q t"
    using sel rel by (auto split: option.split)
qed

section \<open>Starting\<close>

text \<open>
  The whole of \<open>Start\<close>, as what it may record, what it returns and where it leaves the pointer.
\<close>

inductive start_log :: "kern_return \<Rightarrow> obj option \<Rightarrow> usb_call list \<Rightarrow> bool" where
  super_failed: "ret \<noteq> kIOReturnSuccess \<Longrightarrow> start_log ret None [UsbSuperStarted ret]"
| no_device: "start_log kIOReturnNoDevice None [UsbSuperStarted kIOReturnSuccess, UsbSuperStopped r]"
| open_failed: "ret \<noteq> kIOReturnSuccess \<Longrightarrow>
    start_log ret None [UsbSuperStarted kIOReturnSuccess, UsbOpened d ret, UsbSuperStopped r]"
| opened: "configure_log d ret cs \<Longrightarrow>
    start_log ret (if ret = kIOReturnSuccess then Some d else None)
      (UsbSuperStarted kIOReturnSuccess # UsbOpened d kIOReturnSuccess # cs)"

lemma wp_usb_Start:
  fixes s :: "'e usb_sys"
  assumes "usb_ivars s = Some None"
    and Q: "\<And>ret d t cs. \<lbrakk>start_log ret d cs; trace t = trace s @ cs; usb_ivars t = Some d\<rbrakk> \<Longrightarrow> Q ret t"
  shows "wp (usb_Start dk provider) Q s"
  unfolding usb_Start_def wp_bind
proof (rule wp_call_out, simp add: wp_simps, intro conjI impI, goal_cases)
  case (1 ret e)
  then show ?case by (intro Q [OF super_failed]) (auto simp: assms)
next
  case (2 ret e)
  show ?case
    unfolding wp_bind
  proof (rule wp_ask, simp add: wp_simps assms split: option.split, intro conjI impI allI, goal_cases)
    case (1 d e)
    show ?case
      unfolding usb_super_Stop_def by (rule wp_call_out, simp add: wp_simps) (rule Q [OF no_device], simp_all)
  next
    case (2 d e d')
    show ?case
    proof (rule wp_call_out, simp add: wp_simps, intro conjI impI, goal_cases)
      case (1 ret e)
      show ?case
        unfolding usb_super_Stop_def by (rule wp_call_out, simp add: wp_simps)
          (rule Q [OF open_failed [OF 1]], simp_all)
    next
      case (2 ret e)
      show ?case
        by (rule wp_usb_configure) (rule Q [OF opened], auto simp: device_after_def)
    qed
  qed
qed

lemma owed_probe:
  assumes "probe_log ret out cs"
  shows "owed (session_of d) cs = 0" "owed service_of cs = 0" "owed (iterator_of i) cs = 0"
    "owed (reference_of p) cs = of_bool (ret = kIOReturnSuccess \<and> out = Some p)"
  using assms by (auto simp: probe_log_def)

lemma owed_select:
  assumes "select_log e ret cs"
  shows "owed (session_of d) cs = - of_bool (ret \<noteq> kIOReturnSuccess \<and> d = e)"
    "owed service_of cs = - of_bool (ret \<noteq> kIOReturnSuccess)"
    "owed (iterator_of i) cs = 0" "owed (reference_of p) cs = 0"
  using assms by (auto simp: select_log_def split: if_splits)

lemma select_not_release [simp]: "\<not> select_log d ret [UsbReleased p]"
  by (simp add: select_log_def)

lemma owed_configure:
  assumes "configure_log e ret cs"
  shows "owed (session_of d) cs = - of_bool (ret \<noteq> kIOReturnSuccess \<and> d = e)"
    "owed service_of cs = - of_bool (ret \<noteq> kIOReturnSuccess)"
    "owed (iterator_of i) cs = 0" "owed (reference_of p) cs = 0"
  using assms by (auto simp: configure_log_def owed_probe owed_select split: if_splits)

lemma owed_start:
  assumes "start_log ret h cs"
  shows "owed (session_of d) cs = of_bool (h = Some d)" "owed service_of cs = of_bool (h \<noteq> None)"
    "owed (iterator_of i) cs = 0" "owed (reference_of p) cs = 0" "h = None \<longleftrightarrow> ret \<noteq> kIOReturnSuccess"
  using assms
  by (auto elim!: start_log.cases simp: owed_configure ioreturn_defs split: if_splits)

text \<open>Whether the probe found an interface, and the configurations selected.\<close>

definition found_interface :: "usb_call list \<Rightarrow> bool" where
  "found_interface cs \<longleftrightarrow> list_ex (\<lambda>c. case c of UsbCopied ret out \<Rightarrow> ret = kIOReturnSuccess \<and> out \<noteq> None | _ \<Rightarrow> False) cs"

definition selected :: "usb_call list \<Rightarrow> u8 list" where
  "selected cs = concat (map (\<lambda>c. case c of UsbConfigured n match ret \<Rightarrow> [n] | _ \<Rightarrow> []) cs)"

lemma configured_log:
  assumes "configure_log d kIOReturnSuccess cs"
  shows "selected cs = (if found_interface cs then [] else [1])" "UsbClosed e \<notin> set cs"
  using assms by (auto simp: configure_log_def probe_log_def select_log_def selected_def found_interface_def
    split: if_splits)


text \<open>
  C23: Over a whole life the driver's books balance: after a successful \<open>Start\<close> and the matching \<open>Stop\<close>
  every session it opened on a device is closed, every interface it copied is released, every iterator
  destroyed, the device pointer is null, and \<open>super::Stop\<close> has answered \<open>super::Start\<close> exactly once.
\<close>

theorem usb_life_balances:
  assumes "(True, usb_ivars s) = usb_init True allocated" and "trace s = []"
    and "run_state (usb_Start dk provider) s = (kIOReturnSuccess, t)"
    and "u = exec_state (usb_Stop dk provider) t"
  shows "usb_ivars u = Some None \<and> owed service_of (trace u) = 0
    \<and> owed (session_of d) (trace u) = 0 \<and> owed (reference_of p) (trace u) = 0
    \<and> owed (iterator_of i) (trace u) = 0"
proof -
  have init: "usb_ivars s = Some None"
    using assms(1) by (auto simp: usb_init_def split: if_splits)
  obtain h where log: "start_log kIOReturnSuccess h (trace t)" and h: "usb_ivars t = Some h"
    using wp_runD [OF wp_usb_Start [OF init] assms(3), of "\<lambda>ret t. \<exists>h. start_log ret h (trace t) \<and> usb_ivars t = Some h"]
      assms(2) by auto
  from owed_start [OF log] obtain e where e: "h = Some e" by auto
  have "wp (usb_Stop dk provider) (\<lambda>_ u. usb_ivars u = Some None
      \<and> (\<exists>r. trace u = trace t @ [UsbClosed e, UsbSuperStopped r])) t"
    using h e unfolding usb_Stop_def usb_close_defs
    by (simp add: wp_simps) (rule wp_call_out, simp add: wp_simps, rule wp_call_out, simp)
  then show ?thesis using assms(4) owed_start [OF log] e by (auto simp: wp_run)
qed

section \<open>A device that arrives unconfigured\<close>

text \<open>A device whose interfaces appear once a configuration is selected.\<close>

definition bare_usb :: "bool usb_dk" where
  "bare_usb = \<lparr>ud_super_Start = \<lambda>_. return 0, ud_super_Stop = \<lambda>_. return 0,
     ud_cast_device = \<lambda>p. return (Some p), ud_Open = \<lambda>_. return 0, ud_Close = \<lambda>_. return (),
     ud_CreateInterfaceIterator = \<lambda>_. return (0, 7),
     ud_CopyInterface = \<lambda>_ _. gets (\<lambda>up. (0, if up then Some 5 else None)),
     ud_DestroyInterfaceIterator = \<lambda>_ _. return (),
     ud_SetConfiguration = \<lambda>_ _ _. State (\<lambda>_. (0, True)), ud_release = \<lambda>_. return ()\<rparr>"

definition plugged :: "bool \<Rightarrow> bool usb_sys" where
  "plugged up = \<lparr>outside = up, trace = [], usb_ivars = Some None\<rparr>"

lemmas bare_defs = bare_usb_def plugged_def usb_Start_def usb_configure_def usb_select_def
  CopyFirstInterface_def set_device_def ask_def call_out_def kIOReturnSuccess_def

lemma bare_started:
  "run_state (usb_Start bare_usb 1) (plugged False) = (kIOReturnSuccess,
     \<lparr>outside = True, trace = [UsbSuperStarted 0, UsbOpened 1 0, UsbIterated 0 7, UsbCopied 0 None,
       UsbIteratorGone 7, UsbConfigured 1 True 0], usb_ivars = Some (Some 1)\<rparr>)"
  by (simp add: bare_defs)

lemma plugged_init:
  "(True, usb_ivars (plugged b)) = usb_init True True" "usb_ivars (plugged b) = Some None" "trace (plugged b) = []"
  by (simp_all add: plugged_def usb_init_def)


lemma usb_life_balances_witness:
  "owed (session_of 1) (trace (exec_state (usb_Stop bare_usb 1) (exec_state (usb_Start bare_usb 1) (plugged False)))) = 0"
  using usb_life_balances [OF plugged_init(1,3) bare_started refl]
  by (simp only: bare_started snd_conv)

end
