(* ===== verification/Usb_Backend.thy ===== *)
theory Usb_Backend
  imports Trace Control
begin

text \<open>
  The user-space transport of the probe tool, \<open>tools/smsc95xx-probe/usb_backend.c\<close>: finding and
  opening the device, claiming its interface, control and bulk transfers. IOKit and IOUSBLib are
  parameters, fields of the record \<open>iolib\<close> over a state \<open>'e\<close>. A run records what it acquires and
  releases, the requests it makes, and what the tool prints.
\<close>

section \<open>State\<close>

text \<open>\<open>struct usb_device\<close>; a pipe reference of 0 is no pipe.\<close>

record usb_device =
  intf :: "obj option"
  iface :: "obj option"
  pipe_in :: u8
  pipe_out :: u8

text \<open>Everything that has to be given back: what \<open>ledger\<close> counts.\<close>

datatype resource =
    Service obj
  | Iterator obj
  | Plugin obj
  | DeviceRef obj
  | DeviceSession obj
  | InterfaceRef obj
  | InterfaceSession obj
  | Block

datatype 'm event =
    Acquired resource
  | Released resource
  | Configured obj u8 kern_return
  | ControlIn u8 u16 u16 "u8 list" kern_return
  | ControlOut u8 u16 u16 "u8 list" kern_return
  | BulkOut u8 "u8 list" kern_return
  | BulkIn u8 "u8 list" kern_return
  | Say 'm
  | Hung

text \<open>
  The state of the tool: what the one pointer \<open>d\<close> of \<open>main\<close> points at, \<open>None\<close> for a null pointer, and
  the record of the run.
\<close>

record ('e, 'm) probe = "('e, 'm event) traced" +
  dev :: "usb_device option"

datatype plugin_kind = DevicePlugIn | InterfacePlugIn

record 'e iolib =
  lib_IOServiceMatching :: "('e, bool) state"
  lib_GetMatchingServices :: "u16 \<Rightarrow> u16 \<Rightarrow> ('e, kern_return \<times> obj) state"
  lib_IteratorNext :: "obj \<Rightarrow> ('e, obj option) state"
  lib_ObjectRelease :: "obj \<Rightarrow> ('e, unit) state"
  lib_CreatePlugIn :: "plugin_kind \<Rightarrow> obj \<Rightarrow> ('e, kern_return \<times> obj option) state"
  lib_QueryInterface :: "obj \<Rightarrow> ('e, obj option) state"
  lib_DestroyPlugIn :: "obj \<Rightarrow> ('e, unit) state"
  lib_Open :: "obj \<Rightarrow> ('e, kern_return) state"
  lib_Close :: "obj \<Rightarrow> ('e, unit) state"
  lib_Release :: "obj \<Rightarrow> ('e, unit) state"
  lib_GetConfiguration :: "obj \<Rightarrow> ('e, kern_return \<times> u8) state"
  lib_SetConfiguration :: "obj \<Rightarrow> u8 \<Rightarrow> ('e, kern_return) state"
  lib_calloc :: "('e, bool) state"
  lib_free :: "('e, unit) state"
  lib_DeviceRequest :: "obj \<Rightarrow> u8 \<Rightarrow> u8 \<Rightarrow> u16 \<Rightarrow> u16 \<Rightarrow> u16 \<Rightarrow> u8 list
    \<Rightarrow> ('e, kern_return \<times> u8 list \<times> u32) state"
  lib_CreateInterfaceIterator :: "obj \<Rightarrow> ('e, kern_return \<times> obj) state"
  lib_GetNumEndpoints :: "obj \<Rightarrow> ('e, kern_return \<times> u8) state"
  lib_GetPipeProperties :: "obj \<Rightarrow> u8 \<Rightarrow> ('e, kern_return \<times> u8 \<times> u8) state"
  lib_WritePipeTO :: "obj \<Rightarrow> u8 \<Rightarrow> u8 list \<Rightarrow> ('e, kern_return) state"
  lib_ReadPipeTO :: "obj \<Rightarrow> u8 \<Rightarrow> u32 \<Rightarrow> ('e, kern_return \<times> u8 list \<times> u32) state"

definition kIOReturnNotOpen :: kern_return where "kIOReturnNotOpen = 0xE00002CD"
definition kIOReturnNotReadable :: kern_return where "kIOReturnNotReadable = 0xE00002CE"
definition kIOReturnExclusiveAccess :: kern_return where "kIOReturnExclusiveAccess = 0xE00002C5"
definition kIOReturnNotPermitted :: kern_return where "kIOReturnNotPermitted = 0xE00002E2"
definition kIOUSBTransactionTimeout :: kern_return where "kIOUSBTransactionTimeout = 0xE0004051"
definition kIOUSBPipeStalled :: kern_return where "kIOUSBPipeStalled = 0xE000404F"

definition kUSBOut :: u8 where "kUSBOut = 0"
definition kUSBIn :: u8 where "kUSBIn = 1"
definition kUSBBulk :: u8 where "kUSBBulk = 2"

section \<open>Acquiring and giving back\<close>

definition acquire_by :: "('e, 'a) state \<Rightarrow> ('a \<Rightarrow> resource option) \<Rightarrow> (('e, 'm) probe, 'a) state" where
  "acquire_by f r = call_out f (\<lambda>a. case r a of None \<Rightarrow> [] | Some q \<Rightarrow> [Acquired q])"

definition give_back :: "('e, unit) state \<Rightarrow> resource \<Rightarrow> (('e, 'm) probe, unit) state" where
  "give_back f q = call_out f (\<lambda>_. [Released q])"

definition if_success :: "'a \<Rightarrow> kern_return \<Rightarrow> 'a option" where
  "if_success a kr = (if kr = kIOReturnSuccess then Some a else None)"

section \<open>Finding the device\<close>

definition reference :: "plugin_kind \<Rightarrow> obj \<Rightarrow> resource" where
  "reference kind = (case kind of DevicePlugIn \<Rightarrow> DeviceRef | InterfacePlugIn \<Rightarrow> InterfaceRef)"

text \<open>The plug-in dance, the same for a device and for an interface.\<close>

definition query_plugin :: "'e iolib \<Rightarrow> plugin_kind \<Rightarrow> obj \<Rightarrow> (('e, 'm) probe, obj option) state" where
  "query_plugin lib kind svc = do {
     (kr, plugin) \<leftarrow> acquire_by (lib_CreatePlugIn lib kind svc)
       (\<lambda>(kr, plugin). if kr = kIOReturnSuccess then map_option Plugin plugin else None);
     (case plugin of
        Some p \<Rightarrow>
          if kr = kIOReturnSuccess then do {
            i \<leftarrow> acquire_by (lib_QueryInterface lib p)
              (map_option (reference kind));
            give_back (lib_DestroyPlugIn lib p) (Plugin p);
            return i
          } else return None
      | None \<Rightarrow> return None)
   }"

definition query_device :: "'e iolib \<Rightarrow> obj \<Rightarrow> (('e, 'm) probe, obj option) state" where
  "query_device lib svc = query_plugin lib DevicePlugIn svc"

definition close_device :: "'e iolib \<Rightarrow> obj \<Rightarrow> (('e, 'm) probe, unit) state" where
  "close_device lib i = give_back (lib_Close lib i) (DeviceSession i)"

definition release_device :: "'e iolib \<Rightarrow> obj \<Rightarrow> (('e, 'm) probe, unit) state" where
  "release_device lib i = give_back (lib_Release lib i) (DeviceRef i)"

text \<open>An unconfigured device is configured; the result is whether that was not refused.\<close>

definition ensure_configured :: "'e iolib \<Rightarrow> obj \<Rightarrow> (('e, 'm) probe, bool) state" where
  "ensure_configured lib i = do {
     (kr, cfg) \<leftarrow> ask (lib_GetConfiguration lib i);
     if kr = kIOReturnSuccess \<and> cfg = 0 then do {
       kr \<leftarrow> call_out (lib_SetConfiguration lib i 1) (\<lambda>kr. [Configured i 1 kr]);
       return (kr = kIOReturnSuccess)
     } else return True
   }"

text \<open>
  One round of the loop of \<open>usb_open_id\<close> with the local \<open>last_kr\<close>: \<open>Inr\<close> leaves the loop, with
  whether a device was opened.
\<close>

definition open_candidate ::
    "'e iolib \<Rightarrow> obj \<Rightarrow> kern_return \<Rightarrow> (('e, 'm) probe, kern_return + (bool \<times> kern_return)) state" where
  "open_candidate lib iter last_kr = do {
     svc \<leftarrow> acquire_by (lib_IteratorNext lib iter) (map_option Service);
     (case svc of
        None \<Rightarrow> do {
          give_back (lib_ObjectRelease lib iter) (Iterator iter);
          return (Inr (False, last_kr))
        }
      | Some svc \<Rightarrow> do {
          intf \<leftarrow> query_device lib svc;
          give_back (lib_ObjectRelease lib svc) (Service svc);
          (case intf of
             None \<Rightarrow> return (Inl last_kr)
           | Some i \<Rightarrow> do {
               open_kr \<leftarrow> acquire_by (lib_Open lib i) (if_success (DeviceSession i));
               if open_kr = kIOReturnSuccess then do {
                 configured \<leftarrow> ensure_configured lib i;
                 if \<not> configured then do {
                   close_device lib i;
                   release_device lib i;
                   return (Inl kIOReturnNotReady)
                 } else do {
                   d \<leftarrow> acquire_by (lib_calloc lib) (\<lambda>ok. if ok then Some Block else None);
                   if d then do {
                     assign dev_update (Some \<lparr>intf = Some i, iface = None, pipe_in = 0, pipe_out = 0\<rparr>);
                     give_back (lib_ObjectRelease lib iter) (Iterator iter);
                     return (Inr (True, kIOReturnSuccess))
                   } else do {
                     close_device lib i;
                     release_device lib i;
                     return (Inl last_kr)
                   }
                 }
               } else do {
                 release_device lib i;
                 return (Inl open_kr)
               }
             })
        })
   }"

definition usb_open_id :: "'e iolib \<Rightarrow> u16 \<Rightarrow> u16 \<Rightarrow> (('e, 'm) probe, bool \<times> kern_return) state" where
  "usb_open_id lib vid pid = do {
     match \<leftarrow> ask (lib_IOServiceMatching lib);
     if \<not> match then return (False, kIOReturnNoDevice)
     else do {
       (kr, iter) \<leftarrow> acquire_by (lib_GetMatchingServices lib vid pid) (\<lambda>(kr, iter). if_success (Iterator iter) kr);
       if kr \<noteq> kIOReturnSuccess then return (False, kIOReturnNoDevice)
       else loop_forever Hung (False, kIOReturnNoDevice) (open_candidate lib iter) kIOReturnNoDevice
     }
   }"

definition SMSC95XX_VID_MACH :: u16 where "SMSC95XX_VID_MACH = 0x0424"
definition SMSC95XX_PID_MACH :: u16 where "SMSC95XX_PID_MACH = 0x9E00"
definition SMSC95XX_PID_MACH_EE :: u16 where "SMSC95XX_PID_MACH_EE = 0x9905"
definition SMSC95XX_VID_EVB :: u16 where "SMSC95XX_VID_EVB = 0x184F"
definition SMSC95XX_PID_EVB :: u16 where "SMSC95XX_PID_EVB = 0x0051"

definition known_ids :: "(u16 \<times> u16) list" where
  "known_ids = [(SMSC95XX_VID_MACH, SMSC95XX_PID_MACH_EE), (SMSC95XX_VID_MACH, SMSC95XX_PID_MACH),
     (SMSC95XX_VID_EVB, SMSC95XX_PID_EVB)]"

text \<open>The loop over the identifiers left, with the local \<open>last_kr\<close>.\<close>

fun open_first :: "'e iolib \<Rightarrow> (u16 \<times> u16) list \<Rightarrow> kern_return
    \<Rightarrow> (('e, 'm) probe, (u16 \<times> u16) option \<times> kern_return) state" where
  "open_first lib [] last_kr = return (None, last_kr)"
| "open_first lib ((vid, pid) # ids) last_kr = do {
     (found, attempt_kr) \<leftarrow> usb_open_id lib vid pid;
     if found then return (Some (vid, pid), kIOReturnSuccess)
     else open_first lib ids (if attempt_kr \<noteq> kIOReturnNoDevice then attempt_kr else last_kr)
   }"

definition usb_open_first :: "'e iolib \<Rightarrow> (('e, 'm) probe, (u16 \<times> u16) option \<times> kern_return) state" where
  "usb_open_first lib = open_first lib known_ids kIOReturnNoDevice"

section \<open>Closing\<close>

definition usb_close :: "'e iolib \<Rightarrow> (('e, 'm) probe, unit) state" where
  "usb_close lib = do {
     d \<leftarrow> gets dev;
     (case d of
        None \<Rightarrow> skip
      | Some d \<Rightarrow> do {
          (case iface d of
             None \<Rightarrow> skip
           | Some i \<Rightarrow> do {
               give_back (lib_Close lib i) (InterfaceSession i);
               give_back (lib_Release lib i) (InterfaceRef i)
             });
          (case intf d of
             None \<Rightarrow> skip
           | Some i \<Rightarrow> do {
               close_device lib i;
               release_device lib i
             });
          assign dev_update None;
          give_back (lib_free lib) Block
        })
   }"

section \<open>Control transfers\<close>

text \<open>
  \<open>USBmakebmRequestType(direction, kUSBVendor, kUSBDevice)\<close> is \<open>REQUEST_IN\<close> or \<open>REQUEST_OUT\<close>. The transfer
  works on the caller's buffer, and never touches more of it than the length it is given.
\<close>

definition control :: "'e iolib \<Rightarrow> u8 \<Rightarrow> u8 \<Rightarrow> u16 \<Rightarrow> u16 \<Rightarrow> u8 list \<Rightarrow> u16
    \<Rightarrow> (('e, 'm) probe, kern_return \<times> u8 list) state" where
  "control lib direction request val index buf len = do {
     d \<leftarrow> gets dev;
     (case Option.bind d intf of
        None \<Rightarrow> return (kIOReturnBadArgument, buf)
      | Some i \<Rightarrow> do {
          (kr, content, wLenDone) \<leftarrow> call_out
            (lib_DeviceRequest lib i (if direction = kUSBIn then REQUEST_IN else REQUEST_OUT) request val index len buf)
            (\<lambda>(kr, content, wLenDone).
              [if direction = kUSBIn then ControlIn request val index (take (unat len) content) kr
               else ControlOut request val index (take (unat len) buf) kr]);
          return (if kr = kIOReturnSuccess \<and> wLenDone \<noteq> ucast len then kIOReturnUnderrun else kr,
            overlay buf 0 (take (unat len) content))
        })
   }"

definition usb_control_in :: "'e iolib \<Rightarrow> u8 \<Rightarrow> u16 \<Rightarrow> u16 \<Rightarrow> u8 list \<Rightarrow> u16
    \<Rightarrow> (('e, 'm) probe, kern_return \<times> u8 list) state" where
  "usb_control_in lib request val index buf len = control lib kUSBIn request val index buf len"

definition usb_control_out :: "'e iolib \<Rightarrow> u8 \<Rightarrow> u16 \<Rightarrow> u16 \<Rightarrow> u8 list \<Rightarrow> u16
    \<Rightarrow> (('e, 'm) probe, kern_return) state" where
  "usb_control_out lib request val index buf len = do {
     (kr, b) \<leftarrow> control lib kUSBOut request val index buf len;
     return kr
   }"

section \<open>Claiming the interface\<close>

text \<open>
  The loop \<open>for (UInt8 pipe = 1; pipe <= count; pipe++)\<close>: the counter is a byte and wraps.
\<close>

definition set_dev :: "(usb_device \<Rightarrow> usb_device) \<Rightarrow> (('e, 'm) probe, unit) state" where
  "set_dev f = modify (\<lambda>s. s\<lparr>dev := map_option f (dev s)\<rparr>)"

definition record_pipe :: "u8 \<Rightarrow> u8 \<Rightarrow> usb_device \<Rightarrow> usb_device" where
  "record_pipe direction pipe d =
     (if direction = kUSBIn \<and> pipe_in d = 0 then d\<lparr>pipe_in := pipe\<rparr>
      else if direction = kUSBOut \<and> pipe_out d = 0 then d\<lparr>pipe_out := pipe\<rparr> else d)"

definition pipe_step :: "'e iolib \<Rightarrow> obj \<Rightarrow> u8 \<Rightarrow> u8 \<Rightarrow> (('e, 'm) probe, u8 + unit) state" where
  "pipe_step lib i n pipe =
     (if \<not> pipe \<le> n then return (Inr ())
      else do {
        (kr, direction, transfer_type) \<leftarrow> ask (lib_GetPipeProperties lib i pipe);
        if kr \<noteq> kIOReturnSuccess then return (Inl (pipe + 1))
        else if transfer_type \<noteq> kUSBBulk then return (Inl (pipe + 1))
        else do {
          set_dev (record_pipe direction pipe);
          return (Inl (pipe + 1))
        }
      })"

definition find_bulk_pipes :: "'e iolib \<Rightarrow> obj \<Rightarrow> (('e, 'm) probe, kern_return) state" where
  "find_bulk_pipes lib i = do {
     (kr, n) \<leftarrow> ask (lib_GetNumEndpoints lib i);
     if kr \<noteq> kIOReturnSuccess then return kr
     else do {
       set_dev (\<lambda>d. d\<lparr>pipe_in := 0, pipe_out := 0\<rparr>);
       loop_forever Hung () (pipe_step lib i n) 1;
       d \<leftarrow> gets dev;
       if pipe_in (the d) = 0 \<or> pipe_out (the d) = 0 then return kIOReturnNotFound
       else return kIOReturnSuccess
     }
   }"

text \<open>One round of the loop of \<open>usb_claim_interface\<close>, with the local \<open>last\<close>.\<close>

definition claim_candidate ::
    "'e iolib \<Rightarrow> obj \<Rightarrow> kern_return \<Rightarrow> (('e, 'm) probe, kern_return + kern_return) state" where
  "claim_candidate lib iter last_kr = do {
     svc \<leftarrow> acquire_by (lib_IteratorNext lib iter) (map_option Service);
     (case svc of
        None \<Rightarrow> do {
          give_back (lib_ObjectRelease lib iter) (Iterator iter);
          return (Inr last_kr)
        }
      | Some svc \<Rightarrow> do {
          itf \<leftarrow> query_plugin lib InterfacePlugIn svc;
          give_back (lib_ObjectRelease lib svc) (Service svc);
          (case itf of
             None \<Rightarrow> return (Inl last_kr)
           | Some i \<Rightarrow> do {
               open_kr \<leftarrow> acquire_by (lib_Open lib i) (if_success (InterfaceSession i));
               if open_kr = kIOReturnSuccess then do {
                 set_dev (iface_update (\<lambda>_. Some i));
                 pk \<leftarrow> find_bulk_pipes lib i;
                 if pk = kIOReturnSuccess then do {
                   give_back (lib_ObjectRelease lib iter) (Iterator iter);
                   return (Inr kIOReturnSuccess)
                 } else do {
                   give_back (lib_Close lib i) (InterfaceSession i);
                   set_dev (iface_update (\<lambda>_. None));
                   give_back (lib_Release lib i) (InterfaceRef i);
                   return (Inl pk)
                 }
               } else do {
                 give_back (lib_Release lib i) (InterfaceRef i);
                 return (Inl open_kr)
               }
             })
        })
   }"

definition usb_claim_interface :: "'e iolib \<Rightarrow> (('e, 'm) probe, kern_return) state" where
  "usb_claim_interface lib = do {
     d \<leftarrow> gets dev;
     (case (Option.bind d intf, Option.bind d iface) of
        (None, _) \<Rightarrow> return kIOReturnBadArgument
      | (Some _, Some _) \<Rightarrow> return kIOReturnSuccess
      | (Some i, None) \<Rightarrow> do {
          (kr, iter) \<leftarrow> acquire_by (lib_CreateInterfaceIterator lib i) (\<lambda>(kr, iter). if_success (Iterator iter) kr);
          if kr \<noteq> kIOReturnSuccess then return kr
          else loop_forever Hung kIOReturnNotFound (claim_candidate lib iter) kIOReturnNotFound
        })
   }"

section \<open>Bulk transfers\<close>

definition usb_bulk_out :: "'e iolib \<Rightarrow> u8 list \<Rightarrow> u32 \<Rightarrow> (('e, 'm) probe, kern_return) state" where
  "usb_bulk_out lib buf len = do {
     d \<leftarrow> gets dev;
     (case Option.bind d iface of
        None \<Rightarrow> return kIOReturnNotOpen
      | Some i \<Rightarrow>
          let pipe = pipe_out (the d) in
          if pipe = 0 then return kIOReturnNotOpen
          else call_out (lib_WritePipeTO lib i pipe (take (unat len) buf))
                 (\<lambda>kr. [BulkOut pipe (take (unat len) buf) kr]))
   }"

definition usb_bulk_in :: "'e iolib \<Rightarrow> u8 list \<Rightarrow> u32 \<Rightarrow> (('e, 'm) probe, kern_return \<times> u8 list \<times> u32) state" where
  "usb_bulk_in lib buf len = do {
     d \<leftarrow> gets dev;
     (case Option.bind d iface of
        None \<Rightarrow> return (kIOReturnNotOpen, buf, len)
      | Some i \<Rightarrow>
          let pipe = pipe_in (the d) in
          if pipe = 0 then return (kIOReturnNotOpen, buf, len)
          else do {
            (kr, content, got) \<leftarrow> call_out (lib_ReadPipeTO lib i pipe len)
              (\<lambda>(kr, content, got). [BulkIn pipe (take (unat len) content) kr]);
            return (kr, overlay buf 0 (take (unat len) content), got)
          })
   }"

definition usb_strerror :: "kern_return \<Rightarrow> string" where
  "usb_strerror kr =
     (if kr = kIOReturnSuccess then ''success''
      else if kr = kIOReturnNoDevice then ''no such device''
      else if kr = kIOReturnNotOpen then ''device not open''
      else if kr = kIOReturnExclusiveAccess then ''device claimed by another driver''
      else if kr = kIOReturnNotPermitted then ''not permitted''
      else if kr = kIOReturnTimeout then ''timed out''
      else if kr = kIOReturnBadArgument then ''bad argument''
      else if kr = kIOReturnNotFound then ''not found''
      else if kr = kIOUSBPipeStalled then ''pipe stalled''
      else if kr = kIOUSBTransactionTimeout then ''transaction timeout''
      else if kr = kIOReturnUnderrun then ''short transfer''
      else if kr = kIOReturnAborted then ''operation aborted''
      else ''unknown error'')"

end
