(* ===== verification/Usb_Books.thy ===== *)
theory Usb_Books
  imports Usb_Backend
begin

text \<open>
  The resource books of the probe's transport: what a run acquired and has not given back is exactly
  what the open device holds. Each function of \<open>usb_backend.c\<close> has one rule, used by every command.
\<close>

section \<open>The books\<close>

fun ledger :: "resource \<Rightarrow> 'm event \<Rightarrow> int" where
  "ledger r (Acquired q) = of_bool (q = r)"
| "ledger r (Released q) = - of_bool (q = r)"
| "ledger r _ = 0"

text \<open>What the structure \<open>d\<close> points at has to give back.\<close>

definition holdings :: "usb_device option \<Rightarrow> resource multiset" where
  "holdings d = (case d of None \<Rightarrow> {#}
     | Some d \<Rightarrow> {#Block#} + (case intf d of None \<Rightarrow> {#} | Some i \<Rightarrow> {#DeviceRef i, DeviceSession i#})
         + (case iface d of None \<Rightarrow> {#} | Some i \<Rightarrow> {#InterfaceRef i, InterfaceSession i#}))"

definition hung :: "('e, 'm) probe \<Rightarrow> bool" where
  "hung s \<longleftrightarrow> Hung \<in> set (trace s)"

text \<open>
  The run owes exactly \<open>M\<close>, unless a loop of it never ended; and exactly what the open device holds
  and \<open>R\<close>.
\<close>

definition owes :: "resource multiset \<Rightarrow> ('e, 'm) probe \<Rightarrow> bool" where
  "owes M s \<longleftrightarrow> hung s \<or> (\<forall>q. owed (ledger q) (trace s) = int (count M q))"

definition books :: "resource multiset \<Rightarrow> ('e, 'm) probe \<Rightarrow> bool" where
  "books R s \<longleftrightarrow> owes (holdings (dev s) + R) s"

definition opt_mset :: "'a option \<Rightarrow> 'a multiset" where
  "opt_mset x = (case x of None \<Rightarrow> {#} | Some a \<Rightarrow> {#a#})"

lemma opt_mset_simps [simp]: "opt_mset None = {#}" "opt_mset (Some a) = {#a#}"
  by (simp_all add: opt_mset_def)

lemma wp_acquire_by:
  assumes "books R s" and "\<And>a t. books (R + opt_mset (r a)) t \<Longrightarrow> dev t = dev s \<Longrightarrow> Q a t"
  shows "wp (acquire_by f r) Q s"
  unfolding acquire_by_def using assms(1)
  by (intro wp_call_out assms(2)) (auto simp: books_def owes_def hung_def split: option.split)

lemma wp_give_back_owes:
  assumes "owes (add_mset q M) s" and "\<And>a t. owes M t \<Longrightarrow> dev t = dev s \<Longrightarrow> Q a t"
  shows "wp (give_back f q) Q s"
  unfolding give_back_def using assms(1)
  by (intro wp_call_out) (rule assms(2), auto simp: owes_def hung_def)

lemma wp_give_back:
  assumes "books (add_mset q R) s" and "\<And>a t. books R t \<Longrightarrow> dev t = dev s \<Longrightarrow> Q a t"
  shows "wp (give_back f q) Q s"
  unfolding give_back_def using assms(1)
  by (intro wp_call_out) (rule assms(2), auto simp: books_def owes_def hung_def)

lemma books_outside [simp]: "books R (s\<lparr>outside := e\<rparr>) = books R s"
  by (simp add: books_def owes_def hung_def)

lemma wp_ask_books:
  assumes "books R s" and "\<And>a t. books R t \<Longrightarrow> dev t = dev s \<Longrightarrow> Q a t"
  shows "wp (ask f) Q s"
  using assms(1) by (intro wp_ask assms(2)) simp_all

text \<open>Events that are no transaction.\<close>

fun booked :: "'m event \<Rightarrow> bool" where
  "booked (Acquired q) = True"
| "booked (Released q) = True"
| "booked Hung = True"
| "booked _ = False"

lemma ledger_other: "\<not> booked e \<Longrightarrow> ledger q e = 0"
  by (cases e) auto

lemma books_note: "\<not> booked x \<Longrightarrow> books R s \<Longrightarrow> books R (s\<lparr>outside := e, trace := trace s @ [x]\<rparr>)"
  by (auto simp: books_def owes_def hung_def ledger_other)

lemma wp_note:
  assumes "books R s" and "\<And>a. \<not> booked (x a)" and "\<And>a t. books R t \<Longrightarrow> dev t = dev s \<Longrightarrow> Q a t"
  shows "wp (call_out f (\<lambda>a. [x a])) Q s"
  using assms(1,2) by (intro wp_call_out assms(3)) (simp_all add: books_note)

lemma books_adopt:
  "books (R + holdings (Some d)) s \<Longrightarrow> dev s = None \<Longrightarrow> books R (s\<lparr>dev := Some d\<rparr>)"
  by (auto simp: books_def owes_def hung_def holdings_def ac_simps)

lemma wp_query_plugin:
  fixes s :: "('e, 'm) probe"
  assumes "books R s" and "\<And>i t. books (R + opt_mset (map_option (reference kind) i)) t \<Longrightarrow> dev t = dev s \<Longrightarrow> Q i t"
  shows "wp (query_plugin lib kind svc) Q s"
  unfolding query_plugin_def wp_bind
proof (rule wp_acquire_by [OF assms(1)], clarsimp simp: wp_simps split: option.split, intro conjI impI allI, goal_cases)
  case (1 kr t)
  then show ?case using assms(2) [of None] by (auto split: if_splits)
next
  case (2 kr plugin t p)
  show ?case
    unfolding wp_bind
  proof (rule wp_acquire_by [of "add_mset (Plugin p) R"])
    fix i and u :: "('e, 'm) probe"
    assume a: "books (add_mset (Plugin p) R + opt_mset (map_option (reference kind) i)) u" "dev u = dev t"
    show "wp (give_back (lib_DestroyPlugIn lib p) (Plugin p)) (\<lambda>_. wp (return i) Q) u"
      by (rule wp_give_back [of _ "R + opt_mset (map_option (reference kind) i)"])
        (use a 2 in \<open>auto simp: wp_simps intro: assms(2)\<close>)
  qed (use 2 in simp)
next
  case (3 kr plugin t)
  then show ?case using assms(2) [of None] by simp
qed


text \<open>Closing and releasing one reference, a device's or an interface's.\<close>

lemma wp_give_back_twice:
  assumes "books (add_mset q (add_mset r R)) s" and "\<And>t. books R t \<Longrightarrow> dev t = dev s \<Longrightarrow> wp m Q t"
  shows "wp (do { give_back f q; give_back g r; m }) Q s"
  unfolding wp_bind
  by (rule wp_give_back [OF assms(1)], rule wp_give_back, assumption, rule assms(2)) simp_all

lemma wp_ensure_configured:
  assumes "books R s" and "\<And>b t. books R t \<Longrightarrow> dev t = dev s \<Longrightarrow> Q b t"
  shows "wp (ensure_configured lib i) Q s"
  unfolding ensure_configured_def wp_bind
proof (rule wp_ask_books [OF assms(1)], clarsimp simp: wp_simps assms(2), goal_cases)
  case (1 t)
  show ?case unfolding wp_bind
    by (rule wp_note [OF 1(1)]) (simp_all add: wp_simps 1 assms(2))
qed

text \<open>
  One round of the search, the iterator in hand: with no device open it ends with no device open, and
  the iterator given back when it leaves the loop; or it ends with the device it opened.
\<close>

lemma wp_open_candidate:
  fixes s :: "('e, 'm) probe"
  assumes s: "books {#Iterator iter#} s" "dev s = None"
  shows "wp (open_candidate lib iter last_kr) (\<lambda>r t. case r of
      Inl k \<Rightarrow> books {#Iterator iter#} t \<and> dev t = None
    | Inr (found, k) \<Rightarrow> books {#} t \<and> (found \<longleftrightarrow> dev t \<noteq> None)) s"
    (is "wp _ ?Q s")
  unfolding open_candidate_def wp_bind
proof (rule wp_acquire_by [OF s(1)], clarsimp simp: s(2) wp_simps split: option.split, intro conjI impI allI, goal_cases)
  case (1 svc t)
  show ?case unfolding wp_bind by (rule wp_give_back) (use 1 in \<open>auto simp: wp_simps\<close>)
next
  case (2 o' t svc)
  have t: "books {#Service svc, Iterator iter#} t" "dev t = None"
    using 2 by (simp_all add: add_mset_commute)
  have give: "wp (do { close_device lib i; release_device lib i; return (Inl k) }) ?Q u"
    if "books {#DeviceSession i, DeviceRef i, Iterator iter#} u" "dev u = None" for i k u
    unfolding close_device_def release_device_def
    by (rule wp_give_back_twice [OF that(1)]) (simp add: wp_simps that(2))
  have release: "wp (do { release_device lib i; return (Inl k) }) ?Q u"
    if "books {#DeviceRef i, Iterator iter#} u" "dev u = None" for i k u
    unfolding release_device_def wp_bind
    by (rule wp_give_back [OF that(1)]) (simp add: wp_simps that(2))
  have keep: "wp (do { assign dev_update (Some \<lparr>intf = Some i, iface = None, pipe_in = 0, pipe_out = 0\<rparr>);
      give_back (lib_ObjectRelease lib iter) (Iterator iter);
      return (Inr (True, kIOReturnSuccess)) }) ?Q u"
    if "books {#Block, DeviceSession i, DeviceRef i, Iterator iter#} u" "dev u = None" for i u
    unfolding wp_bind wp_assign
    by (rule wp_give_back [OF books_adopt])
      (use that in \<open>auto simp: holdings_def add_mset_commute wp_simps\<close>)
  show ?case
    unfolding query_device_def
  proof (rule wp_query_plugin [OF t(1)], goal_cases)
    case (1 x u)
    note u = this
    show ?case
      unfolding wp_bind
    proof (rule wp_give_back [of _ "{#Iterator iter#} + opt_mset (map_option DeviceRef x)"], goal_cases)
      case 1
      show ?case using u by (simp add: reference_def add_mset_commute)
    next
      case (2 a v)
      show ?case
      proof (cases x)
        case None
        then show ?thesis using 2 u t(2) by (simp add: wp_simps)
      next
        case (Some i)
        have v: "books {#DeviceRef i, Iterator iter#} v" "dev v = None"
          using 2 u t(2) Some by simp_all
        show ?thesis
          unfolding Some option.case wp_bind
        proof (rule wp_acquire_by [OF v(1)], simp add: wp_if if_success_def v(2), intro conjI impI, goal_cases)
          case (1 kr w)
          then have w: "books {#DeviceSession i, DeviceRef i, Iterator iter#} w" "dev w = None"
            by (simp_all add: add_mset_commute)
          show ?case
            unfolding wp_bind
          proof (rule wp_ensure_configured [OF w(1)], goal_cases)
            case (1 configured y)
            show ?case
            proof (cases configured)
              case True
              have "wp (if d then do { assign dev_update (Some \<lparr>intf = Some i, iface = None, pipe_in = 0, pipe_out = 0\<rparr>);
                    give_back (lib_ObjectRelease lib iter) (Iterator iter); return (Inr (True, kIOReturnSuccess)) }
                  else do { close_device lib i; release_device lib i; return (Inl last_kr) }) ?Q z"
                if "books ({#DeviceSession i, DeviceRef i, Iterator iter#} + opt_mset (if d then Some Block else None)) z"
                  "dev z = dev y" for d z
                using that 1(2) w(2) keep [of i z] give [of i z last_kr] by (cases d) (simp_all add: add_mset_commute)
              then show ?thesis
                using True by (simp add: wp_bind) (rule wp_acquire_by [OF 1(1)], simp)
            next
              case False
              then show ?thesis using give [OF 1(1)] 1(2) w(2) by simp
            qed
          qed
        next
          case (2 kr w)
          then show ?case by (simp add: release)
        qed
      qed
    qed
  qed
qed

lemma books_hung [simp]: "Hung \<in> set cs \<Longrightarrow> books R (s\<lparr>trace := cs\<rparr>)" "Hung \<in> set cs \<Longrightarrow> owes M (s\<lparr>trace := cs\<rparr>)"
  by (simp_all add: books_def owes_def hung_def)

lemma wp_usb_open_id:
  fixes s :: "('e, 'm) probe"
  assumes s: "books {#} s" "dev s = None"
  shows "wp (usb_open_id lib vid pid) (\<lambda>(found, k) t. books {#} t \<and> (found \<longleftrightarrow> dev t \<noteq> None)) s"
  unfolding usb_open_id_def wp_bind
proof (rule wp_ask_books [OF s(1)], simp add: wp_simps s, intro impI, goal_cases)
  case (1 t)
  show ?case
  proof (rule wp_acquire_by [OF 1(1)], clarsimp simp: wp_simps if_success_def 1(2), intro conjI impI, goal_cases)
    case (1 kr iter u)
    then show ?case by simp
  next
    case (2 kr iter u)
    show ?case
      by (rule wp_loop_forever [where I = "\<lambda>_ t. books {#Iterator iter#} t \<and> dev t = None"])
        (use 2 in \<open>auto intro!: wp_mono [OF wp_open_candidate] split: sum.splits\<close>)
  qed
qed

lemma wp_open_first:
  "books {#} s \<Longrightarrow> dev s = None \<Longrightarrow>
     wp (open_first lib ids k) (\<lambda>(found, k) t. books {#} t \<and> (found \<noteq> None \<longleftrightarrow> dev t \<noteq> None)) s"
proof (induction ids arbitrary: k s)
  case (Cons id ids)
  then show ?case
    by (cases id) (auto simp: wp_simps intro!: wp_mono [OF wp_usb_open_id])
qed (simp add: wp_simps)

lemma books_owes: "books {#} s \<Longrightarrow> owes (holdings (dev s)) s"
  by (simp add: books_def)

lemma owes_dev [simp]: "owes M (s\<lparr>dev := d\<rparr>) = owes M s"
  by (simp add: owes_def hung_def)

lemma owes_books: "owes (holdings (dev s) + R) s \<Longrightarrow> books R s"
  by (simp add: books_def)

lemma wp_usb_close:
  fixes s :: "('e, 'm) probe"
  assumes "books {#} s"
  shows "wp (usb_close lib) (\<lambda>_ t. books {#} t \<and> dev t = None) s"
proof (cases "dev s")
  case None
  then show ?thesis using assms by (simp add: usb_close_def wp_simps)
next
  case (Some d)
  let ?Q = "\<lambda>_ t. books {#} t \<and> dev t = None"
  have block: "wp (do { assign dev_update None; give_back (lib_free lib) Block }) ?Q t"
    if "owes {#Block#} t" for t :: "('e, 'm) probe"
    unfolding wp_bind wp_assign
    by (rule wp_give_back_owes [of _ "{#}"]) (use that in \<open>auto simp: holdings_def books_def\<close>)
  have device: "wp (do { close_device lib i; release_device lib i;
      assign dev_update None; give_back (lib_free lib) Block }) ?Q t"
    if "owes {#DeviceSession i, DeviceRef i, Block#} t" for i and t :: "('e, 'm) probe"
    unfolding close_device_def release_device_def
    by (subst wp_bind, rule wp_give_back_owes [OF that], subst wp_bind, rule wp_give_back_owes, assumption, rule block)
  have rest: "wp (do { (case intf d of None \<Rightarrow> skip | Some i \<Rightarrow> do { close_device lib i; release_device lib i });
      assign dev_update None; give_back (lib_free lib) Block }) ?Q t"
    if "owes (holdings (Some (d\<lparr>iface := None\<rparr>))) t" for t :: "('e, 'm) probe"
    using that block [of t] device [of _ t]
    by (cases "intf d") (simp_all add: holdings_def add_mset_commute wp_bind wp_skip)
  show ?thesis
  proof (cases "iface d")
    case None
    then have "owes (holdings (Some (d\<lparr>iface := None\<rparr>))) s"
      using assms Some by (simp add: books_def holdings_def)
    from rest [OF this] show ?thesis using Some None by (simp add: usb_close_def wp_simps books_def)
  next
    case (Some i)
    have "owes (add_mset (InterfaceSession i) (add_mset (InterfaceRef i) (holdings (Some (d\<lparr>iface := None\<rparr>))))) s"
      using assms Some \<open>dev s = Some d\<close> by (simp add: books_def holdings_def add_mset_commute)
    then have "wp (do { give_back (lib_Close lib i) (InterfaceSession i); give_back (lib_Release lib i) (InterfaceRef i) })
      (\<lambda>_. wp (do { (case intf d of None \<Rightarrow> skip | Some i \<Rightarrow> do { close_device lib i; release_device lib i });
        assign dev_update None; give_back (lib_free lib) Block }) ?Q) s"
      by (subst wp_bind) (erule wp_give_back_owes, erule wp_give_back_owes, rule rest)
    then show ?thesis
      using Some \<open>dev s = Some d\<close> by (simp add: usb_close_def wp_gets wp_bind wp_bind_fun)
  qed
qed

section \<open>Claiming keeps the books\<close>

text \<open>Apart from the two pipe references, the structure is the same.\<close>

definition same_but_pipes :: "usb_device option \<Rightarrow> usb_device option \<Rightarrow> bool" where
  "same_but_pipes d e \<longleftrightarrow> map_option intf d = map_option intf e \<and> map_option iface d = map_option iface e"

lemma same_but_pipes_refl [simp]: "same_but_pipes d d"
  by (simp add: same_but_pipes_def)

lemma same_but_pipes_map:
  "(\<And>d. intf (f d) = intf d) \<Longrightarrow> (\<And>d. iface (f d) = iface d) \<Longrightarrow> same_but_pipes d (map_option f d)"
  by (simp add: same_but_pipes_def option.map_comp comp_def)

lemma same_but_pipes_record [simp]: "same_but_pipes d (map_option (record_pipe dir p) d)"
  by (rule same_but_pipes_map) (simp_all add: record_pipe_def)

lemma same_but_pipes_reset [simp]: "same_but_pipes d (map_option (\<lambda>d. d\<lparr>pipe_in := a, pipe_out := b\<rparr>) d)"
  by (rule same_but_pipes_map) simp_all

lemma same_but_pipes_trans: "same_but_pipes d e \<Longrightarrow> same_but_pipes e f \<Longrightarrow> same_but_pipes d f"
  by (simp add: same_but_pipes_def)

lemma same_but_pipes_holdings: "same_but_pipes d e \<Longrightarrow> holdings d = holdings e"
  by (cases d; cases e) (simp_all add: same_but_pipes_def holdings_def)

lemma books_same: "books R s \<Longrightarrow> same_but_pipes (dev s) d \<Longrightarrow> books R (s\<lparr>dev := d\<rparr>)"
  by (simp add: books_def same_but_pipes_holdings)

lemma wp_set_dev [wp_simps]: "wp (set_dev f) Q s = Q () (s\<lparr>dev := map_option f (dev s)\<rparr>)"
  by (simp add: set_dev_def wp_simps)

lemma wp_find_bulk_pipes:
  fixes s :: "('e, 'm) probe"
  assumes s: "books R s"
  shows "wp (find_bulk_pipes lib i) (\<lambda>_ t. books R t \<and> same_but_pipes (dev s) (dev t)) s"
proof -
  let ?I = "\<lambda>_ t. books R t \<and> same_but_pipes (dev s) (dev t)"
  have step: "wp (pipe_step lib i n p) (\<lambda>r t. case r of Inl p' \<Rightarrow> ?I p' t | Inr u \<Rightarrow> ?I u t) t"
    if "?I p t" for n p and t :: "('e, 'm) probe"
  proof (cases "p \<le> n")
    case True
    then show ?thesis
      unfolding pipe_step_def using that
      by (simp add: wp_bind, intro wp_ask_books)
        (auto simp: wp_simps intro!: books_same intro: same_but_pipes_trans)
  next
    case False
    then show ?thesis using that by (simp add: pipe_step_def wp_return)
  qed
  show ?thesis
    unfolding find_bulk_pipes_def wp_bind
  proof (rule wp_ask_books [OF s], clarsimp simp: wp_simps, goal_cases)
    case (1 n t)
    then have "?I 1 (t\<lparr>dev := map_option (\<lambda>d. d\<lparr>pipe_in := 0, pipe_out := 0\<rparr>) (dev t)\<rparr>)"
      by (auto intro!: books_same)
    then show ?case
      by (intro wp_mono [OF wp_loop_forever [where I = ?I and Q = ?I, OF step]])
        (use \<open>dev t = dev s\<close> in \<open>auto simp: wp_simps\<close>)
  qed
qed

text \<open>One round of claiming, the iterator in hand and no interface claimed.\<close>

definition claiming :: "obj \<Rightarrow> ('e, 'm) probe \<Rightarrow> bool" where
  "claiming iter s \<longleftrightarrow> books {#Iterator iter#} s \<and> (\<exists>d. dev s = Some d \<and> iface d = None)"

lemma books_claim:
  assumes "books (add_mset (InterfaceSession i) (add_mset (InterfaceRef i) R)) s" "dev s = Some d" "iface d = None"
  shows "books R (s\<lparr>dev := Some (d\<lparr>iface := Some i\<rparr>)\<rparr>)"
  using assms by (simp add: books_def holdings_def add_mset_commute)

lemma wp_claim_candidate:
  fixes s :: "('e, 'm) probe"
  assumes s: "claiming iter s"
  shows "wp (claim_candidate lib iter last_kr) (\<lambda>r t. case r of Inl k \<Rightarrow> claiming iter t | Inr k \<Rightarrow> books {#} t) s"
    (is "wp _ ?Q s")
proof -
  have books: "books {#Iterator iter#} s" using s by (simp add: claiming_def)
  have release: "wp (do { give_back (lib_Release lib i) (InterfaceRef i); return (Inl k) }) ?Q u"
    if "books {#InterfaceRef i, Iterator iter#} u" "dev u = Some d" "iface d = None" for i k d u
    unfolding wp_bind by (rule wp_give_back [OF that(1)]) (use that in \<open>simp add: wp_simps claiming_def\<close>)
  have undo: "wp (do { give_back (lib_Close lib i) (InterfaceSession i); set_dev (iface_update (\<lambda>_. None));
        give_back (lib_Release lib i) (InterfaceRef i); return (Inl k) }) ?Q u"
    if "books {#Iterator iter#} u" "dev u = Some d" "iface d = Some i" for i k d u
  proof (subst wp_bind, rule wp_give_back_owes)
    show "owes (add_mset (InterfaceSession i) (add_mset (InterfaceRef i)
        (add_mset (Iterator iter) (holdings (Some (d\<lparr>iface := None\<rparr>)))))) u"
      using that by (simp add: books_def holdings_def add_mset_commute)
  next
    fix a and v :: "('e, 'm) probe"
    assume v: "owes (add_mset (InterfaceRef i) (add_mset (Iterator iter) (holdings (Some (d\<lparr>iface := None\<rparr>))))) v"
      "dev v = dev u"
    show "wp (do { set_dev (iface_update (\<lambda>_. None)); give_back (lib_Release lib i) (InterfaceRef i); return (Inl k) }) ?Q v"
      unfolding wp_bind wp_set_dev
      by (rule release [unfolded wp_bind]) (use v that in \<open>auto simp: books_def add_mset_commute\<close>)
  qed
  have claimed: "wp (do { set_dev (iface_update (\<lambda>_. Some i)); pk \<leftarrow> find_bulk_pipes lib i;
      if pk = kIOReturnSuccess then do { give_back (lib_ObjectRelease lib iter) (Iterator iter); return (Inr kIOReturnSuccess) }
      else do { give_back (lib_Close lib i) (InterfaceSession i); set_dev (iface_update (\<lambda>_. None));
        give_back (lib_Release lib i) (InterfaceRef i); return (Inl pk) } }) ?Q u"
    if "books {#InterfaceSession i, InterfaceRef i, Iterator iter#} u" "dev u = Some d" "iface d = None" for i d u
  proof (subst wp_bind, simp only: wp_set_dev, subst wp_bind, rule wp_mono [OF wp_find_bulk_pipes [of "{#Iterator iter#}"]], goal_cases)
    case 1
    show ?case using books_claim [OF that] that by simp
  next
    case (2 pk v)
    with \<open>dev u = Some d\<close> obtain e where e: "dev v = Some e" "iface e = Some i"
      by (cases "dev v") (auto simp: same_but_pipes_def)
    show ?case
    proof (cases "pk = kIOReturnSuccess")
      case True
      have "books {#Iterator iter#} v" using 2 by simp
      from wp_give_back [OF this] show ?thesis using True by (simp add: wp_bind wp_return)
    next
      case False
      then show ?thesis using undo [of v e i pk] 2 e by simp
    qed
  qed
  have found: "wp (case x of None \<Rightarrow> return (Inl last_kr)
      | Some i \<Rightarrow> do {
          open_kr \<leftarrow> acquire_by (lib_Open lib i) (if_success (InterfaceSession i));
          if open_kr = kIOReturnSuccess then do {
            set_dev (iface_update (\<lambda>_. Some i)); pk \<leftarrow> find_bulk_pipes lib i;
            if pk = kIOReturnSuccess then do { give_back (lib_ObjectRelease lib iter) (Iterator iter); return (Inr kIOReturnSuccess) }
            else do { give_back (lib_Close lib i) (InterfaceSession i); set_dev (iface_update (\<lambda>_. None));
              give_back (lib_Release lib i) (InterfaceRef i); return (Inl pk) } }
          else do { give_back (lib_Release lib i) (InterfaceRef i); return (Inl open_kr) } }) ?Q u"
    if u: "books ({#Iterator iter#} + opt_mset (map_option InterfaceRef x)) u" "dev u = dev s" for x u
  proof (cases x)
    case None
    then show ?thesis using u s by (simp add: claiming_def wp_return)
  next
    case (Some i)
    then have "books {#InterfaceRef i, Iterator iter#} u" using u by simp
    then show ?thesis
      unfolding Some option.case wp_bind [of "acquire_by _ _"]
    proof (rule wp_acquire_by, goal_cases)
      case (1 kr v)
      then show ?case
        using u(2) s claimed [of i v] release [of i v _ kr]
        by (auto simp: claiming_def if_success_def add_mset_commute)
    qed
  qed
  show ?thesis
    unfolding claim_candidate_def wp_bind [of "acquire_by _ _"]
  proof (rule wp_acquire_by [OF books], goal_cases)
    case (1 svc t)
    show ?case
    proof (cases svc)
      case None
      then show ?thesis
        using 1 by (auto simp: wp_bind wp_return intro: wp_give_back)
    next
      case (Some svc)
      have "books {#Service svc, Iterator iter#} t" using 1 Some by simp
      then show ?thesis
        unfolding Some option.case wp_bind [of "query_plugin _ _ _"]
      proof (rule wp_query_plugin, goal_cases)
        case (1 x u)
        then have "books (add_mset (Service svc) ({#Iterator iter#} + opt_mset (map_option InterfaceRef x))) u"
          by (simp add: reference_def)
        then show ?case
          unfolding wp_bind [of "give_back _ (Service svc)"]
          by (rule wp_give_back) (rule found, use 1 \<open>dev t = dev s\<close> in auto)
      qed
    qed
  qed
qed

lemma wp_usb_claim_interface:
  fixes s :: "('e, 'm) probe"
  assumes s: "books {#} s"
  shows "wp (usb_claim_interface lib) (\<lambda>_. books {#}) s"
proof -
  have claim: "wp (do { (kr, iter) \<leftarrow> acquire_by (lib_CreateInterfaceIterator lib i) (\<lambda>(kr, iter). if_success (Iterator iter) kr);
      if kr \<noteq> kIOReturnSuccess then return kr
      else loop_forever Hung kIOReturnNotFound (claim_candidate lib iter) kIOReturnNotFound }) (\<lambda>_. books {#}) s"
    if "dev s = Some d" "iface d = None" for i d
    unfolding wp_bind
  proof (rule wp_acquire_by [OF s], clarsimp simp: wp_if wp_return if_success_def, intro conjI impI, goal_cases)
    case (2 kr iter t)
    then have "claiming iter t" using that by (simp add: claiming_def)
    then show ?case
      by (intro wp_loop_forever [where I = "\<lambda>_. claiming iter"])
        (auto intro!: wp_mono [OF wp_claim_candidate] split: sum.splits)
  qed simp
  show ?thesis
    unfolding usb_claim_interface_def wp_bind wp_gets
    using s claim by (cases "dev s") (auto simp: wp_return split: option.split)
qed

lemma keeps_books_control [keeps_intros]: "keeps (books R) (control lib dir req val idx buf len)"
  unfolding control_def by (intro keeps_intros) (auto simp: books_note)

lemma keeps_books_in [keeps_intros]: "keeps (books R) (usb_control_in lib req val idx buf len)"
  unfolding usb_control_in_def by (intro keeps_intros)

lemma keeps_books_out [keeps_intros]: "keeps (books R) (usb_control_out lib req val idx buf len)"
  unfolding usb_control_out_def by (intro keeps_intros)

lemma keeps_books_bulk_out [keeps_intros]: "keeps (books R) (usb_bulk_out lib buf len)"
  unfolding usb_bulk_out_def by (intro keeps_intros) (auto simp: books_note)

lemma keeps_books_bulk_in [keeps_intros]: "keeps (books R) (usb_bulk_in lib buf len)"
  unfolding usb_bulk_in_def by (intro keeps_intros) (auto simp: books_note)

lemma keeps_books_claim [keeps_intros]: "keeps (books {#}) (usb_claim_interface lib)"
  using wp_usb_claim_interface by (auto simp: keeps_def wp_run)

end
