(* ===== verification/Usb_Pipes.thy ===== *)
theory Usb_Pipes
  imports Usb_Backend
begin

text \<open>
  Pipe discovery: the loop over the interface's pipes against its specification, and the byte-wide
  counter that never passes a count of 255.
\<close>

section \<open>What the loop records\<close>

text \<open>
  An interface described by its number of pipes and, for each, what \<open>GetPipeProperties\<close> says of it.
\<close>

definition described :: "'e iolib \<Rightarrow> obj \<Rightarrow> u8 \<Rightarrow> (u8 \<Rightarrow> kern_return \<times> u8 \<times> u8) \<Rightarrow> bool" where
  "described lib i n props \<longleftrightarrow> lib_GetNumEndpoints lib i = return (kIOReturnSuccess, n)
     \<and> (\<forall>p. lib_GetPipeProperties lib i p = return (props p))"

text \<open>The specification: the lowest pipe reference of a bulk pipe in that direction, 0 if none.\<close>

definition first_bulk :: "(u8 \<Rightarrow> kern_return \<times> u8 \<times> u8) \<Rightarrow> u8 \<Rightarrow> u8 list \<Rightarrow> u8" where
  "first_bulk props dir ps =
     (case find (\<lambda>p. props p = (kIOReturnSuccess, dir, kUSBBulk)) ps of None \<Rightarrow> 0 | Some p \<Rightarrow> p)"

definition scan_pipe :: "(u8 \<Rightarrow> kern_return \<times> u8 \<times> u8) \<Rightarrow> u8 \<Rightarrow> usb_device \<Rightarrow> usb_device" where
  "scan_pipe props p d = (case props p of (kr, dir, ty) \<Rightarrow>
     if kr = kIOReturnSuccess \<and> ty = kUSBBulk then record_pipe dir p d else d)"

text \<open>The pipe references from \<open>p\<close> to \<open>n\<close>.\<close>

definition pipes :: "nat \<Rightarrow> nat \<Rightarrow> u8 list" where
  "pipes p n = map of_nat [p..<Suc n]"

lemma pipes_simps: "n < p \<Longrightarrow> pipes p n = []" "p \<le> n \<Longrightarrow> pipes p n = of_nat p # pipes (Suc p) n"
  by (simp_all add: pipes_def upt_rec)

lemma outside_same [simp]: "s\<lparr>outside := outside s\<rparr> = s"
  by simp

lemma pipe_step_described:
  assumes "described lib i n props"
  shows "run_state (pipe_step lib i n p) s =
    (if p \<le> n then (Inl (p + 1), s\<lparr>dev := map_option (scan_pipe props p) (dev s)\<rparr>) else (Inr (), s))"
proof -
  have "run_state (ask (lib_GetPipeProperties lib i p)) s = (props p, s)"
    using assms by (simp add: described_def run_ask)
  moreover have "map_option (scan_pipe props p) (dev s) = dev s"
    if "fst (props p) \<noteq> kIOReturnSuccess \<or> snd (snd (props p)) \<noteq> kUSBBulk"
    using that by (cases "dev s") (auto simp: scan_pipe_def split: prod.split)
  moreover have "scan_pipe props p = record_pipe dir p" if "props p = (kIOReturnSuccess, dir, kUSBBulk)" for dir
    using that by (simp add: scan_pipe_def fun_eq_iff)
  ultimately show ?thesis
    by (cases "props p") (auto simp: pipe_step_def set_dev_def)
qed

lemma pipe_loop_described:
  fixes n :: u8 and s :: "('e, 'm) probe"
  assumes "described lib i n props" and "unat n < 255"
  shows "unat p \<le> Suc (unat n) \<Longrightarrow> repeat_until (pipe_step lib i n) p s =
     Some ((), s\<lparr>dev := map_option (fold (scan_pipe props) (pipes (unat p) (unat n))) (dev s)\<rparr>)"
proof (induction "Suc (unat n) - unat p" arbitrary: p s)
  case 0
  then have "\<not> p \<le> n" by (simp add: word_le_nat_alt)
  then show ?case
    using 0 by (subst repeat_until.simps) (simp add: pipe_step_described [OF assms(1)] pipes_simps option.map_id0)
next
  case (Suc k)
  then have p: "p \<le> n" "unat p \<le> unat n" by (simp_all add: word_le_nat_alt)
  then have next_p: "unat (p + 1) = Suc (unat p)" using assms(2) by (simp add: unat_add_small)
  then have "repeat_until (pipe_step lib i n) (p + 1) t =
      Some ((), t\<lparr>dev := map_option (fold (scan_pipe props) (pipes (unat (p + 1)) (unat n))) (dev t)\<rparr>)" for t :: "('e, 'm) probe"
    using Suc(1) [of "p + 1" t] Suc(2) p(2) by simp
  then show ?case
    using p next_p by (subst repeat_until.simps)
      (simp add: pipe_step_described [OF assms(1)] pipes_simps(2) option.map_comp comp_def)
qed

lemma fold_scan_pipe:
  assumes "0 \<notin> set ps"
  shows "fold (scan_pipe props) ps d = d\<lparr>
    pipe_in := (if pipe_in d \<noteq> 0 then pipe_in d else first_bulk props kUSBIn ps),
    pipe_out := (if pipe_out d \<noteq> 0 then pipe_out d else first_bulk props kUSBOut ps)\<rparr>"
  using assms
proof (induction ps arbitrary: d)
  case (Cons p ps)
  obtain kr dir ty where "props p = (kr, dir, ty)" by (cases "props p")
  then show ?case
    using Cons by (auto simp: first_bulk_def scan_pipe_def record_pipe_def kUSBIn_def kUSBOut_def)
qed (simp add: first_bulk_def)

lemma zero_not_pipe: "n \<le> 255 \<Longrightarrow> 0 \<notin> set (pipes (Suc 0) n)"
  by (auto simp: pipes_def word_unat_eq_iff unat_of_nat_small)

text \<open>
  C29: Pipe discovery finds the right pipes: on an interface with fewer than 255 pipes it records the
  lowest bulk pipe in each direction, whatever order the pipes come in and whichever cannot be
  described, changes nothing else, and succeeds exactly when both directions are there.
\<close>

theorem find_bulk_pipes_exact:
  assumes "described lib i n props" and "n \<noteq> 255" and "dev s = Some d"
  defines "bulk_in \<equiv> first_bulk props kUSBIn (pipes 1 (unat n))"
    and "bulk_out \<equiv> first_bulk props kUSBOut (pipes 1 (unat n))"
  shows "run_state (find_bulk_pipes lib i) s =
    (if bulk_in = 0 \<or> bulk_out = 0 then kIOReturnNotFound else kIOReturnSuccess,
     s\<lparr>dev := Some (d\<lparr>pipe_in := bulk_in, pipe_out := bulk_out\<rparr>)\<rparr>)"
proof -
  have n: "unat n < 255"
    using assms(2) unsigned_less [of n, where 'a = nat] by (simp add: word_unat_eq_iff)
  have "run_state (ask (lib_GetNumEndpoints lib i)) s = ((kIOReturnSuccess, n), s)"
    using assms(1) by (simp add: described_def run_ask)
  then show ?thesis
    using pipe_loop_described [OF assms(1) n, of 1 "s\<lparr>dev := Some (d\<lparr>pipe_in := 0, pipe_out := 0\<rparr>)\<rparr>"] n assms(3)
    by (simp add: find_bulk_pipes_def loop_forever_def set_dev_def fold_scan_pipe zero_not_pipe
      bulk_in_def bulk_out_def)
qed

lemma claim_255_forever:
  fixes s :: "('e, 'm) probe"
  shows "repeat_until (pipe_step lib i 255) p s = None"
proof (rule repeat_until_never [where I = "\<lambda>_ _. True"])
  fix p :: u8 and s :: "('e, 'm) probe"
  have "p \<le> 255" using unsigned_less [of p, where 'a = nat] by (simp add: word_le_nat_alt)
  then show "wp (pipe_step lib i 255 p) (\<lambda>r t. \<exists>a'. r = Inl a' \<and> True) s"
    by (simp add: pipe_step_def wp_bind) (rule wp_ask, auto simp: wp_simps set_dev_def)
qed simp

text \<open>
  C32: The pipe counter is a byte and the loop's bound is inclusive: on an interface that reports 255
  endpoints the counter wraps from 255 to 0 and the loop never ends, whatever the pipes are.
\<close>

theorem find_bulk_pipes_wraps:
  assumes "eval_state (lib_GetNumEndpoints lib i) (outside s) = (kIOReturnSuccess, 255)"
  shows "Hung \<in> set (trace (exec_state (find_bulk_pipes lib i) s))"
  using assms
  by (simp add: find_bulk_pipes_def run_ask loop_forever_def set_dev_def claim_255_forever split_def)

section \<open>A device with two bulk pipes\<close>

text \<open>
  A library for the witnesses: one device, service 10, whose interface, service 20, has an interrupt
  pipe, a bulk IN and a bulk OUT pipe. The state counts down the services an iterator yields.
\<close>

definition two_pipes :: "u8 \<Rightarrow> kern_return \<times> u8 \<times> u8" where
  "two_pipes p = (if p = 1 then (0, kUSBIn, 3) else if p = 2 then (0, kUSBIn, kUSBBulk)
     else if p = 3 then (0, kUSBOut, kUSBBulk) else (kIOReturnBadArgument, 0, 0))"

definition bench_lib :: "u8 \<Rightarrow> nat iolib" where
  "bench_lib n = \<lparr>lib_IOServiceMatching = return True,
     lib_GetMatchingServices = \<lambda>vid pid. State (\<lambda>_. ((0, 1), 1)),
     lib_IteratorNext = \<lambda>it. State (\<lambda>k. if k = 0 then (None, 0) else (Some (10 * it), k - 1)),
     lib_ObjectRelease = \<lambda>_. return (),
     lib_CreatePlugIn = \<lambda>_ svc. return (0, Some (svc + 1)),
     lib_QueryInterface = \<lambda>p. return (Some (p + 1)),
     lib_DestroyPlugIn = \<lambda>_. return (),
     lib_Open = \<lambda>_. return 0, lib_Close = \<lambda>_. return (), lib_Release = \<lambda>_. return (),
     lib_GetConfiguration = \<lambda>_. return (0, 0), lib_SetConfiguration = \<lambda>_ _. return 0,
     lib_calloc = return True, lib_free = return (),
     lib_DeviceRequest = \<lambda>_ _ _ _ _ len buf. return (0, replicate (unat len) 0, ucast len),
     lib_CreateInterfaceIterator = \<lambda>_. State (\<lambda>_. ((0, 2), 1)),
     lib_GetNumEndpoints = \<lambda>_. return (0, n),
     lib_GetPipeProperties = \<lambda>_ p. return (two_pipes p),
     lib_WritePipeTO = \<lambda>_ _ _. return 0,
     lib_ReadPipeTO = \<lambda>_ _ len. return (kIOReturnTimeout, [], 0)\<rparr>"

definition bench_probe :: "(nat, 'm) probe" where
  "bench_probe = \<lparr>outside = 0, trace = [], dev = Some \<lparr>intf = Some 12, iface = Some 22, pipe_in = 0, pipe_out = 0\<rparr>\<rparr>"

lemma bench_described: "described (bench_lib n) i n two_pipes"
  by (simp add: described_def bench_lib_def kIOReturnSuccess_def)

lemma find_bulk_pipes_exact_witness:
  "run_state (find_bulk_pipes (bench_lib 3) 22) bench_probe = (kIOReturnSuccess,
     bench_probe\<lparr>dev := Some \<lparr>intf = Some 12, iface = Some 22, pipe_in = 2, pipe_out = 3\<rparr>\<rparr>)"
proof -
  have "pipes 1 3 = [1, 2, 3]" by (simp add: pipes_def upt_rec)
  then show ?thesis
    using find_bulk_pipes_exact [OF bench_described, of 3 bench_probe _ 22]
    by (simp add: bench_probe_def first_bulk_def two_pipes_def kUSBIn_def kUSBOut_def kUSBBulk_def ioreturn_defs)
qed

lemma find_bulk_pipes_wraps_witness:
  "Hung \<in> set (trace (exec_state (find_bulk_pipes (bench_lib 255) 22) bench_probe))"
  by (rule find_bulk_pipes_wraps) (simp add: bench_lib_def kIOReturnSuccess_def)

end
