(* ===== verification/Probe_Args.thy ===== *)
theory Probe_Args
  imports Proto
begin

text \<open>
  What the probe reads from its command line: the arguments, in any order, and a station address
  (\<open>tools/smsc95xx-probe/main.c\<close>).
\<close>

section \<open>Scanning an address\<close>

text \<open>
  The conversion \<open>%x\<close> of \<open>sscanf\<close>: white space, an optional sign and \<open>0x\<close>, and the longest run of
  hexadecimal digits. The value goes through an unsigned 64-bit integer, which saturates, and is cut
  to the 32 bits of an \<open>unsigned\<close>. The result is the value and the text left.
\<close>

definition isspace :: "char \<Rightarrow> bool" where
  "isspace c \<longleftrightarrow> c \<in> {CHR '' '', CHR 0x09, CHR 0x0A, CHR 0x0B, CHR 0x0C, CHR 0x0D}"

definition isxdigit :: "char \<Rightarrow> bool" where
  "isxdigit c \<longleftrightarrow> hex_digit c \<noteq> None"

definition digits_value :: "string \<Rightarrow> nat" where
  "digits_value ds = fold (\<lambda>c n. 16 * n + unat (the (hex_digit c))) ds 0"

definition strtoumax_value :: "bool \<Rightarrow> string \<Rightarrow> u64" where
  "strtoumax_value neg ds =
     (let n = digits_value ds; v = (if n < 2 ^ 64 then of_nat n else - 1)
      in if neg \<and> n < 2 ^ 64 then - v else v)"

fun skip_sign :: "string \<Rightarrow> bool \<times> string" where
  "skip_sign (c # s) = (if c = CHR ''-'' then (True, s) else if c = CHR ''+'' then (False, s) else (False, c # s))"
| "skip_sign [] = (False, [])"

fun skip_0x :: "string \<Rightarrow> string" where
  "skip_0x (a # b # c # s) =
     (if a = CHR ''0'' \<and> (b = CHR ''x'' \<or> b = CHR ''X'') \<and> isxdigit c then c # s else a # b # c # s)"
| "skip_0x s = s"

definition scan_hex :: "string \<Rightarrow> (u32 \<times> string) option" where
  "scan_hex s =
     (let (neg, s) = skip_sign (dropWhile isspace s);
          s = skip_0x s;
          ds = takeWhile isxdigit s
      in if ds = [] then None else Some (ucast (strtoumax_value neg ds), dropWhile isxdigit s))"

text \<open>\<open>sscanf(s, "%x:%x:...")\<close> with \<open>n\<close> conversions left: the values it stores.\<close>

fun scan_fields :: "nat \<Rightarrow> string \<Rightarrow> u32 list" where
  "scan_fields 0 s = []"
| "scan_fields (Suc n) s =
     (case scan_hex s of
        None \<Rightarrow> []
      | Some (v, rest) \<Rightarrow> v # (case rest of
            [] \<Rightarrow> []
          | c # rest \<Rightarrow> if c = CHR '':'' then scan_fields n rest else []))"

text \<open>The loop that stores the bytes, from index \<open>i\<close>; it stops at the first value above 0xFF.\<close>

fun store_mac :: "u32 list \<Rightarrow> nat \<Rightarrow> u8 list \<Rightarrow> bool \<times> u8 list" where
  "store_mac [] i mac = (True, mac)"
| "store_mac (v # vs) i mac = (if 0xFF < v then (False, mac) else store_mac vs (i + 1) (mac[i := ucast v]))"

definition parse_mac :: "string \<Rightarrow> u8 list \<Rightarrow> bool \<times> u8 list" where
  "parse_mac s mac =
     (let v = scan_fields 6 s in if length v \<noteq> 6 then (False, mac) else store_mac v 0 mac)"

section \<open>The command line\<close>

record options =
  override_mac :: "string option"
  device_selector :: "string option"
  subcommand :: "string option"

definition no_options :: options where
  "no_options = \<lparr>override_mac = None, device_selector = None, subcommand = None\<rparr>"

text \<open>The loop over the arguments left; \<open>None\<close> is a usage error.\<close>

fun scan_args :: "string list \<Rightarrow> options \<Rightarrow> options option" where
  "scan_args [] opts = Some opts"
| "scan_args (a # as) opts =
     (if a = ''--device'' then
        (case as of
           [] \<Rightarrow> None
         | v # rest \<Rightarrow>
             if device_selector opts \<noteq> None then None
             else scan_args rest (opts\<lparr>device_selector := Some v\<rparr>))
      else if a = ''--mac'' then
        (case as of
           [] \<Rightarrow> None
         | v # rest \<Rightarrow>
             if override_mac opts \<noteq> None then None
             else scan_args rest (opts\<lparr>override_mac := Some v\<rparr>))
      else if a \<noteq> [] \<and> hd a = CHR ''-'' then None
      else if subcommand opts \<noteq> None then None
      else scan_args as (opts\<lparr>subcommand := Some a\<rparr>))"

definition subcommands :: "string list" where
  "subcommands = [''id'', ''phy'', ''eeprom'', ''init'', ''tx'', ''rx'', ''all'']"

text \<open>The checks of \<open>main\<close> before it opens anything.\<close>

definition command_line :: "string list \<Rightarrow> options option" where
  "command_line args =
     (if args = [] then None
      else case scan_args args no_options of
        None \<Rightarrow> None
      | Some opts \<Rightarrow>
          (case subcommand opts of
             None \<Rightarrow> None
           | Some c \<Rightarrow> if c \<in> set subcommands then Some opts else None))"

section \<open>The grammar of the command line\<close>

text \<open>The items a command line is made of, and the words each stands for.\<close>

datatype item = DeviceItem string | MacItem string | CommandItem string

fun item_words :: "item \<Rightarrow> string list" where
  "item_words (DeviceItem v) = [''--device'', v]"
| "item_words (MacItem v) = [''--mac'', v]"
| "item_words (CommandItem c) = [c]"

text \<open>A command is a word that does not start with a dash; the empty word is one.\<close>

fun proper :: "item \<Rightarrow> bool" where
  "proper (CommandItem c) \<longleftrightarrow> (c = [] \<or> hd c \<noteq> CHR ''-'')"
| "proper _ \<longleftrightarrow> True"

definition words :: "item list \<Rightarrow> string list" where
  "words is = concat (map item_words is)"

definition devices_of :: "item list \<Rightarrow> string list" where
  "devices_of is = concat (map (\<lambda>i. case i of DeviceItem v \<Rightarrow> [v] | _ \<Rightarrow> []) is)"

definition macs_of :: "item list \<Rightarrow> string list" where
  "macs_of is = concat (map (\<lambda>i. case i of MacItem v \<Rightarrow> [v] | _ \<Rightarrow> []) is)"

definition commands_of :: "item list \<Rightarrow> string list" where
  "commands_of is = concat (map (\<lambda>i. case i of CommandItem v \<Rightarrow> [v] | _ \<Rightarrow> []) is)"

lemmas item_defs = words_def devices_of_def macs_of_def commands_of_def

text \<open>Taking at most one more value into a slot.\<close>

fun take_one :: "string option \<Rightarrow> string list \<Rightarrow> string option option" where
  "take_one old [] = Some old"
| "take_one None [v] = Some (Some v)"
| "take_one _ _ = None"

definition take_items :: "item list \<Rightarrow> options \<Rightarrow> options option" where
  "take_items is opts =
     (case (take_one (override_mac opts) (macs_of is), take_one (device_selector opts) (devices_of is),
            take_one (subcommand opts) (commands_of is)) of
        (Some m, Some d, Some c) \<Rightarrow> Some \<lparr>override_mac = m, device_selector = d, subcommand = c\<rparr>
      | _ \<Rightarrow> None)"

lemma take_one_Some [simp]: "take_one (Some w) (v # vs) = None"
  by (cases vs) simp_all

lemma take_one_Cons: "take_one None (v # vs) = take_one (Some v) vs"
  by (cases vs) simp_all

lemma take_items_Nil [simp]: "take_items [] opts = Some opts"
  by (simp add: take_items_def item_defs)

lemma take_items_Cons:
  "take_items (DeviceItem v # is) opts = (if device_selector opts \<noteq> None then None
     else take_items is (opts\<lparr>device_selector := Some v\<rparr>))"
  "take_items (MacItem v # is) opts = (if override_mac opts \<noteq> None then None
     else take_items is (opts\<lparr>override_mac := Some v\<rparr>))"
  "take_items (CommandItem v # is) opts = (if subcommand opts \<noteq> None then None
     else take_items is (opts\<lparr>subcommand := Some v\<rparr>))"
  by (cases "device_selector opts"; cases "override_mac opts"; cases "subcommand opts";
    simp add: take_items_def item_defs take_one_Cons split: option.split)+

lemma scan_args_words:
  "list_all proper is \<Longrightarrow> scan_args (words is) opts = take_items is opts"
proof (induction "is" arbitrary: opts)
  case (Cons i "is")
  then show ?case
    by (cases i) (auto simp: take_items_Cons words_def)
qed (simp add: words_def)

lemma scan_args_items:
  "scan_args args opts = Some opts' \<Longrightarrow> \<exists>is. args = words is \<and> list_all proper is"
proof (induction args opts rule: scan_args.induct)
  case (1 opts)
  show ?case by (intro exI [of _ "[]"]) (simp add: words_def)
next
  case (2 a as opts)
  show ?case
  proof (cases "a = ''--device'' \<or> a = ''--mac''")
    case True
    then obtain v rest "is" where "as = v # rest" "rest = words is" "list_all proper is"
      using 2 by (auto split: list.splits if_splits)
    then show ?thesis
      using True by (auto intro!: exI [of _ "(if a = ''--device'' then DeviceItem v else MacItem v) # is"] simp: words_def)
  next
    case False
    then obtain "is" where "as = words is" "list_all proper is" "proper (CommandItem a)"
      using 2 by (auto split: if_splits)
    then show ?thesis
      by (intro exI [of _ "CommandItem a # is"]) (simp add: words_def)
  qed
qed

text \<open>
  C33: The command line is exactly its grammar: the arguments are accepted if and only if they are some
  sequence of items, in any order, with at most one \<open>--device\<close>, at most one \<open>--mac\<close> and exactly one
  command, a known one; and the options are then those items' values. A repeated option, an option
  without its value, an unknown option, a second command and an empty line are all refused.
\<close>

theorem command_line_grammar:
  "command_line args = Some opts \<longleftrightarrow>
     (\<exists>items. args = words items \<and> list_all proper items
        \<and> length (devices_of items) \<le> 1 \<and> length (macs_of items) \<le> 1
        \<and> length (commands_of items) = 1 \<and> hd (commands_of items) \<in> set subcommands
        \<and> opts = \<lparr>override_mac = find (\<lambda>_. True) (macs_of items),
             device_selector = find (\<lambda>_. True) (devices_of items), subcommand = Some (hd (commands_of items))\<rparr>)"
proof -
  have one: "take_one None vs = (if length vs \<le> 1 then Some (find (\<lambda>_. True) vs) else None)" for vs
    by (cases "(None :: string option, vs)" rule: take_one.cases) auto
  have take: "take_items is no_options = Some opts \<longleftrightarrow> length (devices_of is) \<le> 1 \<and> length (macs_of is) \<le> 1
      \<and> length (commands_of is) \<le> 1 \<and> opts = \<lparr>override_mac = find (\<lambda>_. True) (macs_of is),
             device_selector = find (\<lambda>_. True) (devices_of is), subcommand = find (\<lambda>_. True) (commands_of is)\<rparr>" for "is"
    by (auto simp: take_items_def no_options_def one)
  have scan: "scan_args args no_options = Some opts \<longleftrightarrow>
      (\<exists>is. args = words is \<and> list_all proper is \<and> take_items is no_options = Some opts)"
    using scan_args_items scan_args_words by metis
  have command: "length cs \<le> 1 \<and> find (\<lambda>_. True) cs = Some c \<longleftrightarrow> cs = [c]" for cs :: "string list" and c
    by (cases cs) auto
  have "command_line args = Some opts \<longleftrightarrow> scan_args args no_options = Some opts
      \<and> (\<exists>c. subcommand opts = Some c \<and> c \<in> set subcommands)"
    by (auto simp: command_line_def no_options_def split: option.splits if_splits)
  also have "\<dots> \<longleftrightarrow> (\<exists>is c. args = words is \<and> list_all proper is \<and> length (devices_of is) \<le> 1 \<and> length (macs_of is) \<le> 1
      \<and> commands_of is = [c] \<and> c \<in> set subcommands \<and> opts = \<lparr>override_mac = find (\<lambda>_. True) (macs_of is),
             device_selector = find (\<lambda>_. True) (devices_of is), subcommand = Some c\<rparr>)"
    unfolding scan take by (auto simp: command [symmetric])
  finally show ?thesis
    by (fastforce simp: length_Suc_conv)
qed

section \<open>Addresses round-trip\<close>

text \<open>An address as the tool prints it, \<open>%02x:%02x:...\<close>.\<close>

definition hexdig :: "nat \<Rightarrow> char" where
  "hexdig n = ''0123456789abcdef'' ! n"

definition hex_byte :: "u8 \<Rightarrow> string" where
  "hex_byte b = [hexdig (unat b div 16), hexdig (unat b mod 16)]"

fun mac_text :: "u8 list \<Rightarrow> string" where
  "mac_text [] = []"
| "mac_text [b] = hex_byte b"
| "mac_text (b # c # bs) = hex_byte b @ CHR '':'' # mac_text (c # bs)"

lemma hexdig_facts:
  assumes "n < 16"
  shows "hex_digit (hexdig n) = Some (of_nat n)" "isxdigit (hexdig n)" "\<not> isspace (hexdig n)"
    "hexdig n \<noteq> CHR ''-''" "hexdig n \<noteq> CHR ''+''" "hexdig n \<noteq> CHR ''x''" "hexdig n \<noteq> CHR ''X''"
proof -
  have "\<forall>n \<in> set [0..<16]. hex_digit (hexdig n) = Some (of_nat n) \<and> isxdigit (hexdig n) \<and> \<not> isspace (hexdig n)
      \<and> hexdig n \<noteq> CHR ''-'' \<and> hexdig n \<noteq> CHR ''+'' \<and> hexdig n \<noteq> CHR ''x'' \<and> hexdig n \<noteq> CHR ''X''"
    by code_simp
  then show "hex_digit (hexdig n) = Some (of_nat n)" "isxdigit (hexdig n)" "\<not> isspace (hexdig n)"
    "hexdig n \<noteq> CHR ''-''" "hexdig n \<noteq> CHR ''+''" "hexdig n \<noteq> CHR ''x''" "hexdig n \<noteq> CHR ''X''"
    using assms by auto
qed

definition not_hex :: "string \<Rightarrow> bool" where
  "not_hex s \<longleftrightarrow> (case s of [] \<Rightarrow> True | c # _ \<Rightarrow> \<not> isxdigit c)"

lemma scan_hex_byte:
  assumes "not_hex rest"
  shows "scan_hex (hex_byte b @ rest) = Some (ucast b, rest)"
proof -
  have b: "unat b div 16 < 16" "unat b mod 16 < 16" using unsigned_less [of b, where 'a = nat] by auto
  note d = hexdig_facts [OF b(1)] hexdig_facts [OF b(2)]
  have run: "takeWhile isxdigit (hex_byte b @ rest) = hex_byte b" "dropWhile isxdigit (hex_byte b @ rest) = rest"
    using assms d by (auto simp: hex_byte_def not_hex_def split: list.splits)
  have zero: "skip_0x (hex_byte b @ rest) = hex_byte b @ rest"
    using d by (cases rest) (simp_all add: hex_byte_def)
  have reads: "digits_value (hex_byte b) = unat b"
    using d b by (simp add: digits_value_def hex_byte_def unat_of_nat_small)
  have through: "(ucast (ucast b :: u64) :: u32) = ucast b"
    by (rule bit_word_eqI) (auto simp: bit_simps dest: bit_imp_le_length)
  have "unat b < 2 ^ 64" using unsigned_less [of b, where 'a = nat] by simp
  then have number: "ucast (strtoumax_value False (hex_byte b)) = (ucast b :: u32)"
    by (simp add: strtoumax_value_def reads through)
  have "skip_sign (dropWhile isspace (hex_byte b @ rest)) = (False, hex_byte b @ rest)"
    using d by (simp add: hex_byte_def)
  then show ?thesis
    using run zero number by (simp add: scan_hex_def hex_byte_def)
qed

lemma scan_fields_text:
  "bs \<noteq> [] \<Longrightarrow> not_hex rest \<Longrightarrow> scan_fields (length bs) (mac_text bs @ rest) = map ucast bs"
proof (induction bs rule: mac_text.induct)
  case (2 b)
  then show ?case by (auto simp: scan_hex_byte split: list.split)
next
  case (3 b c bs)
  have "not_hex (CHR '':'' # mac_text (c # bs) @ rest)" by (simp add: not_hex_def) code_simp
  then show ?case using 3 by (simp add: scan_hex_byte)
qed simp

lemma store_mac_bytes:
  "i + length bs \<le> length buf \<Longrightarrow> store_mac (map ucast bs) i buf = (True, overlay buf i bs)"
proof (induction bs arbitrary: i buf)
  case Nil
  then show ?case by (simp add: overlay_def)
next
  case (Cons b bs)
  have "unat (ucast b :: u32) < 256"
    using unsigned_less [of b, where 'a = nat] by (simp add: unat_ucast_up)
  then have "\<not> 0xFF < (ucast b :: u32)" by (simp add: word_less_nat_alt)
  moreover have "(ucast (ucast b :: u32) :: u8) = b" by (rule bit_word_eqI) (simp add: bit_simps)
  ultimately show ?case
    using Cons.prems Cons.IH [of "i + 1" "buf[i := b]"]
    by (simp add: overlay_def take_Suc_conv_app_nth)
qed

text \<open>
  C35: \<open>--mac\<close> reads back every address the tool prints, and whatever follows the sixth byte is not
  looked at as long as it does not go on as a hexadecimal number.
\<close>

theorem parse_mac_text:
  assumes "length mac = 6" and "length buf = 6" and "not_hex rest"
  shows "parse_mac (mac_text mac @ rest) buf = (True, mac)"
proof -
  have "scan_fields 6 (mac_text mac @ rest) = map ucast mac"
    using scan_fields_text [of mac rest] assms by fastforce
  then show ?thesis
    using store_mac_bytes [of 0 mac buf] assms by (simp add: parse_mac_def overlay_def)
qed

lemma parse_mac_text_witness:
  "parse_mac ''02:00:5e:10:00:ff and more'' [0, 0, 0, 0, 0, 0] = (True, [2, 0, 0x5E, 0x10, 0, 0xFF])"
proof -
  have "mac_text [2, 0, 0x5E, 0x10, 0, 0xFF] = ''02:00:5e:10:00:ff''" by code_simp
  moreover have "not_hex '' and more''" by code_simp
  ultimately show ?thesis
    using parse_mac_text [of "[2, 0, 0x5E, 0x10, 0, 0xFF]" "[0, 0, 0, 0, 0, 0]" "'' and more''"] by simp
qed

end
