(* ===== verification/Usb_Reenumerate.thy ===== *)
theory Usb_Reenumerate
  imports Usb_Books Usb_Pipes Probe_Args
begin

text \<open>
  The helper that forces a device to re-enumerate (\<open>tools/usb-reenumerate/usb_reenumerate.c\<close>). It shares
  no code with the probe, but the same libraries: the record of a run and the resource books are the
  probe's, and \<open>relib\<close> adds the four calls only this tool makes. The run keeps no device structure, so
  \<open>dev\<close> stays a null pointer throughout.
\<close>

section \<open>State\<close>

text \<open>
  \<open>lib_FindServices\<close> is \<open>IOServiceGetMatchingServices\<close> with 32-bit identifiers, and \<open>lib_QueryResult\<close> is
  \<open>QueryInterface\<close> with the \<open>HRESULT\<close> this tool looks at; a failed query hands out no reference.
\<close>

record 'e relib = "'e iolib" +
  lib_FindServices :: "32 word \<Rightarrow> 32 word \<Rightarrow> ('e, kern_return \<times> obj) state"
  lib_QueryResult :: "obj \<Rightarrow> ('e, u32 \<times> obj option) state"
  lib_PlugInRelease :: "obj \<Rightarrow> ('e, unit) state"
  lib_ReEnumerate :: "obj \<Rightarrow> ('e, kern_return) state"

datatype notice =
    ReUsage
  | MatchingFailed
  | ServicesFailed
  | NoSuchDevice int int
  | PlugInFailed
  | QueryFailed
  | OpenFailed kern_return bool
  | ReEnumerated obj kern_return

type_synonym 'e retool = "('e, notice) probe"

text \<open>\<open>fprintf(stderr, ...)\<close>, then \<open>return 1\<close>.\<close>

definition re_fail :: "notice \<Rightarrow> ('e retool, u32) state" where
  "re_fail m = do { call_out (return ()) (\<lambda>_. [Say m]); return 1 }"

section \<open>The program\<close>

text \<open>\<open>strtol(s, NULL, 16)\<close>: white space, a sign, \<open>0x\<close>, digits; out of range it saturates.\<close>

definition strtol16 :: "string \<Rightarrow> int" where
  "strtol16 s =
     (let (neg, s) = skip_sign (dropWhile isspace s);
          n = int (digits_value (takeWhile isxdigit (skip_0x s)))
      in if neg then max (- (2 ^ 63)) (- n) else min (2 ^ 63 - 1) n)"

text \<open>The first matching service: \<open>Inl\<close> is the exit code of a failure already reported.\<close>

definition re_find :: "'e relib \<Rightarrow> int \<Rightarrow> int \<Rightarrow> ('e retool, u32 + obj) state" where
  "re_find lib vid pid = do {
     m \<leftarrow> ask (lib_IOServiceMatching lib);
     if \<not> m then do { rc \<leftarrow> re_fail MatchingFailed; return (Inl rc) }
     else do {
       (kr, it) \<leftarrow> acquire_by (lib_FindServices lib (word_of_int vid) (word_of_int pid))
         (\<lambda>(kr, it). if_success (Iterator it) kr);
       if kr \<noteq> kIOReturnSuccess then do { rc \<leftarrow> re_fail ServicesFailed; return (Inl rc) }
       else do {
         svc \<leftarrow> acquire_by (lib_IteratorNext lib it) (map_option Service);
         give_back (lib_ObjectRelease lib it) (Iterator it);
         (case svc of
            None \<Rightarrow> do { rc \<leftarrow> re_fail (NoSuchDevice vid pid); return (Inl rc) }
          | Some svc \<Rightarrow> return (Inr svc))
       }
     }
   }"

text \<open>Its device interface. The service is let go on either path, the plug-in by \<open>Destroy\<close> or \<open>Release\<close>.\<close>

definition re_interface :: "'e relib \<Rightarrow> obj \<Rightarrow> ('e retool, u32 + obj) state" where
  "re_interface lib svc = do {
     (kr, plug) \<leftarrow> acquire_by (lib_CreatePlugIn lib DevicePlugIn svc)
       (\<lambda>(kr, plug). if kr = kIOReturnSuccess then map_option Plugin plug else None);
     (case (if kr = kIOReturnSuccess then plug else None) of
        None \<Rightarrow> do {
          rc \<leftarrow> re_fail PlugInFailed;
          give_back (lib_ObjectRelease lib svc) (Service svc);
          return (Inl rc)
        }
      | Some p \<Rightarrow> do {
          give_back (lib_ObjectRelease lib svc) (Service svc);
          (res, d) \<leftarrow> acquire_by (lib_QueryResult lib p)
            (\<lambda>(res, d). if res = 0 then map_option DeviceRef d else None);
          (case (if res = 0 then d else None) of
             None \<Rightarrow> do {
               rc \<leftarrow> re_fail QueryFailed;
               give_back (lib_DestroyPlugIn lib p) (Plugin p);
               return (Inl rc)
             }
           | Some d \<Rightarrow> do {
               give_back (lib_PlugInRelease lib p) (Plugin p);
               return (Inr d)
             })
        })
   }"

definition re_enumerate :: "'e relib \<Rightarrow> obj \<Rightarrow> ('e retool, u32) state" where
  "re_enumerate lib d = do {
     kr \<leftarrow> acquire_by (lib_Open lib d) (if_success (DeviceSession d));
     if kr \<noteq> kIOReturnSuccess then do {
       rc \<leftarrow> re_fail (OpenFailed kr (kr = kIOReturnExclusiveAccess));
       give_back (lib_Release lib d) (DeviceRef d);
       return rc
     } else do {
       kr \<leftarrow> call_out (lib_ReEnumerate lib d) (\<lambda>kr. [Say (ReEnumerated d kr)]);
       give_back (lib_Close lib d) (DeviceSession d);
       give_back (lib_Release lib d) (DeviceRef d);
       return (if kr = kIOReturnSuccess then 0 else 1)
     }
   }"

definition reenumerate_main :: "'e relib \<Rightarrow> string list \<Rightarrow> ('e retool, u32) state" where
  "reenumerate_main lib args =
     (case args of
        [a, b] \<Rightarrow> do {
          r \<leftarrow> re_find lib (strtol16 a) (strtol16 b);
          (case r of
             Inl rc \<Rightarrow> return rc
           | Inr svc \<Rightarrow> do {
               r \<leftarrow> re_interface lib svc;
               (case r of Inl rc \<Rightarrow> return rc | Inr d \<Rightarrow> re_enumerate lib d)
             })
        }
      | _ \<Rightarrow> do { re_fail ReUsage; return 2 })"

section \<open>What a run leaves behind\<close>

text \<open>The devices the run asked to re-enumerate, with the results.\<close>

fun asked :: "notice event \<Rightarrow> (obj \<times> kern_return) list" where
  "asked (Say (ReEnumerated d kr)) = [(d, kr)]"
| "asked _ = []"

definition asks :: "'e retool \<Rightarrow> (obj \<times> kern_return) list" where
  "asks s = concat (map asked (trace s))"

text \<open>The run owes \<open>R\<close> and has asked for \<open>xs\<close>.\<close>

definition owing :: "resource multiset \<Rightarrow> (obj \<times> kern_return) list \<Rightarrow> 'e retool \<Rightarrow> bool" where
  "owing R xs s \<longleftrightarrow> (\<forall>q. owed (ledger q) (trace s) = int (count R q)) \<and> asks s = xs"

lemma owing_outside [simp]: "owing R xs (s\<lparr>outside := e\<rparr>) = owing R xs s"
  by (simp add: owing_def asks_def)

lemma wp_owing_acquire:
  assumes "owing R xs s" and "\<And>a t. owing (R + opt_mset (r a)) xs t \<Longrightarrow> Q a t"
  shows "wp (acquire_by f r) Q s"
  unfolding acquire_by_def using assms(1)
  by (intro wp_call_out assms(2)) (auto simp: owing_def asks_def split: option.split)

lemma wp_owing_give:
  assumes "owing (add_mset q R) xs s" and "\<And>a t. owing R xs t \<Longrightarrow> Q a t"
  shows "wp (give_back f q) Q s"
  unfolding give_back_def using assms(1)
  by (intro wp_call_out) (rule assms(2), auto simp: owing_def asks_def)

lemma wp_owing_ask: "owing R xs s \<Longrightarrow> (\<And>a t. owing R xs t \<Longrightarrow> Q a t) \<Longrightarrow> wp (ask f) Q s"
  by (intro wp_ask) simp_all

lemma wp_owing_fail:
  assumes "owing R xs s" and "\<And>t. owing R xs t \<Longrightarrow> Q 1 t" and "asked (Say m) = []"
  shows "wp (re_fail m) Q s"
  unfolding re_fail_def wp_bind using assms(1,3)
  by (intro wp_call_out) (auto simp: wp_return owing_def asks_def intro!: assms(2))

lemma wp_re_find:
  assumes "owing {#} [] s"
    and "\<And>t. owing {#} [] t \<Longrightarrow> Q (Inl 1) t" and "\<And>t svc. owing {#Service svc#} [] t \<Longrightarrow> Q (Inr svc) t"
  shows "wp (re_find lib vid pid) Q s"
proof -
  have fail: "wp (do { rc \<leftarrow> re_fail m; return (Inl rc) }) Q t" if "owing {#} [] t" "asked (Say m) = []" for t m
    unfolding wp_bind by (rule wp_owing_fail [OF that(1)]) (simp_all add: that wp_return assms(2))
  have rest: "wp (case svc of None \<Rightarrow> do { rc \<leftarrow> re_fail (NoSuchDevice vid pid); return (Inl rc) } | Some svc \<Rightarrow> return (Inr svc)) Q t"
    if "owing (opt_mset (map_option Service svc)) [] t" for svc t
    using that by (cases svc) (simp_all add: fail wp_return assms(3))
  have list: "wp (do { svc \<leftarrow> acquire_by f (map_option Service); give_back g (Iterator it);
      case svc of None \<Rightarrow> do { rc \<leftarrow> re_fail (NoSuchDevice vid pid); return (Inl rc) } | Some svc \<Rightarrow> return (Inr svc) }) Q t"
    if "owing {#Iterator it#} [] t" for f g it t
    unfolding wp_bind [of "acquire_by _ _"] wp_bind [of "give_back _ _"]
    by (rule wp_owing_acquire [OF that], rule wp_owing_give) (simp, rule rest)
  show ?thesis
    unfolding re_find_def wp_bind [of "ask _"]
  proof (rule wp_owing_ask [OF assms(1)], simp only: wp_if split: if_split, intro conjI impI, goal_cases)
    case (1 m t)
    then show ?case by (intro fail) simp_all
  next
    case (2 m t)
    show ?case unfolding wp_bind [of "acquire_by _ _"]
      by (rule wp_owing_acquire [OF 2(1)], clarsimp simp: if_success_def wp_if) (auto intro: fail list)
  qed
qed

lemma wp_re_interface:
  assumes "owing {#Service svc#} [] s"
    and "\<And>t. owing {#} [] t \<Longrightarrow> Q (Inl 1) t" and "\<And>t d. owing {#DeviceRef d#} [] t \<Longrightarrow> Q (Inr d) t"
  shows "wp (re_interface lib svc) Q s"
proof -
  have fail: "wp (do { rc \<leftarrow> re_fail m; give_back f q; return (Inl rc) }) Q t"
    if "owing {#q#} [] t" "asked (Say m) = []" for t m f q
    unfolding wp_bind
    by (rule wp_owing_fail [OF that(1)], rule wp_owing_give, assumption) (simp_all add: that wp_return assms(2))
  have query: "wp (case (if res = (0 :: u32) then d else None) of
      None \<Rightarrow> do { rc \<leftarrow> re_fail QueryFailed; give_back (lib_DestroyPlugIn lib p) (Plugin p); return (Inl rc) }
    | Some d \<Rightarrow> do { give_back (lib_PlugInRelease lib p) (Plugin p); return (Inr d) }) Q t"
    if "owing ({#Plugin p#} + opt_mset (if res = 0 then map_option DeviceRef d else None)) [] t" for res d p t
  proof (cases "if res = 0 then d else None")
    case None
    then show ?thesis using that by (auto intro!: fail split: if_splits)
  next
    case (Some x)
    then show ?thesis using that
      by (auto simp: wp_bind wp_return split: if_splits intro!: wp_owing_give [of _ "{#DeviceRef x#}"] assms(3))
  qed
  show ?thesis
    unfolding re_interface_def wp_bind [of "acquire_by _ _"]
  proof (rule wp_owing_acquire [OF assms(1)], simp only: split_paired_all prod.case, goal_cases)
    case (1 kr plug t)
    show ?case
    proof (cases "if kr = kIOReturnSuccess then plug else None")
      case None
      then show ?thesis using 1 by (auto intro!: fail split: if_splits)
    next
      case (Some p)
      then have t: "owing {#Service svc, Plugin p#} [] t" using 1 by (simp add: add_mset_commute split: if_splits)
      show ?thesis
        unfolding Some option.case wp_bind [of "give_back _ _"] wp_bind [of "acquire_by _ _"]
        by (rule wp_owing_give [OF t], rule wp_owing_acquire, assumption) (simp only: split_paired_all prod.case query)
    qed
  qed
qed

lemma wp_re_enumerate:
  assumes "owing {#DeviceRef d#} [] s"
  shows "wp (re_enumerate lib d) (\<lambda>rc t. rc \<in> {0, 1} \<and>
    (owing {#} [] t \<and> rc = 1 \<or> (\<exists>kr. owing {#} [(d, kr)] t \<and> (rc = 0 \<longleftrightarrow> kr = kIOReturnSuccess)))) s"
    (is "wp _ ?Q s")
proof -
  have close: "wp (do { give_back f (DeviceSession d); give_back g (DeviceRef d); return (if kr = kIOReturnSuccess then 0 else 1) }) ?Q t"
    if "owing {#DeviceSession d, DeviceRef d#} [(d, kr)] t" for f g kr t
    unfolding wp_bind
    by (rule wp_owing_give [OF that], rule wp_owing_give, assumption) (auto simp: wp_return)
  show ?thesis
    unfolding re_enumerate_def wp_bind [of "acquire_by _ _"]
  proof (rule wp_owing_acquire [OF assms], simp only: wp_if if_success_def split: if_split, intro conjI impI, goal_cases)
    case (1 kr t)
    then have t: "owing {#DeviceRef d#} [] t" by simp
    show ?case unfolding wp_bind
      by (rule wp_owing_fail [OF t], rule wp_owing_give, assumption) (simp_all add: wp_return)
  next
    case (2 kr t)
    then have t: "owing {#DeviceSession d, DeviceRef d#} [] t" by (simp add: add_mset_commute)
    show ?case
      unfolding wp_bind [of "call_out _ _"]
      by (rule wp_call_out, rule close) (use t in \<open>simp add: owing_def asks_def\<close>)
  qed
qed

lemma wp_reenumerate_main:
  assumes "owing {#} [] s"
  shows "wp (reenumerate_main lib args) (\<lambda>rc t. \<exists>xs. owing {#} xs t \<and> length xs \<le> 1 \<and> rc \<in> {0, 1, 2} \<and>
    (rc = 2 \<longleftrightarrow> length args \<noteq> 2) \<and> (rc = 0 \<longleftrightarrow> map snd xs = [kIOReturnSuccess])) s"
    (is "wp _ ?Q s")
proof -
  have usage: "wp (do { rc \<leftarrow> re_fail ReUsage; return 2 }) ?Q s" if "length args \<noteq> 2"
    unfolding wp_bind
    by (rule wp_owing_fail [OF assms]) (use that in \<open>auto simp: wp_return intro: exI [of _ "[]"]\<close>)
  have run: "wp (do { r \<leftarrow> re_find lib v p;
      (case r of Inl rc \<Rightarrow> return rc
       | Inr svc \<Rightarrow> do { r \<leftarrow> re_interface lib svc;
           (case r of Inl rc \<Rightarrow> return rc | Inr d \<Rightarrow> re_enumerate lib d) }) }) ?Q s"
    if two: "length args = 2" for v p
  proof -
    have fail: "?Q 1 t" if "owing {#} [] t" for t
      using that two by (intro exI [of _ "[]"]) simp
    have last: "wp (re_enumerate lib d) ?Q t" if "owing {#DeviceRef d#} [] t" for d t
      by (rule wp_mono [OF wp_re_enumerate [OF that]]) (use two in auto)
    show ?thesis
      unfolding wp_bind [of "re_find _ _ _"]
      by (rule wp_re_find [OF assms]; simp only: sum.case wp_return fail wp_bind)
        (rule wp_re_interface, assumption; simp only: sum.case wp_return fail last)
  qed
  show ?thesis
    using usage run by (simp add: reenumerate_main_def split: list.split)
qed

text \<open>
  C34: The helper never claims what it did not do: it exits with 0 exactly when it asked one device, and
  one only, to re-enumerate and that was accepted, with 2 exactly when it was not given two arguments and
  otherwise with 1; and on every one of its paths, errors included, it has by then given back every service, iterator, plug-in,
  interface reference and open session exactly once.
\<close>

theorem reenumerate_outcome:
  assumes "trace s = []" and "run_state (reenumerate_main lib args) s = (rc, t)"
  shows "(\<forall>q. owed (ledger q) (trace t) = 0)
    \<and> rc \<in> {0, 1, 2} \<and> (rc = 2 \<longleftrightarrow> length args \<noteq> 2)
    \<and> (rc = 0 \<longleftrightarrow> (\<exists>d. asks t = [(d, kIOReturnSuccess)])) \<and> length (asks t) \<le> 1"
proof -
  have "owing {#} [] s" using assms(1) by (simp add: owing_def asks_def)
  from wp_runD [OF wp_reenumerate_main [OF this] assms(2)]
  show ?thesis by (auto simp: owing_def length_Suc_conv le_Suc_eq)
qed

section \<open>A run\<close>

definition bench_relib :: "kern_return \<Rightarrow> nat relib" where
  "bench_relib kr = iolib.extend (bench_lib 0)
     \<lparr>lib_FindServices = \<lambda>_ _. State (\<lambda>n. ((kIOReturnSuccess, 1), 1)), lib_QueryResult = \<lambda>p. return (0, Some (p + 1)),
      lib_PlugInRelease = \<lambda>_. return (), lib_ReEnumerate = \<lambda>_. return kr\<rparr>"

definition bench_retool :: "nat retool" where
  "bench_retool = \<lparr>outside = 0, trace = [], dev = None\<rparr>"

lemma bench_reenumerates:
  "run_state (reenumerate_main (bench_relib kr) [''0424'', ''9905'']) bench_retool =
     (if kr = kIOReturnSuccess then 0 else 1,
      \<lparr>outside = 0, trace = [Acquired (Iterator 1), Acquired (Service 10), Released (Iterator 1),
         Acquired (Plugin 11), Released (Service 10), Acquired (DeviceRef 12), Released (Plugin 11),
         Acquired (DeviceSession 12), Say (ReEnumerated 12 kr), Released (DeviceSession 12), Released (DeviceRef 12)],
       dev = None\<rparr>)"
  by (simp add: reenumerate_main_def re_find_def re_interface_def re_enumerate_def bench_relib_def bench_retool_def
    iolib.extend_def bench_lib_def run_ask run_call_out acquire_by_def give_back_def if_success_def kIOReturnSuccess_def)

lemma reenumerate_outcome_witness:
  "(\<exists>d. asks (exec_state (reenumerate_main (bench_relib kIOReturnSuccess) [''0424'', ''9905'']) bench_retool)
       = [(d, kIOReturnSuccess)])
   \<and> owed (ledger (DeviceSession 12)) (trace (exec_state (reenumerate_main (bench_relib 1) [''0424'', ''9905'']) bench_retool)) = 0"
  using reenumerate_outcome [OF _ bench_reenumerates, of kIOReturnSuccess]
    reenumerate_outcome [OF _ bench_reenumerates, of 1]
  by (simp add: bench_reenumerates) (simp add: bench_retool_def)

lemma strtol16_reads: "strtol16 ''9905'' = 0x9905" "strtol16 '' -0x1fz'' = - 31" "strtol16 ''zz'' = 0"
  by (simp_all add: strtol16_def isspace_def isxdigit_def hex_digit_def digits_value_def Let_def)

end
