(* ===== verification/Probe_Ops.thy ===== *)
theory Probe_Ops
  imports Usb_Backend
begin

text \<open>
  Register, MII and EEPROM operations of the probe over a \<open>usb_device\<close>
  (\<open>tools/smsc95xx-probe/smsc95xx_ops.c\<close>): the user-space counterpart of the driver's control path.
  A pointer parameter goes in with the old content and comes back with the new; an optional one is
  \<open>None\<close> when null.
\<close>

section \<open>Registers\<close>

definition PROBE_POLL_ATTEMPTS :: nat where "PROBE_POLL_ATTEMPTS = 100"

text \<open>A 32-bit word in memory, as \<open>OSSwapLittleToHostInt32\<close> reads it.\<close>

definition word_of :: "u8 list \<Rightarrow> u32" where
  "word_of raw = le32_word (raw ! 0) (raw ! 1) (raw ! 2) (raw ! 3)"

definition smsc95xx_read_reg :: "'e iolib \<Rightarrow> u16 \<Rightarrow> u32 \<Rightarrow> (('e, 'm) probe, kern_return \<times> u32) state" where
  "smsc95xx_read_reg lib offset val = do {
     (kr, raw) \<leftarrow> usb_control_in lib REQ_READ_REGISTER 0 offset [0, 0, 0, 0] 4;
     return (kr, if kr = kIOReturnSuccess then word_of raw else val)
   }"

definition smsc95xx_write_reg :: "'e iolib \<Rightarrow> u16 \<Rightarrow> u32 \<Rightarrow> (('e, 'm) probe, kern_return) state" where
  "smsc95xx_write_reg lib offset val = usb_control_out lib REQ_WRITE_REGISTER 0 offset (le32_bytes val) 4"

text \<open>The loop of \<open>wait_clear\<close> with \<open>n\<close> attempts left.\<close>

fun probe_wait_loop :: "'e iolib \<Rightarrow> u16 \<Rightarrow> u32 \<Rightarrow> nat \<Rightarrow> (('e, 'm) probe, kern_return) state" where
  "probe_wait_loop lib offset bits 0 = return kIOReturnTimeout"
| "probe_wait_loop lib offset bits (Suc n) = do {
     (kr, v) \<leftarrow> smsc95xx_read_reg lib offset 0;
     if kr \<noteq> kIOReturnSuccess then return kr
     else if v AND bits = 0 then return kIOReturnSuccess
     else probe_wait_loop lib offset bits n
   }"

definition probe_wait_clear :: "'e iolib \<Rightarrow> u16 \<Rightarrow> u32 \<Rightarrow> (('e, 'm) probe, kern_return) state" where
  "probe_wait_clear lib offset bits = probe_wait_loop lib offset bits PROBE_POLL_ATTEMPTS"

definition smsc95xx_mii_read :: "'e iolib \<Rightarrow> u8 \<Rightarrow> u8 \<Rightarrow> u16 \<Rightarrow> (('e, 'm) probe, kern_return \<times> u16) state" where
  "smsc95xx_mii_read lib phy reg val = do {
     kr \<leftarrow> probe_wait_clear lib REG_MII_ADDR MII_BUSY;
     if kr \<noteq> kIOReturnSuccess then return (kr, val) else do {
     kr \<leftarrow> smsc95xx_write_reg lib REG_MII_ADDR (smsc95xx_mii_addr_word phy reg False);
     if kr \<noteq> kIOReturnSuccess then return (kr, val) else do {
     kr \<leftarrow> probe_wait_clear lib REG_MII_ADDR MII_BUSY;
     if kr \<noteq> kIOReturnSuccess then return (kr, val) else do {
     (kr, word) \<leftarrow> smsc95xx_read_reg lib REG_MII_DATA 0;
     return (kr, if kr = kIOReturnSuccess then ucast (word AND 0xFFFF) else val)
     }}}
   }"

section \<open>The adapter to the shared layer\<close>

definition io_read :: "'e iolib \<Rightarrow> ('e, 'm) probe reg_read" where
  "io_read lib offset val = smsc95xx_read_reg lib offset val"

definition io_write :: "'e iolib \<Rightarrow> ('e, 'm) probe reg_write" where
  "io_write lib offset val = smsc95xx_write_reg lib offset val"

definition probe_io :: "'e iolib \<Rightarrow> ('e, 'm) probe smsc95xx_io option" where
  "probe_io lib = Some \<lparr>read_cb = Some (io_read lib), write_cb = Some (io_write lib)\<rparr>"

definition shared_to_ioreturn :: "kern_return \<Rightarrow> kern_return" where
  "shared_to_ioreturn rc =
     (if rc = 0 then kIOReturnSuccess
      else if rc = INIT_ERR_BAD_ARG then kIOReturnBadArgument
      else if rc = INIT_ERR_RESET_TIMEOUT then kIOReturnTimeout
      else if rc = INIT_ERR_E2P_TIMEOUT then kIOReturnTimeout
      else if rc = INIT_ERR_E2P_NO_EEPROM then kIOReturnNotFound
      else rc)"

definition probe_eeprom_read ::
    "'e iolib \<Rightarrow> u16 \<Rightarrow> u8 list \<Rightarrow> size_t \<Rightarrow> (('e, 'm) probe, kern_return \<times> u8 list) state" where
  "probe_eeprom_read lib offset buf len = do {
     (rc, buf) \<leftarrow> smsc95xx_eeprom_read (probe_io lib) offset (Some buf) len;
     return (shared_to_ioreturn rc, the buf)
   }"

section \<open>Addresses\<close>

definition smsc95xx_read_mac :: "'e iolib \<Rightarrow> u8 list \<Rightarrow> (('e, 'm) probe, kern_return \<times> u8 list) state" where
  "smsc95xx_read_mac lib mac = probe_eeprom_read lib EEPROM_MAC_OFFSET mac MAC_LEN"

definition smsc95xx_eeprom_loaded :: "'e iolib \<Rightarrow> bool option \<Rightarrow> (('e, 'm) probe, kern_return \<times> bool option) state" where
  "smsc95xx_eeprom_loaded lib loaded = do {
     (kr, cmd) \<leftarrow> smsc95xx_read_reg lib REG_E2P_CMD 0;
     return (kr, if kr = kIOReturnSuccess then map_option (\<lambda>_. cmd AND E2P_LOADED \<noteq> 0) loaded else loaded)
   }"

definition smsc95xx_read_mac_verified ::
    "'e iolib \<Rightarrow> u8 list \<Rightarrow> u8 option \<Rightarrow> (('e, 'm) probe, kern_return \<times> u8 list \<times> u8 option) state" where
  "smsc95xx_read_mac_verified lib mac sig_out = do {
     (kr, sig) \<leftarrow> probe_eeprom_read lib EEPROM_SIG_OFFSET [0] 1;
     if kr \<noteq> kIOReturnSuccess then return (kr, mac, sig_out)
     else let sig_out = map_option (\<lambda>_. sig ! 0) sig_out in
     if \<not> smsc95xx_eeprom_sig_valid (sig ! 0) then return (kIOReturnNotReadable, mac, sig_out)
     else do {
       (kr, mac) \<leftarrow> smsc95xx_read_mac lib mac;
       return (kr, mac, sig_out)
     }
   }"

definition smsc95xx_set_mac :: "'e iolib \<Rightarrow> u8 list \<Rightarrow> (('e, 'm) probe, kern_return) state" where
  "smsc95xx_set_mac lib mac = (let (addrl, addrh) = smsc95xx_mac_to_regs mac in do {
     kr \<leftarrow> smsc95xx_write_reg lib REG_ADDRL addrl;
     if kr \<noteq> kIOReturnSuccess then return kr
     else smsc95xx_write_reg lib REG_ADDRH addrh
   })"

definition smsc95xx_link_up :: "'e iolib \<Rightarrow> bool option \<Rightarrow> (('e, 'm) probe, kern_return \<times> bool option) state" where
  "smsc95xx_link_up lib up = do {
     (kr, bmsr) \<leftarrow> smsc95xx_mii_read lib PHY_ADDR MII_BMSR 0;
     return (kr, if kr = kIOReturnSuccess then map_option (\<lambda>_. smsc95xx_bmsr_link_up bmsr) up else up)
   }"

definition smsc95xx_init :: "'e iolib \<Rightarrow> u8 list \<Rightarrow> bool \<Rightarrow> (('e, 'm) probe, kern_return) state" where
  "smsc95xx_init lib mac promiscuous = do {
     rc \<leftarrow> smsc95xx_init_seq (probe_io lib) (Some mac) promiscuous;
     return (shared_to_ioreturn rc)
   }"

end
