(* ===== verification/Probe_Driver.thy ===== *)
theory Probe_Driver
  imports Probe_Ops Bench
begin

text \<open>
  The driver's and the probe's register access side by side. Both speak to one device, given by what
  it answers to a control request; the driver through DriverKit and its mapped buffer, the probe
  through IOUSBLib and a local word. Run against the same device the two return the same results and
  leave the device in the same state, for every operation they share.
\<close>

section \<open>Simulation\<close>

definition sim :: "('s \<Rightarrow> 't \<Rightarrow> bool) \<Rightarrow> ('s, 'a) state \<Rightarrow> ('t, 'a) state \<Rightarrow> bool" where
  "sim R m n \<longleftrightarrow> (\<forall>s t. R s t \<longrightarrow> eval_state m s = eval_state n t \<and> R (exec_state m s) (exec_state n t))"

named_theorems sim_intros \<open>rules for computations that agree\<close>

lemma simD: "sim R m n \<Longrightarrow> R s t \<Longrightarrow> eval_state m s = eval_state n t"
  "sim R m n \<Longrightarrow> R s t \<Longrightarrow> R (exec_state m s) (exec_state n t)"
  by (simp_all add: sim_def)

lemma sim_return [sim_intros]: "sim R (return a) (return a)"
  by (simp add: sim_def)

lemma sim_bind [sim_intros]:
  "sim R m n \<Longrightarrow> (\<And>a. sim R (f a) (g a)) \<Longrightarrow> sim R (State_Monad.bind m f) (State_Monad.bind n g)"
  by (simp add: sim_def split_def)

lemma sim_if [sim_intros]:
  "(b \<Longrightarrow> sim R m m') \<Longrightarrow> (\<not> b \<Longrightarrow> sim R n n') \<Longrightarrow> sim R (if b then m else n) (if b then m' else n')"
  by simp

lemma sim_case_prod [sim_intros]:
  "(\<And>a b. sim R (f a b) (g a b)) \<Longrightarrow> sim R (case x of (a, b) \<Rightarrow> f a b) (case x of (a, b) \<Rightarrow> g a b)"
  by (simp split: prod.split)

section \<open>Two callers of the shared layer\<close>

text \<open>Register access of two programs that agree; everything the shared layer builds on it agrees.\<close>

locale same_access =
  fixes R :: "'s \<Rightarrow> 't \<Rightarrow> bool"
    and rd :: "'s reg_read" and rd' :: "'t reg_read" and wr :: "'s reg_write" and wr' :: "'t reg_write"
  assumes reads: "sim R (rd reg v) (rd' reg v)" and writes: "sim R (wr reg v) (wr' reg v)"
begin

lemma poll_agrees:
  "sim R (poll_clear rd reg bits polls err i v) (poll_clear rd' reg bits polls err i v)"
proof (induction "polls - i" arbitrary: i v rule: less_induct)
  case less
  show ?case
    by (subst (1 2) poll_clear.simps) (intro sim_intros reads, rule less, simp)
qed

lemma bytes_agree:
  "sim R (eeprom_bytes rd wr off n i v buf) (eeprom_bytes rd' wr' off n i v buf)"
proof (induction n arbitrary: i v buf)
  case (Suc n)
  show ?case
    unfolding eeprom_bytes.simps by (intro sim_intros poll_agrees reads writes Suc)
qed (simp add: sim_return)

lemma eeprom_agrees:
  "sim R (smsc95xx_eeprom_read (Some \<lparr>read_cb = Some rd, write_cb = Some wr\<rparr>) off (Some buf) len)
     (smsc95xx_eeprom_read (Some \<lparr>read_cb = Some rd', write_cb = Some wr'\<rparr>) off (Some buf) len)"
  unfolding smsc95xx_eeprom_read_def
  by (simp add: io_callbacks_def) (intro conjI impI sim_intros poll_agrees bytes_agree)

lemma write_agrees: "sim R m n \<Longrightarrow> sim R (WR wr reg v m) (WR wr' reg v n)"
  unfolding WR_def by (intro sim_intros writes)

lemma init_agrees:
  "sim R (smsc95xx_init_seq (Some \<lparr>read_cb = Some rd, write_cb = Some wr\<rparr>) (Some mac) promiscuous)
     (smsc95xx_init_seq (Some \<lparr>read_cb = Some rd', write_cb = Some wr'\<rparr>) (Some mac) promiscuous)"
  unfolding smsc95xx_init_seq_def Let_def io_callbacks_def
  by (simp only: option.case prod.case smsc95xx_io.simps)
    (intro sim_intros write_agrees poll_agrees reads)

end

section \<open>One device\<close>

text \<open>
  The device as both see it: what it answers to a control request, given the bytes of an OUT request.
  The two libraries reach it when each is that answer on its own handle, and a successful transfer of
  \<open>n\<close> bytes brings at least \<open>n\<close>.
\<close>

type_synonym 'e wire = "u8 \<Rightarrow> u8 \<Rightarrow> u16 \<Rightarrow> u16 \<Rightarrow> u16 \<Rightarrow> u8 list \<Rightarrow> ('e, kern_return \<times> u8 list \<times> u16) state"

definition sent_bytes :: "u8 \<Rightarrow> u16 \<Rightarrow> u8 list \<Rightarrow> u8 list" where
  "sent_bytes t n buf = (if t = REQUEST_OUT then take (unat n) buf else [])"

definition same_answers :: "'e dk \<Rightarrow> obj \<Rightarrow> 'e iolib \<Rightarrow> obj \<Rightarrow> 'e wire \<Rightarrow> bool" where
  "same_answers dk itf lib i device \<longleftrightarrow>
     (\<forall>t r v x n buf. dk_DeviceRequest dk itf t r v x n buf = device t r v x n (sent_bytes t n buf))
   \<and> (\<forall>t r v x n buf. lib_DeviceRequest lib i t r v x n buf = do {
        (kr, content, done) \<leftarrow> device t r v x n (sent_bytes t n buf);
        return (kr, content, ucast done) })
   \<and> (\<forall>t r v x n buf e. case eval_state (device t r v x n buf) e of
        (kr, content, done) \<Rightarrow> kr = kIOReturnSuccess \<and> done = n \<longrightarrow> unat n \<le> length content)"

lemma same_answers_long:
  "same_answers dk itf lib i device \<Longrightarrow> case eval_state (device t r v x n buf) e of
     (kr, content, done) \<Rightarrow> kr = kIOReturnSuccess \<and> done = n \<longrightarrow> unat n \<le> length content"
  unfolding same_answers_def by (elim conjE allE)

text \<open>A driver and a probe in front of it, each with the buffers it needs.\<close>

definition alike :: "'e dk \<Rightarrow> 'e iolib \<Rightarrow> 'e sys \<Rightarrow> ('e, 'm) probe \<Rightarrow> bool" where
  "alike dk lib s p \<longleftrightarrow> env s = outside p
     \<and> (\<exists>itf i device. interface s = Some itf \<and> Option.bind (dev p) intf = Some i
         \<and> same_answers dk itf lib i device)
     \<and> ctrlBuffer s \<noteq> None \<and> (\<exists>b. ctrlBytes s = Some b \<and> 4 \<le> length b)"

lemma alikeI:
  assumes "alike dk lib s p" and "env s' = outside p'" and "interface s' = interface s" and "dev p' = dev p"
    and "ctrlBuffer s' = ctrlBuffer s" and "ctrlBytes s' = Some b" and "4 \<le> length b"
  shows "alike dk lib s' p'"
  using assms by (simp add: alike_def)

lemma overlay4: "4 \<le> length c \<Longrightarrow> 4 \<le> length b \<Longrightarrow> j < 4 \<Longrightarrow> overlay b 0 (take 4 c) ! j = c ! j"
  by (simp add: overlay_def nth_append)

lemma length_overlay4: "4 \<le> length b \<Longrightarrow> 4 \<le> length (overlay b 0 xs)"
  by (simp add: overlay_def)

lemma ucast_back: "(ucast (ucast (w :: u16) :: u32) :: u16) = w"
  by (rule bit_word_eqI) (simp add: bit_simps)

lemma ucast_is_4: "(ucast (n :: u16) :: u32) = 4 \<longleftrightarrow> n = 4"
  by (simp add: word_unat_eq_iff unat_ucast_up)

lemma run_device_request:
  assumes "ctrlBytes s = Some b" and "run_state (dk_DeviceRequest dk itf t r 0 off 4 b) (env s) = ((kr, c, n), e)"
  shows "run_state (device_request dk itf t r (ucast off)) s =
    ((kr, n), s\<lparr>env := e, ctrlBytes := Some (overlay b 0 (take 4 c))\<rparr>)"
  using assms by (simp add: device_request_def ext_def ucast_back)

lemma read_out_agrees: "sim (alike dk lib) (read_out dk off v) (smsc95xx_read_reg lib off v)"
  unfolding sim_def
proof (intro allI impI, goal_cases)
  case (1 s p)
  then obtain itf i device b cb where a: "interface s = Some itf" "Option.bind (dev p) intf = Some i"
      "same_answers dk itf lib i device" "ctrlBytes s = Some b" "4 \<le> length b" "ctrlBuffer s = Some cb"
      "env s = outside p"
    by (auto simp: alike_def)
  obtain kr c n e where run: "run_state (device REQUEST_IN REQ_READ_REGISTER 0 off 4 []) (outside p) = ((kr, c, n), e)"
    by (metis prod.exhaust)
  have dk: "run_state (dk_DeviceRequest dk itf REQUEST_IN REQ_READ_REGISTER 0 off 4 x) (outside p) = ((kr, c, n), e)" for x
    using a(3) run by (simp add: same_answers_def sent_bytes_def REQUEST_IN_def REQUEST_OUT_def)
  have lib: "run_state (lib_DeviceRequest lib i REQUEST_IN REQ_READ_REGISTER 0 off 4 x) (outside p) = ((kr, c, ucast n), e)" for x
    using a(3) run by (simp add: same_answers_def sent_bytes_def REQUEST_IN_def REQUEST_OUT_def)
  have len: "4 \<le> length c" if "kr = kIOReturnSuccess" "n = 4"
    using same_answers_long [OF a(3), where n = 4 and t = REQUEST_IN and r = REQ_READ_REGISTER and v = 0 and x = off and buf = "[]" and e = "outside p"] run that by simp
  let ?b = "overlay b 0 (take 4 c)"
  have req: "run_state (device_request dk itf REQUEST_IN REQ_READ_REGISTER (ucast off)) s =
      ((kr, n), s\<lparr>env := e, ctrlBytes := Some ?b\<rparr>)"
    by (rule run_device_request) (use a dk in auto)
  have drv: "run_state (read_out dk off v) s =
      (if kr \<noteq> kIOReturnSuccess then (kr, v) else if n \<noteq> 4 then (kIOReturnUnderrun, v) else (kr, word_of ?b),
       s\<lparr>env := e, ctrlBytes := Some ?b, calls := calls s @
         [if kr \<noteq> kIOReturnSuccess then RegRead (ucast off) kr v
          else if n \<noteq> 4 then RegRead (ucast off) kIOReturnUnderrun v
          else RegRead (ucast off) kr (word_of ?b)]\<rparr>)"
    using a
    by (simp add: read_out_def readRegister_def req emit_def deref_def word_of_def le32_word_def)
  have prb: "run_state (smsc95xx_read_reg lib off v) p =
      (if kr \<noteq> kIOReturnSuccess then (kr, v) else if n \<noteq> 4 then (kIOReturnUnderrun, v)
       else (kr, word_of (overlay [0, 0, 0, 0] 0 (take 4 c))),
       p\<lparr>outside := e, trace := trace p @ [ControlIn REQ_READ_REGISTER 0 off (take 4 c) kr]\<rparr>)"
    using a lib
    by (simp add: smsc95xx_read_reg_def usb_control_in_def control_def call_out_def ioreturn_defs ucast_is_4)
  show ?case
    unfolding drv prb using 1 a len
    by (auto simp: word_of_def overlay4 length_overlay4 intro!: alikeI [OF 1])
qed

lemma le32_bytes_take: "4 \<le> length b \<Longrightarrow>
  take 4 (b[0 := ucast (v AND 0xFF), 1 := ucast (drop_bit 8 v AND 0xFF),
    2 := ucast (drop_bit 16 v AND 0xFF), 3 := ucast (drop_bit 24 v AND 0xFF)]) = le32_bytes v"
  by (cases b rule: list.exhaust; auto simp: le32_bytes_def Suc_le_length_iff numeral_eq_Suc)

lemma write_agrees_all: "sim (alike dk lib) (writeRegister dk (ucast off) v) (smsc95xx_write_reg lib off v)"
  unfolding sim_def
proof (intro allI impI, goal_cases)
  case (1 s p)
  then obtain itf i device b cb where a: "interface s = Some itf" "Option.bind (dev p) intf = Some i"
      "same_answers dk itf lib i device" "ctrlBytes s = Some b" "4 \<le> length b" "ctrlBuffer s = Some cb"
      "env s = outside p"
    by (auto simp: alike_def)
  let ?bs = "b[0 := ucast (v AND 0xFF), 1 := ucast (drop_bit 8 v AND 0xFF),
    2 := ucast (drop_bit 16 v AND 0xFF), 3 := ucast (drop_bit 24 v AND 0xFF)]"
  obtain kr c n e where run: "run_state (device REQUEST_OUT REQ_WRITE_REGISTER 0 off 4 (le32_bytes v)) (outside p) = ((kr, c, n), e)"
    by (metis prod.exhaust)
  have req: "run_state (device_request dk itf REQUEST_OUT REQ_WRITE_REGISTER (ucast off)) (s\<lparr>ctrlBytes := Some ?bs\<rparr>) =
      ((kr, n), s\<lparr>env := e, ctrlBytes := Some (overlay ?bs 0 (take 4 c))\<rparr>)"
    by (subst run_device_request [of _ ?bs]) (use a run in \<open>auto simp: same_answers_def sent_bytes_def le32_bytes_take [simplified]\<close>)
  have lib: "run_state (lib_DeviceRequest lib i REQUEST_OUT REQ_WRITE_REGISTER 0 off 4 (le32_bytes v)) (outside p) = ((kr, c, ucast n), e)"
    using a(3) run by (simp add: same_answers_def sent_bytes_def)
  have drv: "run_state (writeRegister dk (ucast off) v) s =
      (if kr \<noteq> kIOReturnSuccess then kr else if n \<noteq> 4 then kIOReturnUnderrun else kIOReturnSuccess,
       s\<lparr>env := e, ctrlBytes := Some (overlay ?bs 0 (take 4 c)), calls := calls s @ [RegWrite (ucast off) v
         (if kr \<noteq> kIOReturnSuccess then kr else if n \<noteq> 4 then kIOReturnUnderrun else kIOReturnSuccess)]\<rparr>)"
    using a by (simp add: writeRegister_def req [simplified] emit_def deref_def)
  have prb: "run_state (smsc95xx_write_reg lib off v) p =
      (if kr \<noteq> kIOReturnSuccess then kr else if n \<noteq> 4 then kIOReturnUnderrun else kIOReturnSuccess,
       p\<lparr>outside := e, trace := trace p @ [ControlOut REQ_WRITE_REGISTER 0 off (le32_bytes v) kr]\<rparr>)"
    using a lib
    by (simp add: smsc95xx_write_reg_def usb_control_out_def control_def call_out_def ioreturn_defs ucast_is_4
      kUSBIn_def kUSBOut_def)
  show ?case
    unfolding drv prb using 1 a by (auto simp: length_overlay4 intro!: alikeI [OF 1])
qed

section \<open>The two callers\<close>

text \<open>The bring-up's thunks carry their counters along; those do not matter to the device.\<close>

definition alike_ctx :: "'e dk \<Rightarrow> 'e iolib \<Rightarrow> 'e sys \<times> SMSC95xxInitIO \<Rightarrow> ('e, 'm) probe \<Rightarrow> bool" where
  "alike_ctx dk lib x p \<longleftrightarrow> alike dk lib (fst x) p"

lemma counted_agrees:
  assumes "sim (alike dk lib) m n"
  shows "sim (alike_ctx dk lib) (do { modify (map_prod id f); on_driver m }) n"
  using assms by (simp add: sim_def alike_ctx_def on_driver_def split_def)

interpretation quiet: same_access "alike dk lib" "quietRegRead dk" "io_read lib" "quietRegWrite dk" "io_write lib"
  for dk lib
  by unfold_locales
    (simp_all add: quietRegRead_def quietRegWrite_def io_read_def io_write_def read_out_agrees write_agrees_all)

interpretation init: same_access "alike_ctx dk lib" "initRegRead dk" "io_read lib" "initRegWrite dk" "io_write lib"
  for dk lib
  by unfold_locales
    (simp_all add: initRegRead_def initRegWrite_def io_read_def io_write_def counted_agrees
      read_out_agrees write_agrees_all)

lemma shared_to_ioreturn_same: "shared_to_ioreturn = sharedResultToIOReturn"
  by (simp add: fun_eq_iff shared_to_ioreturn_def sharedResultToIOReturn_def)

lemma read_out_bind:
  "State_Monad.bind (read_out dk off x) (case_prod f)
     = do { (kr, v) \<leftarrow> readRegister dk (ucast off) (Some x); f kr (the v) }"
  by (rule state.expand) (simp add: read_out_def fun_eq_iff split_def)

lemma wait_agrees: "sim (alike dk lib) (wait_clear_loop dk off bits n) (probe_wait_loop lib off bits n)"
proof (induction n)
  case (Suc n)
  have read: "wait_clear_loop dk off bits (Suc n) = do {
      (kr, v) \<leftarrow> read_out dk off 0;
      if kr \<noteq> kIOReturnSuccess then return kr
      else if v AND bits = 0 then return kIOReturnSuccess
      else wait_clear_loop dk off bits n }"
    by (simp add: read_out_bind)
  show ?case
    unfolding read probe_wait_loop.simps by (intro sim_intros read_out_agrees Suc)
qed (simp add: sim_return)

lemma mii_agrees: "sim (alike dk lib) (miiRead dk phy reg v) (smsc95xx_mii_read lib phy reg v)"
proof -
  have read: "miiRead dk phy reg v = do {
     kr \<leftarrow> wait_clear dk REG_MII_ADDR MII_BUSY;
     if kr \<noteq> kIOReturnSuccess then return (kr, v) else do {
     kr \<leftarrow> writeRegister dk (ucast REG_MII_ADDR) (smsc95xx_mii_addr_word phy reg False);
     if kr \<noteq> kIOReturnSuccess then return (kr, v) else do {
     kr \<leftarrow> wait_clear dk REG_MII_ADDR MII_BUSY;
     if kr \<noteq> kIOReturnSuccess then return (kr, v) else do {
     (kr, word) \<leftarrow> read_out dk REG_MII_DATA 0;
     return (kr, if kr = kIOReturnSuccess then ucast (word AND 0xFFFF) else v)
     }}}}"
    unfolding miiRead_def read_out_bind by (rule refl)
  show ?thesis
    unfolding read smsc95xx_mii_read_def wait_clear_def probe_wait_clear_def POLL_ATTEMPTS_def PROBE_POLL_ATTEMPTS_def
    by (intro sim_intros wait_agrees read_out_agrees write_agrees_all)
qed

lemma eeprom_buffer:
  "snd (eval_state (smsc95xx_eeprom_read io off (Some buf) len) c) \<noteq> None"
  by (auto simp: smsc95xx_eeprom_read_def split: option.splits prod.splits)

text \<open>
  C25: The probe and the driver cannot drift apart: in front of the same device the probe's MII and
  EEPROM reads return the driver's result and value, and leave the device in the same state, for every
  answer the device may give, errors, short transfers and timeouts included.
\<close>

theorem reads_agree:
  assumes "alike dk lib s p"
  shows "eval_state (smsc95xx_mii_read lib phy reg v) p = eval_state (miiRead dk phy reg v) s
    \<and> outside (exec_state (smsc95xx_mii_read lib phy reg v) p) = env (exec_state (miiRead dk phy reg v) s)
    \<and> apsnd Some (eval_state (probe_eeprom_read lib off buf len) p) = eval_state (eepromRead dk off (Some buf) len) s
    \<and> outside (exec_state (probe_eeprom_read lib off buf len) p) = env (exec_state (eepromRead dk off (Some buf) len) s)"
proof -
  have env: "env s = outside p" if "alike dk lib s p" for s p using that by (simp add: alike_def)
  note mii = simD [OF mii_agrees assms, of phy reg v]
  note eeprom = simD [OF quiet.eeprom_agrees assms, of off buf len]
  obtain b where "snd (eval_state (smsc95xx_eeprom_read (probe_io lib) off (Some buf) len) p) = Some b"
    using eeprom_buffer [of "probe_io lib" off buf len p] by auto
  then show ?thesis
    using mii eeprom env [OF mii(2)] env [OF eeprom(2)]
    by (simp add: probe_eeprom_read_def eepromRead_def probe_io_def shared_to_ioreturn_same split_def)
qed

text \<open>
  C24: The same for the bring-up: run against the same device with the same address and mode, the
  probe's \<open>smsc95xx_init\<close> and the driver's initialisation return the same result and leave the device
  in the same state.
\<close>

theorem bring_up_agrees:
  assumes "alike dk lib s p"
    and "run_state (with_ctx counters (smsc95xx_init_seq
      (Some \<lparr>read_cb = Some (initRegRead dk), write_cb = Some (initRegWrite dk)\<rparr>) (Some mac) promiscuous)) s = (rc, s')"
  shows "eval_state (smsc95xx_init lib mac promiscuous) p = sharedResultToIOReturn rc
    \<and> outside (exec_state (smsc95xx_init lib mac promiscuous) p) = env s'"
proof -
  have ctx: "alike_ctx dk lib (s, counters) p" using assms(1) by (simp add: alike_ctx_def)
  note a = simD [OF init.init_agrees ctx, of mac promiscuous]
  show ?thesis
    using a assms(2)
    by (auto simp: smsc95xx_init_def probe_io_def shared_to_ioreturn_same with_ctx_def alike_ctx_def alike_def split_def)
qed

section \<open>A driver and a probe on one device\<close>

definition bench_wire :: "bench wire" where
  "bench_wire t r v x n bs =
     (if t = REQUEST_IN \<or> t = REQUEST_OUT \<and> 4 \<le> length bs then State (bench_request t x bs)
      else return (kIOReturnUnsupported, [], 0))"

definition wired_dk :: "bench dk" where
  "wired_dk = bench_dk\<lparr>dk_DeviceRequest := \<lambda>i t r v x n bs. bench_wire t r v x n (sent_bytes t n bs)\<rparr>"

text \<open>A library that finds no service, over any device.\<close>

definition still_lib :: "'e wire \<Rightarrow> 'e iolib" where
  "still_lib device = \<lparr>lib_IOServiceMatching = return True,
     lib_GetMatchingServices = \<lambda>vid pid. return (0, 1), lib_IteratorNext = \<lambda>it. return None,
     lib_ObjectRelease = \<lambda>_. return (), lib_CreatePlugIn = \<lambda>_ _. return (kIOReturnNoResources, None),
     lib_QueryInterface = \<lambda>p. return None, lib_DestroyPlugIn = \<lambda>_. return (),
     lib_Open = \<lambda>_. return 0, lib_Close = \<lambda>_. return (), lib_Release = \<lambda>_. return (),
     lib_GetConfiguration = \<lambda>_. return (0, 1), lib_SetConfiguration = \<lambda>_ _. return 0,
     lib_calloc = return True, lib_free = return (),
     lib_DeviceRequest = \<lambda>i t r v x n bs. do {
       (kr, content, done) \<leftarrow> device t r v x n (sent_bytes t n bs); return (kr, content, ucast done) },
     lib_CreateInterfaceIterator = \<lambda>_. return (0, 2), lib_GetNumEndpoints = \<lambda>_. return (0, 0),
     lib_GetPipeProperties = \<lambda>_ p. return (kIOReturnBadArgument, 0, 0), lib_WritePipeTO = \<lambda>_ _ _. return 0,
     lib_ReadPipeTO = \<lambda>_ _ len. return (kIOReturnTimeout, [], 0)\<rparr>"

definition wired_driver :: "bench sys" where
  "wired_driver = (initial_sys bench_start)\<lparr>interface := Some 2, ctrlBuffer := Some 10, ctrlBytes := Some [9, 9, 9, 9]\<rparr>"

definition wired_probe :: "(bench, 'm) probe" where
  "wired_probe = \<lparr>outside = bench_start, trace = [],
     dev = Some \<lparr>intf = Some 12, iface = None, pipe_in = 0, pipe_out = 0\<rparr>\<rparr>"

lemma wired_alike: "alike wired_dk (still_lib bench_wire) wired_driver wired_probe"
proof -
  have "same_answers wired_dk 2 (still_lib bench_wire) 12 bench_wire"
    by (auto simp: same_answers_def wired_dk_def still_lib_def bench_wire_def bench_request_def Let_def)
  then show ?thesis
    by (auto simp: alike_def wired_driver_def wired_probe_def initial_sys_def ivars.defs)
qed

lemma reads_agree_witness:
  "eval_state (smsc95xx_mii_read (still_lib bench_wire) PHY_ADDR MII_BMSR 7) (wired_probe :: (bench, nat) probe)
     = eval_state (miiRead wired_dk PHY_ADDR MII_BMSR 7) wired_driver"
  using reads_agree [OF wired_alike] by blast

lemma bring_up_agrees_witness:
  "\<exists>rc. eval_state (smsc95xx_init (still_lib bench_wire) [2, 2, 2, 2, 2, 2] True) (wired_probe :: (bench, nat) probe)
     = sharedResultToIOReturn rc"
  using bring_up_agrees [OF wired_alike] by (metis surj_pair)

end
