(* ===== verification/Usb_Ends.thy ===== *)
theory Usb_Ends
  imports Usb_Books Usb_Pipes
begin

text \<open>
  The loops of the transport end: the searches over what an iterator yields, when it yields finitely
  many services, and the pipe loop, when the interface reports fewer than 255 endpoints.
\<close>

section \<open>A finite stock of services\<close>

definition no_more :: "('e \<Rightarrow> nat) \<Rightarrow> ('e, 'a) state \<Rightarrow> bool" where
  "no_more stock f \<longleftrightarrow> (\<forall>e. stock (exec_state f e) \<le> stock e)"

text \<open>
  Each service an iterator yields uses up some of a stock that nothing else the loops call adds to,
  and no interface reports 255 endpoints.
\<close>

definition finite_services :: "'e iolib \<Rightarrow> ('e \<Rightarrow> nat) \<Rightarrow> bool" where
  "finite_services lib stock \<longleftrightarrow>
     (\<forall>it e. case run_state (lib_IteratorNext lib it) e of
        (None, e') \<Rightarrow> stock e' \<le> stock e | (Some svc, e') \<Rightarrow> stock e' < stock e)
     \<and> (\<forall>i e. snd (eval_state (lib_GetNumEndpoints lib i) e) \<noteq> 255)
     \<and> (\<forall>i. no_more stock (lib_ObjectRelease lib i) \<and> no_more stock (lib_QueryInterface lib i)
        \<and> no_more stock (lib_DestroyPlugIn lib i) \<and> no_more stock (lib_Open lib i)
        \<and> no_more stock (lib_Close lib i) \<and> no_more stock (lib_Release lib i)
        \<and> no_more stock (lib_GetConfiguration lib i) \<and> no_more stock (lib_GetNumEndpoints lib i))
     \<and> (\<forall>k i. no_more stock (lib_CreatePlugIn lib k i))
     \<and> (\<forall>i n. no_more stock (lib_SetConfiguration lib i n) \<and> no_more stock (lib_GetPipeProperties lib i n))
     \<and> no_more stock (lib_calloc lib)"

definition within :: "('e \<Rightarrow> nat) \<Rightarrow> nat \<Rightarrow> ('e, 'm) probe \<Rightarrow> bool" where
  "within stock k s \<longleftrightarrow> \<not> hung s \<and> stock (outside s) \<le> k"

definition ends_within :: "('e \<Rightarrow> nat) \<Rightarrow> (('e, 'm) probe, 'a) state \<Rightarrow> bool" where
  "ends_within stock m \<longleftrightarrow> (\<forall>k. keeps (within stock k) m)"

lemma ends_call_out:
  assumes "no_more stock f" and "\<And>a. Hung \<notin> set (c a)"
  shows "keeps (within stock k) (call_out f c)"
  using assms by (auto simp: keeps_def run_call_out within_def hung_def no_more_def intro: order_trans)

lemma ends_acquire: "no_more stock f \<Longrightarrow> keeps (within stock k) (acquire_by f r)"
  unfolding acquire_by_def by (rule ends_call_out) (auto split: option.split)

lemma ends_give_back: "no_more stock f \<Longrightarrow> keeps (within stock k) (give_back f q)"
  unfolding give_back_def by (rule ends_call_out) auto

lemma ends_ask: "no_more stock f \<Longrightarrow> keeps (within stock k) (ask f)"
  unfolding ask_def by (rule ends_call_out) auto

lemma ends_set_dev: "keeps (within stock k) (set_dev f)"
  by (simp add: set_dev_def keeps_def within_def hung_def)

lemmas ends_intros = keeps_bind keeps_return keeps_if keeps_case_option keeps_case_prod keeps_let
  ends_acquire ends_give_back ends_ask ends_set_dev ends_call_out

lemma finite_servicesD:
  assumes "finite_services lib stock"
  shows "no_more stock (lib_ObjectRelease lib i)" "no_more stock (lib_QueryInterface lib i)"
    "no_more stock (lib_DestroyPlugIn lib i)" "no_more stock (lib_Open lib i)"
    "no_more stock (lib_Close lib i)" "no_more stock (lib_Release lib i)"
    "no_more stock (lib_GetConfiguration lib i)" "no_more stock (lib_GetNumEndpoints lib i)"
    "no_more stock (lib_CreatePlugIn lib pk i)" "no_more stock (lib_SetConfiguration lib i n)"
    "no_more stock (lib_GetPipeProperties lib i n)" "no_more stock (lib_calloc lib)"
  using assms by (simp_all add: finite_services_def)

lemma ends_query_plugin:
  "finite_services lib stock \<Longrightarrow> keeps (within stock k) (query_plugin lib kind svc)"
  unfolding query_plugin_def by (intro ends_intros finite_servicesD) auto

lemma ends_ensure_configured:
  "finite_services lib stock \<Longrightarrow> keeps (within stock k) (ensure_configured lib i)"
  unfolding ensure_configured_def by (intro ends_intros finite_servicesD) auto

section \<open>The pipe loop\<close>

lemma pipe_loop_ends:
  fixes n :: u8
  assumes "n \<noteq> 255"
  shows "repeat_until (pipe_step lib i n) 1 s \<noteq> None"
proof -
  have n: "unat n < 255"
    using assms unsigned_less [of n, where 'a = nat] by (simp add: word_unat_eq_iff)
  have "\<exists>r. repeat_until (pipe_step lib i n) 1 s = Some r"
  proof (rule repeat_until_ends [where I = "\<lambda>_ _. True" and stock = "\<lambda>p _. 256 - unat p"])
    fix p :: u8 and t
    show "wp (pipe_step lib i n p) (\<lambda>r t'. case r of
        Inl p' \<Rightarrow> True \<and> 256 - unat p' < 256 - unat p | Inr u \<Rightarrow> True) t"
    proof (cases "p \<le> n")
      case True
      then have "unat (p + 1) = Suc (unat p)" using n by (simp add: word_le_nat_alt unat_add_small)
      then show ?thesis
        using True n by (simp add: pipe_step_def wp_bind) (rule wp_ask, auto simp: wp_simps set_dev_def word_le_nat_alt)
    qed (simp add: pipe_step_def wp_return)
  qed simp
  then show ?thesis by auto
qed

text \<open>The values a computation may return, where the rest depends on them.\<close>

lemma keeps_bind_value:
  assumes "keeps P m" and "\<And>s. P s \<Longrightarrow> keeps P (f (eval_state m s))"
  shows "keeps P (State_Monad.bind m f)"
proof (rule keepsI)
  fix s
  assume "P s"
  then show "P (exec_state (State_Monad.bind m f) s)"
    using assms(1) assms(2) [of s] by (auto simp: keeps_def split_def)
qed

lemma ends_find_bulk_pipes:
  fixes s :: "('e, 'm) probe"
  assumes fin: "finite_services lib stock"
  shows "keeps (within stock k) (find_bulk_pipes lib i :: (('e, 'm) probe, kern_return) state)"
proof -
  have "keeps (within stock k) (loop_forever Hung () (pipe_step lib i n) 1 :: (('e, 'm) probe, unit) state)"
    if "n \<noteq> 255" for n
  proof (rule keepsI)
    fix s :: "('e, 'm) probe"
    assume "within stock k s"
    then have "wp (loop_forever Hung () (pipe_step lib i n) 1) (\<lambda>_. within stock k) s"
      by (intro wp_loop_forever [where I = "\<lambda>_. within stock k"])
        (auto simp: pipe_loop_ends [OF that] pipe_step_def split: sum.split intro!: keeps_wp ends_intros finite_servicesD fin)
    then show "within stock k (exec_state (loop_forever Hung () (pipe_step lib i n) 1) s)"
      by (rule wp_exec)
  qed
  then have rest: "keeps (within stock k) ((case x of (kr, n) \<Rightarrow> if kr \<noteq> kIOReturnSuccess then return kr
      else do {
        set_dev (\<lambda>d. d\<lparr>pipe_in := 0, pipe_out := 0\<rparr>);
        loop_forever Hung () (pipe_step lib i n) 1;
        d \<leftarrow> gets dev;
        if pipe_in (the d) = 0 \<or> pipe_out (the d) = 0 then return kIOReturnNotFound
        else return kIOReturnSuccess }) :: (('e, 'm) probe, kern_return) state)" if "snd x \<noteq> 255" for x
    using that by (cases x) (auto intro!: ends_intros keeps_gets)
  show ?thesis
    unfolding find_bulk_pipes_def
  proof (rule keeps_bind_value)
    show "keeps (within stock k) (ask (lib_GetNumEndpoints lib i))"
      by (intro ends_intros finite_servicesD fin)
  qed (rule rest, use fin in \<open>simp add: run_ask finite_services_def\<close>)
qed

section \<open>The searches\<close>

text \<open>A loop whose every round uses up some of the stock and returns within it.\<close>

lemma loop_ends_within:
  fixes body :: "'a \<Rightarrow> (('e, 'm) probe, 'a + 'b) state"
  assumes body: "\<And>a k s. within stock k s \<Longrightarrow> wp (body a) (\<lambda>r t. within stock k t
      \<and> (case r of Inl a' \<Rightarrow> stock (outside t) < stock (outside s) | Inr b \<Rightarrow> True)) s"
  shows "keeps (within stock k) (loop_forever Hung b body a)"
proof (rule keepsI)
  fix s :: "('e, 'm) probe"
  assume s: "within stock k s"
  have "\<exists>r. repeat_until body a s = Some r"
    by (rule repeat_until_ends [where I = "\<lambda>_. within stock k" and stock = "\<lambda>_ s. stock (outside s)"])
      (use s in \<open>auto intro: wp_mono [OF body] split: sum.splits\<close>)
  then have "wp (loop_forever Hung b body a) (\<lambda>_. within stock k) s"
    by (intro wp_loop_forever [where I = "\<lambda>_. within stock k"])
      (use s in \<open>auto intro: wp_mono [OF body] split: sum.splits\<close>)
  then show "within stock k (exec_state (loop_forever Hung b body a) s)"
    by (rule wp_exec)
qed

text \<open>
  Both searches have one shape: take a service off the iterator, and, if there is one, go on within
  the stock that is left.
\<close>

lemma search_round:
  fixes next_one :: "obj \<Rightarrow> (('e, 'm) probe, 'a + 'b) state"
  assumes fin: "finite_services lib stock" and s: "within stock k s"
    and rest: "\<And>svc k. keeps (within stock k) (next_one svc)" and last: "\<And>k. keeps (within stock k) stop"
    and left: "\<And>s. \<exists>b. eval_state stop s = Inr b"
  shows "wp (do { svc \<leftarrow> acquire_by (lib_IteratorNext lib iter) (map_option Service);
        case svc of None \<Rightarrow> stop | Some svc \<Rightarrow> next_one svc })
      (\<lambda>r t. within stock k t \<and> (case r of Inl a' \<Rightarrow> stock (outside t) < stock (outside s) | Inr b \<Rightarrow> True)) s"
proof -
  obtain x e where run: "run_state (lib_IteratorNext lib iter) (outside s) = (x, e)" by fastforce
  have e: "case x of None \<Rightarrow> stock e \<le> stock (outside s) | Some svc \<Rightarrow> stock e < stock (outside s)"
    using fin run unfolding finite_services_def by (auto dest!: spec [of _ iter] spec [of _ "outside s"] split: option.splits)
  let ?t = "s\<lparr>outside := e, trace := trace s @ (case map_option Service x of None \<Rightarrow> [] | Some q \<Rightarrow> [Acquired q])\<rparr>"
  have t: "within stock (stock e) ?t" "within stock k ?t"
    using s e by (auto simp: within_def hung_def split: option.splits)
  show ?thesis
  proof (cases x)
    case None
    then show ?thesis
      using keepsD [OF last t(2)] left [of ?t] run
      by (auto simp: wp_run acquire_by_def run_call_out)
  next
    case (Some svc)
    then show ?thesis
      using keepsD [OF rest t(2), of svc] keepsD [OF rest t(1), of svc] run e
      by (auto simp: wp_run acquire_by_def run_call_out within_def split: sum.split)
  qed
qed

lemma wp_open_candidate_ends:
  assumes "finite_services lib stock" and "within stock k s"
  shows "wp (open_candidate lib iter last_kr) (\<lambda>r t. within stock k t
    \<and> (case r of Inl a' \<Rightarrow> stock (outside t) < stock (outside s) | Inr b \<Rightarrow> True)) s"
  unfolding open_candidate_def query_device_def close_device_def release_device_def
  by (rule search_round [OF assms])
    (auto intro!: ends_intros ends_query_plugin ends_ensure_configured finite_servicesD assms(1) keeps_assign
      simp: within_def hung_def give_back_def run_call_out)

lemma wp_claim_candidate_ends:
  assumes "finite_services lib stock" and "within stock k s"
  shows "wp (claim_candidate lib iter last_kr) (\<lambda>r t. within stock k t
    \<and> (case r of Inl a' \<Rightarrow> stock (outside t) < stock (outside s) | Inr b \<Rightarrow> True)) s"
  unfolding claim_candidate_def
  by (rule search_round [OF assms])
    (auto intro!: ends_intros ends_query_plugin ends_find_bulk_pipes finite_servicesD assms(1)
      simp: within_def hung_def give_back_def run_call_out)

text \<open>Starting a search may bring any number of services; it ends all the same.\<close>

definition returns :: "(('e, 'm) probe, 'a) state \<Rightarrow> bool" where
  "returns m \<longleftrightarrow> keeps (\<lambda>s. \<not> hung s) m"

lemma returns_within: "(\<And>k. keeps (within stock k) m) \<Longrightarrow> returns m"
  by (auto simp: returns_def keeps_def within_def)

lemma returns_bind: "returns m \<Longrightarrow> (\<And>a. returns (f a)) \<Longrightarrow> returns (State_Monad.bind m f)"
  unfolding returns_def by (rule keeps_bind)

lemma returns_call_out: "(\<And>a. Hung \<notin> set (c a)) \<Longrightarrow> returns (call_out f c)"
  by (auto simp: returns_def keeps_def run_call_out hung_def)

lemma returns_acquire: "returns (acquire_by f r)"
  unfolding acquire_by_def by (rule returns_call_out) (auto split: option.split)

lemma returns_give_back: "returns (give_back f q)"
  unfolding give_back_def by (rule returns_call_out) simp

lemma returns_ask: "returns (ask f)"
  unfolding ask_def by (rule returns_call_out) simp

lemma returns_simple: "returns (return a)" "returns (gets f)" "returns skip"
  by (simp_all add: returns_def keeps_def)

lemma returns_assign_dev: "returns (assign dev_update d)"
  by (simp add: returns_def keeps_def hung_def)

lemma returns_if: "returns m \<Longrightarrow> returns n \<Longrightarrow> returns (if b then m else n)"
  by simp

lemma returns_case_prod: "(\<And>a b. returns (f a b)) \<Longrightarrow> returns (case x of (a, b) \<Rightarrow> f a b)"
  by (simp split: prod.split)

lemma returns_case_option:
  "returns m \<Longrightarrow> (\<And>a. returns (f a)) \<Longrightarrow> returns (case x of None \<Rightarrow> m | Some a \<Rightarrow> f a)"
  by (simp split: option.split)

lemmas returns_intros = returns_bind returns_call_out returns_acquire returns_give_back returns_ask
  returns_simple returns_assign_dev returns_if returns_case_prod returns_case_option

lemma returns_usb_open_id:
  assumes fin: "finite_services lib stock"
  shows "returns (usb_open_id lib vid pid)"
  unfolding usb_open_id_def
  by (intro returns_intros returns_within [where stock = stock] loop_ends_within)
    (rule wp_open_candidate_ends [OF fin])

lemma returns_open_first:
  assumes "finite_services lib stock"
  shows "returns (open_first lib ids k)"
proof (induction ids arbitrary: k)
  case (Cons id ids)
  then show ?case
    by (cases id) (auto intro!: returns_intros returns_usb_open_id [OF assms])
qed (simp add: returns_intros)

lemma returns_claim:
  assumes fin: "finite_services lib stock"
  shows "returns (usb_claim_interface lib)"
  unfolding usb_claim_interface_def prod.case
  by (intro returns_intros returns_within [where stock = stock] loop_ends_within)
    (rule wp_claim_candidate_ends [OF fin])

end
