(* ===== verification/Probe_Main.thy ===== *)
theory Probe_Main
  imports Probe_Ops Probe_Args Usb_Books Usb_Ends
begin

text \<open>
  The probe tool's commands and its \<open>main\<close> (\<open>tools/smsc95xx-probe/main.c\<close>). Each line the tool prints is
  an event with the values it shows; the wording is left out.
\<close>

section \<open>Output\<close>

datatype message =
    Usage
  | BadDevice
  | NoDevice kern_return
  | DeviceIs u16 u16
  | Failed string kern_return
  | IdRev u32 u16 u16
  | PhyReg string u16
  | PhyId u16 u16
  | Link bool
  | Autoneg bool
  | AutoLoad bool
  | NoEeprom
  | BadSignature u8
  | BadMac smsc95xx_mac_check "u8 list"
  | SignatureOk u8
  | MacIs "u8 list"
  | MacFromOption "u8 list"
  | MacFromEeprom "u8 list"
  | BadMacOption string
  | Administered bool
  | AddrRegs u32 u32
  | Autonegotiating
  | InitOk
  | MacCr u32 bool bool bool bool bool
  | TxCfg u32
  | TxRejected size_t
  | TxSent size_t size_t size_t
  | RxWaiting
  | RxTimeout nat
  | RxEmpty nat
  | RxGot u32
  | RxRaw "u8 list"
  | RxFrame nat u32 size_t bool bool bool
  | RxHeader "u8 list"
  | RxShort size_t
  | RxNoFrames
  | RxOk nat
  | RxNone
  | Blank

type_synonym 'e tool = "('e, message) probe"

definition say :: "message \<Rightarrow> ('e tool, unit) state" where
  "say m = call_out (return ()) (\<lambda>_. [Say m])"

text \<open>\<open>printf\<close> or \<open>fprintf\<close>, then \<open>return rc\<close>.\<close>

definition say_return :: "message \<Rightarrow> u32 \<Rightarrow> ('e tool, u32) state" where
  "say_return m rc = do { say m; return rc }"

definition MAC_LOCALLY_ADMINISTERED :: u8 where "MAC_LOCALLY_ADMINISTERED = 0x02"
definition RX_STS_CRC_ERROR :: u32 where "RX_STS_CRC_ERROR = 0x00000002"

section \<open>Identity and PHY\<close>

definition cmd_id :: "'e iolib \<Rightarrow> ('e tool, u32) state" where
  "cmd_id lib = do {
     (kr, id_rev) \<leftarrow> smsc95xx_read_reg lib REG_ID_REV 0;
     if kr \<noteq> kIOReturnSuccess then say_return (Failed ''ID_REV read'' kr) 1
     else let (chip, rev) = smsc95xx_id_rev_split id_rev in
       say_return (IdRev id_rev chip rev) 0
   }"

definition phy_regs :: "(u8 \<times> string) list" where
  "phy_regs = [(MII_BMCR, ''BMCR''), (MII_BMSR, ''BMSR''), (MII_PHYID1, ''PHYID1''),
     (MII_PHYID2, ''PHYID2''), (MII_ANAR, ''ANAR''), (MII_ANLPAR, ''ANLPAR'')]"

text \<open>The loop over the registers left, with the locals \<open>phyid1\<close>, \<open>phyid2\<close> and \<open>bmsr\<close>; \<open>None\<close> is a failed read.\<close>

fun phy_loop :: "'e iolib \<Rightarrow> (u8 \<times> string) list \<Rightarrow> u16 \<Rightarrow> u16 \<Rightarrow> u16
    \<Rightarrow> ('e tool, (u16 \<times> u16 \<times> u16) option) state" where
  "phy_loop lib [] phyid1 phyid2 bmsr = return (Some (phyid1, phyid2, bmsr))"
| "phy_loop lib ((reg, name) # regs) phyid1 phyid2 bmsr = do {
     (kr, v) \<leftarrow> smsc95xx_mii_read lib PHY_ADDR reg 0;
     if kr \<noteq> kIOReturnSuccess then do { say (Failed name kr); return None }
     else do {
       say (PhyReg name v);
       phy_loop lib regs (if reg = MII_PHYID1 then v else phyid1) (if reg = MII_PHYID2 then v else phyid2)
         (if reg = MII_BMSR then v else bmsr)
     }
   }"

definition cmd_phy :: "'e iolib \<Rightarrow> ('e tool, u32) state" where
  "cmd_phy lib = do {
     r \<leftarrow> phy_loop lib phy_regs 0 0 0;
     (case r of
        None \<Rightarrow> return 1
      | Some (phyid1, phyid2, bmsr) \<Rightarrow> do {
          say (PhyId phyid1 phyid2);
          say (Link (smsc95xx_bmsr_link_up bmsr));
          say (Autoneg (smsc95xx_bmsr_autoneg_capable bmsr));
          return 0
        })
   }"

section \<open>The address\<close>

definition report_loaded :: "'e iolib \<Rightarrow> ('e tool, unit) state" where
  "report_loaded lib = do {
     (kr, loaded) \<leftarrow> smsc95xx_eeprom_loaded lib (Some False);
     if kr = kIOReturnSuccess then say (AutoLoad (the loaded)) else skip
   }"

text \<open>
  Reading the address, with its three failure messages: \<open>Inl\<close> is the exit code of a failure already
  reported, \<open>Inr\<close> the address and the signature.
\<close>

definition verified_mac :: "'e iolib \<Rightarrow> string \<Rightarrow> u8 list \<Rightarrow> ('e tool, u32 + (u8 list \<times> u8)) state" where
  "verified_mac lib what mac = do {
     (kr, mac, sig) \<leftarrow> smsc95xx_read_mac_verified lib mac (Some 0);
     if kr = kIOReturnNotFound then do { say NoEeprom; return (Inl 1) }
     else if kr = kIOReturnNotReadable then do { say (BadSignature (the sig)); return (Inl 1) }
     else if kr \<noteq> kIOReturnSuccess then do { say (Failed what kr); return (Inl 1) }
     else return (Inr (mac, the sig))
   }"

definition cmd_eeprom :: "'e iolib \<Rightarrow> ('e tool, u32) state" where
  "cmd_eeprom lib = do {
     report_loaded lib;
     r \<leftarrow> verified_mac lib ''EEPROM read'' (replicate 6 0);
     (case r of
        Inl rc \<Rightarrow> return rc
      | Inr (mac, sig) \<Rightarrow>
          let (all_zeros, all_ones) = fold (\<lambda>i (z, o'). (z \<and> mac ! i = 0x00, o' \<and> mac ! i = 0xFF)) [0..<6] (True, True) in
          if all_zeros \<or> all_ones then say_return (BadMac (if all_zeros then MAC_ALL_ZEROS else MAC_ALL_ONES) mac) 1
          else do {
            say (SignatureOk sig);
            say (MacIs mac);
            say (Administered (mac ! 0 AND MAC_LOCALLY_ADMINISTERED \<noteq> 0));
            (let (addrl, addrh) = smsc95xx_mac_to_regs mac in say (AddrRegs addrl addrh));
            return 0
          })
   }"

text \<open>The exit code, and the address in \<open>mac\<close>.\<close>

definition resolve_mac :: "'e iolib \<Rightarrow> string option \<Rightarrow> u8 list \<Rightarrow> ('e tool, u32 \<times> u8 list) state" where
  "resolve_mac lib override mac =
     (case override of
        Some s \<Rightarrow>
          (let (ok, mac) = parse_mac s mac in
           if \<not> ok then do { say (BadMacOption s); return (1, mac) }
           else do { say (MacFromOption mac); return (0, mac) })
      | None \<Rightarrow> do {
          report_loaded lib;
          r \<leftarrow> verified_mac lib ''MAC read'' mac;
          (case r of
             Inl rc \<Rightarrow> return (rc, mac)
           | Inr (mac, sig) \<Rightarrow>
               if smsc95xx_mac_plausible mac \<noteq> MAC_PLAUSIBLE
               then do { say (BadMac (smsc95xx_mac_plausible mac) mac); return (1, mac) }
               else do { say (MacFromEeprom mac); return (0, mac) })
        })"

section \<open>Bringing the device up\<close>

text \<open>Claiming the interface and initialising, with the failure messages; the result is an exit code.\<close>

definition claim_and_init :: "'e iolib \<Rightarrow> u8 list \<Rightarrow> ('e tool, u32) state" where
  "claim_and_init lib mac = do {
     kr \<leftarrow> usb_claim_interface lib;
     if kr \<noteq> kIOReturnSuccess then say_return (Failed ''claim interface'' kr) 1
     else do {
       kr \<leftarrow> smsc95xx_init lib mac True;
       if kr \<noteq> kIOReturnSuccess then say_return (Failed ''init'' kr) 1 else return 0
     }
   }"

definition read_back :: "'e iolib \<Rightarrow> ('e tool, u32) state" where
  "read_back lib = do {
     (kr_mac, mac_cr) \<leftarrow> smsc95xx_read_reg lib REG_MAC_CR 0;
     (kr_tx, tx_cfg) \<leftarrow> smsc95xx_read_reg lib REG_TX_CFG 0;
     rc \<leftarrow> (if kr_mac \<noteq> kIOReturnSuccess then say_return (Failed ''MAC_CR readback'' kr_mac) 1
       else say_return (MacCr mac_cr (mac_cr AND MAC_CR_TXEN \<noteq> 0) (mac_cr AND MAC_CR_RXEN \<noteq> 0)
         (mac_cr AND MAC_CR_RCVOWN \<noteq> 0) (mac_cr AND MAC_CR_PRMS \<noteq> 0) (mac_cr AND MAC_CR_FDPX \<noteq> 0)) 0);
     rc \<leftarrow> (if kr_tx \<noteq> kIOReturnSuccess then say_return (Failed ''TX_CFG readback'' kr_tx) 1
       else say_return (TxCfg tx_cfg) rc);
     (kr_link, up) \<leftarrow> smsc95xx_link_up lib (Some False);
     if kr_link \<noteq> kIOReturnSuccess then say_return (Failed ''link state read'' kr_link) rc
     else say_return (Link (the up)) rc
   }"

text \<open>The rest of \<open>cmd_init\<close>, \<open>cmd_tx\<close> and \<open>cmd_rx\<close> once the address is resolved.\<close>

definition init_with :: "'e iolib \<Rightarrow> u8 list \<Rightarrow> ('e tool, u32) state" where
  "init_with lib mac = do {
     (kr, bmsr) \<leftarrow> smsc95xx_mii_read lib PHY_ADDR MII_BMSR 0;
     if kr \<noteq> kIOReturnSuccess then say_return (Failed ''BMSR read'' kr) 1
     else if smsc95xx_bmsr_autoneg_capable bmsr then say_return Autonegotiating 1
     else do {
       rc \<leftarrow> claim_and_init lib mac;
       if rc \<noteq> 0 then return 1
       else do { say InitOk; read_back lib }
     }
   }"

definition cmd_init :: "'e iolib \<Rightarrow> string option \<Rightarrow> ('e tool, u32) state" where
  "cmd_init lib override = do {
     (rc, mac) \<leftarrow> resolve_mac lib override (replicate 6 0);
     if rc \<noteq> 0 then return 1 else init_with lib mac
   }"

section \<open>Sending a frame\<close>

definition probe_tag :: "u8 list" where
  "probe_tag = map of_char ''SMSC95XX-PROBE-M2''"

text \<open>The 42 bytes of \<open>frame\<close>: the three copies and two stores over zeros.\<close>

definition probe_frame :: "u8 list \<Rightarrow> u8 list" where
  "probe_frame mac =
     (let frame = replicate (unat FRAME_MIN) 0;
          frame = overlay frame 0 (replicate 6 0xFF);
          frame = overlay frame 6 (take 6 mac);
          frame = frame[12 := 0x88, 13 := 0xB5]
      in overlay frame 14 probe_tag)"

text \<open>
  The local array \<open>xfer\<close> is not initialised; the model starts it from zeros, and the header and the frame
  fill all of it before it is sent.
\<close>

definition tx_with :: "'e iolib \<Rightarrow> u8 list \<Rightarrow> ('e tool, u32) state" where
  "tx_with lib mac = do {
     rc \<leftarrow> claim_and_init lib mac;
     if rc \<noteq> 0 then return 1
     else
       let frame = probe_frame mac;
           (hdr, xfer) = smsc95xx_tx_prepend (replicate (unat (TX_HEADER_LEN + FRAME_MIN)) 0)
             (TX_HEADER_LEN + FRAME_MIN) FRAME_MIN
       in if hdr = 0 then say_return (TxRejected FRAME_MIN) 1
       else do {
         kr \<leftarrow> usb_bulk_out lib (overlay xfer (unat hdr) frame) (ucast (hdr + FRAME_MIN));
         if kr \<noteq> kIOReturnSuccess then say_return (Failed ''bulk OUT'' kr) 1
         else say_return (TxSent (hdr + FRAME_MIN) FRAME_MIN hdr) 0
       }
   }"

definition cmd_tx :: "'e iolib \<Rightarrow> string option \<Rightarrow> ('e tool, u32) state" where
  "cmd_tx lib override = do {
     (rc, mac) \<leftarrow> resolve_mac lib override (replicate 6 0);
     if rc \<noteq> 0 then return 1 else tx_with lib mac
   }"

section \<open>Receiving frames\<close>

text \<open>The loop over the records of a transfer, \<open>n\<close> of them printed so far; the result is their number.\<close>

fun show_records :: "u8 list \<Rightarrow> rx_record list \<Rightarrow> nat \<Rightarrow> ('e tool, nat) state" where
  "show_records buf [] n = return n"
| "show_records buf (r # rs) n = do {
     say (RxFrame (n + 1) (rx_status r) (rx_frame_len r) (rx_status r AND RX_STS_ERROR_SUM \<noteq> 0)
       (rx_status r AND RX_STS_CRC_ERROR \<noteq> 0) (rx_status r AND RX_STS_FILTER_FAIL \<noteq> 0));
     (if 14 \<le> rx_frame_len r then say (RxHeader (slice (unat (rx_frame r)) 14 buf))
      else say (RxShort (rx_frame_len r)));
     show_records buf rs (n + 1)
   }"

text \<open>The attempts left, \<open>n\<close> of them, from number \<open>attempt\<close> on.\<close>

fun rx_attempts :: "'e iolib \<Rightarrow> nat \<Rightarrow> nat \<Rightarrow> u8 list \<Rightarrow> ('e tool, u32) state" where
  "rx_attempts lib 0 attempt buf = say_return RxNone 1"
| "rx_attempts lib (Suc n) attempt buf = do {
     (kr, buf, got) \<leftarrow> usb_bulk_in lib buf 4096;
     if kr = kIOReturnTimeout \<or> kr = kIOUSBTransactionTimeout then do {
       say (RxTimeout attempt);
       rx_attempts lib n (attempt + 1) buf
     } else if kr \<noteq> kIOReturnSuccess then say_return (Failed ''bulk IN'' kr) 1
     else if got = 0 then do {
       say (RxEmpty attempt);
       rx_attempts lib n (attempt + 1) buf
     } else do {
       say (RxGot got);
       say (RxRaw (take (min 16 (unat got)) buf));
       n \<leftarrow> show_records buf (rx_records buf got 0) 0;
       if n = 0 then say_return RxNoFrames 1 else say_return (RxOk n) 0
     }
   }"

definition rx_with :: "'e iolib \<Rightarrow> u8 list \<Rightarrow> ('e tool, u32) state" where
  "rx_with lib mac = do {
     rc \<leftarrow> claim_and_init lib mac;
     if rc \<noteq> 0 then return 1
     else do { say RxWaiting; rx_attempts lib 10 0 (replicate 4096 0) }
   }"

definition cmd_rx :: "'e iolib \<Rightarrow> string option \<Rightarrow> ('e tool, u32) state" where
  "cmd_rx lib override = do {
     (rc, mac) \<leftarrow> resolve_mac lib override (replicate 6 0);
     if rc \<noteq> 0 then return 1 else rx_with lib mac
   }"

section \<open>The program\<close>

definition run_command :: "'e iolib \<Rightarrow> string \<Rightarrow> string option \<Rightarrow> ('e tool, u32) state" where
  "run_command lib command override =
     (if command = ''id'' then cmd_id lib
      else if command = ''phy'' then cmd_phy lib
      else if command = ''eeprom'' then cmd_eeprom lib
      else if command = ''init'' then cmd_init lib override
      else if command = ''tx'' then cmd_tx lib override
      else if command = ''rx'' then cmd_rx lib override
      else do {
        rc1 \<leftarrow> cmd_id lib;
        say Blank;
        rc2 \<leftarrow> cmd_phy lib;
        say Blank;
        rc3 \<leftarrow> cmd_eeprom lib;
        return ((rc1 OR rc2) OR rc3)
      })"

text \<open>Opening the device: the identifiers it was found under, or the reason there is none.\<close>

definition open_selected :: "'e iolib \<Rightarrow> string option \<Rightarrow> ('e tool, u32 + (u16 \<times> u16)) state" where
  "open_selected lib selector =
     (case selector of
        Some s \<Rightarrow>
          (let (ok, vid, pid) = smsc95xx_parse_vid_pid (Some s) (Some 0) (Some 0) in
           if \<not> ok then do { say BadDevice; return (Inl 1) }
           else do {
             (found, kr) \<leftarrow> usb_open_id lib (the vid) (the pid);
             if \<not> found then do { say (NoDevice kr); return (Inl 1) } else return (Inr (the vid, the pid))
           })
      | None \<Rightarrow> do {
          (found, kr) \<leftarrow> usb_open_first lib;
          (case found of
             None \<Rightarrow> do { say (NoDevice kr); return (Inl 1) }
           | Some ids \<Rightarrow> return (Inr ids))
        })"

definition probe_main :: "'e iolib \<Rightarrow> string list \<Rightarrow> ('e tool, u32) state" where
  "probe_main lib args =
     (case command_line args of
        None \<Rightarrow> say_return Usage 2
      | Some opts \<Rightarrow> do {
          r \<leftarrow> open_selected lib (device_selector opts);
          (case r of
             Inl rc \<Rightarrow> return rc
           | Inr (vid, pid) \<Rightarrow> do {
               say (DeviceIs vid pid);
               rc \<leftarrow> run_command lib (the (subcommand opts)) (override_mac opts);
               usb_close lib;
               return rc
             })
        })"

end
