(* ===== verification/Probe_Commands.thy ===== *)
theory Probe_Commands
  imports Probe_Main
begin

text \<open>
  The probe's commands walked once, inside locales: what a command does through register access,
  output, claiming and bulk transfers keeps whatever those keep; and an invariant of the record that
  tolerates the events of opening and closing is kept by them.
\<close>

section \<open>What a command does\<close>

lemma keeps_loop_forever:
  assumes "\<And>a. keeps P (body a)" and "\<And>s. P s \<Longrightarrow> P (s\<lparr>trace := trace s @ [h]\<rparr>)"
  shows "keeps P (loop_forever h b body a)"
proof (rule keepsI)
  fix s
  assume "P s"
  then have "wp (loop_forever h b body a) (\<lambda>_. P) s"
    by (intro wp_loop_forever [where I = "\<lambda>_. P"])
      (auto intro!: wp_mono [OF keeps_wp [OF assms(1)]] assms(2) split: sum.split)
  then show "P (exec_state (loop_forever h b body a) s)" by (rule wp_exec)
qed

text \<open>
  The diagnostic commands read registers, print, and write the two registers that start a PHY or an
  EEPROM access.
\<close>

locale diagnostics =
  fixes lib :: "'e iolib" and inv :: "'e tool \<Rightarrow> bool"
  assumes read_keeps: "keeps inv (smsc95xx_read_reg lib reg v)"
    and engine_keeps: "reg = REG_MII_ADDR \<or> reg = REG_E2P_CMD \<Longrightarrow> keeps inv (smsc95xx_write_reg lib reg v)"
    and say_keeps: "keeps inv (say m)"
begin

lemma say_return_keeps: "keeps inv (say_return m rc)"
  unfolding say_return_def by (intro keeps_intros say_keeps)

lemma wait_keeps: "keeps inv (probe_wait_loop lib reg bits n)"
  by (induction n) (auto intro!: keeps_intros read_keeps)

lemma mii_keeps: "keeps inv (smsc95xx_mii_read lib phy reg v)"
  unfolding smsc95xx_mii_read_def probe_wait_clear_def
  by (intro keeps_intros wait_keeps read_keeps engine_keeps) simp

lemma phy_loop_keeps: "keeps inv (phy_loop lib regs a b c)"
proof (induction regs arbitrary: a b c)
  case (Cons r regs)
  then show ?case by (cases r) (auto intro!: keeps_intros mii_keeps say_keeps)
qed (simp add: keeps_return)

end

text \<open>Register access of the probe is one the shared layer can build on.\<close>

lemma io_read_untouched: "run_state (io_read lib reg v) c = ((kr, w), c') \<Longrightarrow> kr \<noteq> 0 \<Longrightarrow> w = v"
  by (auto simp: io_read_def smsc95xx_read_reg_def kIOReturnSuccess_def split: prod.splits if_splits)

sublocale diagnostics \<subseteq> reads: register_io "io_read lib" "\<lambda>_ _. return 0" inv
  by unfold_locales (auto simp: io_read_def read_keeps keeps_return intro: io_read_untouched [unfolded io_read_def])

context diagnostics
begin

lemma bytes_keeps: "keeps inv (eeprom_bytes (io_read lib) (io_write lib) off n i v buf)"
  by (induction n arbitrary: i v buf)
    (auto intro!: keeps_intros reads.poll_clear_keeps simp: io_read_def io_write_def read_keeps engine_keeps)

lemma eeprom_keeps: "keeps inv (probe_eeprom_read lib off buf len)"
  unfolding probe_eeprom_read_def smsc95xx_eeprom_read_def io_callbacks_def probe_io_def
  by (auto intro!: keeps_intros reads.poll_clear_keeps bytes_keeps)

lemma verified_keeps: "keeps inv (verified_mac lib what mac)"
  unfolding verified_mac_def smsc95xx_read_mac_verified_def smsc95xx_read_mac_def Let_def
  by (intro keeps_intros eeprom_keeps say_keeps)

lemma loaded_keeps: "keeps inv (report_loaded lib)"
  unfolding report_loaded_def smsc95xx_eeprom_loaded_def by (intro keeps_intros read_keeps say_keeps)

lemma keeps_case_sum:
  "(\<And>a. keeps inv (f a)) \<Longrightarrow> (\<And>b. keeps inv (g b)) \<Longrightarrow> keeps inv (case x of Inl a \<Rightarrow> f a | Inr b \<Rightarrow> g b)"
  by (simp split: sum.split)

lemma id_keeps: "keeps inv (cmd_id lib)"
  unfolding cmd_id_def Let_def by (intro keeps_intros read_keeps say_return_keeps)

lemma phy_keeps: "keeps inv (cmd_phy lib)"
  unfolding cmd_phy_def by (intro keeps_intros phy_loop_keeps say_keeps)

lemma eeprom_command_keeps: "keeps inv (cmd_eeprom lib)"
  unfolding cmd_eeprom_def Let_def
  by (intro keeps_intros keeps_case_sum loaded_keeps verified_keeps say_keeps say_return_keeps)

lemma resolve_keeps: "keeps inv (resolve_mac lib override mac)"
  unfolding resolve_mac_def Let_def
  by (intro keeps_intros keeps_case_sum loaded_keeps verified_keeps say_keeps)

lemma diagnostic_keeps:
  "command \<notin> {''init'', ''tx'', ''rx''} \<Longrightarrow> keeps inv (run_command lib command override)"
  unfolding run_command_def
  by (auto intro!: keeps_intros id_keeps phy_keeps eeprom_command_keeps say_keeps)

end

text \<open>
  The other commands bring the device up with an address \<open>m\<close>: they write every register, the two
  address registers with that address, and claim the interface.
\<close>

locale raising = diagnostics lib inv for lib :: "'e iolib" and inv +
  fixes m :: "u8 list"
  assumes plain_keeps: "reg \<noteq> REG_ADDRL \<Longrightarrow> reg \<noteq> REG_ADDRH \<Longrightarrow> keeps inv (smsc95xx_write_reg lib reg v)"
    and low_keeps: "keeps inv (smsc95xx_write_reg lib REG_ADDRL (fst (smsc95xx_mac_to_regs m)))"
    and high_keeps: "keeps inv (smsc95xx_write_reg lib REG_ADDRH (snd (smsc95xx_mac_to_regs m)))"
    and claim_keeps: "keeps inv (usb_claim_interface lib)"
begin

lemma WR_plain: "reg \<noteq> REG_ADDRL \<Longrightarrow> reg \<noteq> REG_ADDRH \<Longrightarrow> keeps inv rest \<Longrightarrow> keeps inv (WR (io_write lib) reg v rest)"
  unfolding WR_def io_write_def by (intro keeps_intros plain_keeps)

lemma WR_low: "keeps inv rest \<Longrightarrow> keeps inv (WR (io_write lib) REG_ADDRL (fst (smsc95xx_mac_to_regs m)) rest)"
  unfolding WR_def io_write_def by (intro keeps_intros low_keeps)

lemma WR_high: "keeps inv rest \<Longrightarrow> keeps inv (WR (io_write lib) REG_ADDRH (snd (smsc95xx_mac_to_regs m)) rest)"
  unfolding WR_def io_write_def by (intro keeps_intros high_keeps)

lemma init_keeps: "keeps inv (smsc95xx_init lib m promiscuous)"
proof -
  have "keeps inv (smsc95xx_init_seq (probe_io lib) (Some m) promiscuous)"
    unfolding smsc95xx_init_seq_def probe_io_def io_callbacks_def Let_def split_def
    by (simp only: option.case fst_conv snd_conv smsc95xx_io.simps)
      (intro WR_low WR_high WR_plain keeps_bind reads.poll_clear_keeps reads.read_keeps keeps_if keeps_return;
        simp add: reg_defs)
  then show ?thesis unfolding smsc95xx_init_def by (intro keeps_intros)
qed

lemma claim_and_init_keeps: "keeps inv (claim_and_init lib m)"
  unfolding claim_and_init_def by (intro keeps_intros claim_keeps init_keeps say_return_keeps)

lemma read_back_keeps: "keeps inv (read_back lib)"
  unfolding read_back_def smsc95xx_link_up_def
  by (intro keeps_intros read_keeps mii_keeps say_return_keeps)

lemma init_with_keeps: "keeps inv (init_with lib m)"
  unfolding init_with_def
  by (intro keeps_intros mii_keeps claim_and_init_keeps read_back_keeps say_keeps say_return_keeps)

end

text \<open>And they move frames.\<close>

locale bring_up = raising lib inv m for lib :: "'e iolib" and inv and m +
  assumes out_keeps: "keeps inv (usb_bulk_out lib bs n)"
    and in_keeps: "keeps inv (usb_bulk_in lib bs n)"
begin

lemma show_records_keeps: "keeps inv (show_records buf rs n)"
  by (induction rs arbitrary: n) (auto intro!: keeps_intros say_keeps)

lemma rx_attempts_keeps: "keeps inv (rx_attempts lib n a buf)"
  by (induction n arbitrary: a buf)
    (auto intro!: keeps_intros in_keeps say_keeps say_return_keeps show_records_keeps)

lemma tx_with_keeps: "keeps inv (tx_with lib m)"
  unfolding tx_with_def Let_def
  by (intro keeps_intros claim_and_init_keeps out_keeps say_return_keeps)

lemma rx_with_keeps: "keeps inv (rx_with lib m)"
  unfolding rx_with_def by (intro keeps_intros claim_and_init_keeps rx_attempts_keeps say_keeps)

end

text \<open>An invariant that does not mind the address is kept by every command.\<close>

locale whole_tool = diagnostics lib inv for lib :: "'e iolib" and inv +
  assumes write_keeps: "keeps inv (smsc95xx_write_reg lib reg v)"
    and claim_keeps: "keeps inv (usb_claim_interface lib)"
    and out_keeps: "keeps inv (usb_bulk_out lib bs n)"
    and in_keeps: "keeps inv (usb_bulk_in lib bs n)"
begin

end

sublocale whole_tool \<subseteq> up: bring_up lib inv m for m
  by unfold_locales (intro write_keeps claim_keeps out_keeps in_keeps)+

context whole_tool
begin

lemma command_keeps: "keeps inv (run_command lib command override)"
  unfolding run_command_def cmd_init_def cmd_tx_def cmd_rx_def
  by (intro keeps_intros resolve_keeps up.init_with_keeps up.tx_with_keeps up.rx_with_keeps
    id_keeps phy_keeps eeprom_command_keeps say_keeps)

end

section \<open>What a run leaves on the record\<close>

text \<open>
  An invariant of the record: closed under adding events it tolerates, whatever else changes. Finding
  and closing the device is tolerated when acquiring anything but an interface is.
\<close>

locale event_log =
  fixes inv :: "'e tool \<Rightarrow> bool" and ok :: "message event \<Rightarrow> bool"
  assumes more: "inv s \<Longrightarrow> list_all ok cs \<Longrightarrow> inv (s\<lparr>outside := e, trace := trace s @ cs\<rparr>)"
    and other_dev: "inv s \<Longrightarrow> inv (s\<lparr>dev := d\<rparr>)"
    and ok_open: "ok Hung" "ok (Released q)" "ok (Configured i n kr)" "ok (Say m)"
      "(\<And>i. q \<noteq> InterfaceSession i) \<Longrightarrow> ok (Acquired q)"
begin

lemma outside_more: "inv s \<Longrightarrow> inv (s\<lparr>outside := e\<rparr>)"
  using more [of s "[]" e] by simp

lemma call_keeps: "(\<And>a. list_all ok (c a)) \<Longrightarrow> keeps inv (call_out f c)"
  by (simp add: keeps_def run_call_out more)

lemma acquire_keeps: "(\<And>a i. r a \<noteq> Some (InterfaceSession i)) \<Longrightarrow> keeps inv (acquire_by f r)"
  unfolding acquire_by_def by (intro call_keeps) (auto intro: ok_open split: option.split)

lemma give_keeps: "keeps inv (give_back f q)"
  unfolding give_back_def by (intro call_keeps) (simp add: ok_open)

lemma ask_keeps: "keeps inv (ask f)"
  unfolding ask_def by (intro call_keeps) simp

lemma say_keeps: "keeps inv (say m)"
  unfolding say_def by (intro call_keeps) (simp add: ok_open)

lemma hung_more: "inv s \<Longrightarrow> inv (s\<lparr>trace := trace s @ [Hung]\<rparr>)"
  using more [of s "[Hung]" "outside s"] ok_open by simp

lemma query_keeps: "keeps inv (query_plugin lib kind svc)"
  unfolding query_plugin_def
  by (intro keeps_intros acquire_keeps give_keeps) (auto simp: reference_def split: plugin_kind.splits if_splits)

lemma configure_keeps: "keeps inv (ensure_configured lib i)"
  unfolding ensure_configured_def by (intro keeps_intros call_keeps) (simp_all add: ok_open outside_more)

lemma open_candidate_keeps: "keeps inv (open_candidate lib iter k)"
  unfolding open_candidate_def query_device_def close_device_def release_device_def
  by (intro keeps_intros acquire_keeps give_keeps query_keeps configure_keeps)
    (auto simp: if_success_def other_dev)

lemma open_id_keeps: "keeps inv (usb_open_id lib vid pid)"
  unfolding usb_open_id_def
  by (intro keeps_intros acquire_keeps keeps_loop_forever open_candidate_keeps hung_more)
    (auto simp: if_success_def outside_more split: if_splits)

lemma open_first_keeps: "keeps inv (open_first lib ids k)"
proof (induction ids arbitrary: k)
  case (Cons id ids)
  then show ?case by (cases id) (auto intro!: keeps_intros open_id_keeps)
qed (simp add: keeps_return)

lemma open_selected_keeps: "keeps inv (open_selected lib selector)"
  unfolding open_selected_def Let_def usb_open_first_def
  by (intro keeps_intros say_keeps open_id_keeps open_first_keeps)

lemma close_keeps: "keeps inv (usb_close lib)"
  unfolding usb_close_def close_device_def release_device_def
  by (intro keeps_intros give_keeps) (simp_all add: other_dev)

lemma transfer_keeps:
  "(\<And>bs kr. ok (if dir = kUSBIn then ControlIn req val idx bs kr
      else ControlOut req val idx (take (unat len) buf) kr)) \<Longrightarrow>
   keeps inv (control lib dir req val idx buf len)"
  unfolding control_def by (intro keeps_intros call_keeps) (auto split: if_splits)

lemma read_reg_keeps:
  "(\<And>bs kr. ok (ControlIn REQ_READ_REGISTER 0 reg bs kr)) \<Longrightarrow> keeps inv (smsc95xx_read_reg lib reg v)"
  unfolding smsc95xx_read_reg_def usb_control_in_def by (intro keeps_intros transfer_keeps) simp

lemma write_reg_keeps:
  "(\<And>kr. ok (ControlOut REQ_WRITE_REGISTER 0 reg (le32_bytes v) kr)) \<Longrightarrow> keeps inv (smsc95xx_write_reg lib reg v)"
  unfolding smsc95xx_write_reg_def usb_control_out_def
  by (intro keeps_intros transfer_keeps) (simp add: kUSBOut_def kUSBIn_def)

lemma pipe_step_keeps: "keeps inv (pipe_step lib i n p)"
  unfolding pipe_step_def set_dev_def by (intro keeps_intros) (simp_all add: other_dev outside_more)

lemma find_pipes_keeps: "keeps inv (find_bulk_pipes lib i)"
  unfolding find_bulk_pipes_def set_dev_def
  by (intro keeps_intros keeps_loop_forever pipe_step_keeps hung_more) (simp_all add: other_dev outside_more)

lemma claim_candidate_keeps:
  "(\<And>q. ok (Acquired q)) \<Longrightarrow> keeps inv (claim_candidate lib iter k)"
  unfolding claim_candidate_def acquire_by_def set_dev_def
  by (intro keeps_intros call_keeps give_keeps query_keeps find_pipes_keeps)
    (auto simp: other_dev split: option.split)

lemma claim_keeps: "(\<And>q. ok (Acquired q)) \<Longrightarrow> keeps inv (usb_claim_interface lib)"
  unfolding usb_claim_interface_def acquire_by_def
  by (auto intro!: keeps_intros call_keeps keeps_loop_forever claim_candidate_keeps hung_more split: option.split)

lemma bulk_out_keeps: "(\<And>p bs kr. ok (BulkOut p bs kr)) \<Longrightarrow> keeps inv (usb_bulk_out lib bs n)"
  unfolding usb_bulk_out_def Let_def by (intro keeps_intros call_keeps) simp

lemma bulk_in_keeps: "(\<And>p bs kr. ok (BulkIn p bs kr)) \<Longrightarrow> keeps inv (usb_bulk_in lib bs n)"
  unfolding usb_bulk_in_def Let_def by (intro keeps_intros call_keeps) (auto split: prod.split)

text \<open>The whole program, when every command is tolerated.\<close>

lemma main_keeps:
  assumes "\<And>opts. command_line args = Some opts \<Longrightarrow>
    keeps inv (run_command lib (the (subcommand opts)) (override_mac opts))"
  shows "keeps inv (probe_main lib args)"
proof (cases "command_line args")
  case None
  then show ?thesis by (simp add: probe_main_def say_return_def) (intro keeps_intros say_keeps)
next
  case (Some opts)
  have "keeps inv (case r of Inl rc \<Rightarrow> return rc | Inr (vid, pid) \<Rightarrow> do { say (DeviceIs vid pid);
      rc \<leftarrow> run_command lib (the (subcommand opts)) (override_mac opts); usb_close lib; return rc })" for r
    by (auto intro!: keeps_intros say_keeps assms [OF Some] close_keeps split: sum.split)
  then show ?thesis
    using Some by (simp add: probe_main_def) (intro keeps_bind open_selected_keeps)
qed

end

end
