(* ===== verification/Probe_Safety.thy ===== *)
theory Probe_Safety
  imports Probe_Commands
begin

text \<open>
  What holds of every run of the probe: it gives everything back, it returns, its diagnostic commands
  leave the device's configuration alone, and no address it has not accepted is ever programmed. Each
  is an invariant for which the locales of \<open>Probe_Commands\<close> are interpreted.
\<close>

section \<open>Everything is given back\<close>

lemma keeps_books_say: "keeps (books R) (say m)"
  unfolding say_def by (intro keeps_intros) (simp add: books_note)

lemma keeps_books_read: "keeps (books R) (smsc95xx_read_reg lib reg v)"
  unfolding smsc95xx_read_reg_def by (intro keeps_intros)

lemma keeps_books_write: "keeps (books R) (smsc95xx_write_reg lib reg v)"
  unfolding smsc95xx_write_reg_def by (intro keeps_intros)

interpretation books: whole_tool lib "books {#}" for lib
  by unfold_locales (intro keeps_intros keeps_books_say keeps_books_read keeps_books_write)+

lemma wp_open_selected:
  fixes s :: "'e tool"
  assumes "books {#} s" and "dev s = None"
  shows "wp (open_selected lib selector)
    (\<lambda>r t. books {#} t \<and> (case r of Inl rc \<Rightarrow> dev t = None | Inr ids \<Rightarrow> True)) s"
proof -
  have say: "wp (do { say m; return (Inl (1 :: u32)) }) (\<lambda>r t. books {#} t \<and> (case r of Inl rc \<Rightarrow> dev t = None | Inr (ids :: u16 \<times> u16) \<Rightarrow> True)) t"
    if "books {#} t" "dev t = None" for m and t :: "'e tool"
    unfolding say_def wp_bind by (rule wp_call_out) (simp add: wp_return books_note that)
  show ?thesis
  proof (cases selector)
    case None
    have "wp (open_first lib known_ids kIOReturnNoDevice) (\<lambda>x. wp (case x of (found, kr) \<Rightarrow> (case found of
          None \<Rightarrow> do { say (NoDevice kr); return (Inl (1 :: u32)) } | Some ids \<Rightarrow> return (Inr ids)))
        (\<lambda>r t. books {#} t \<and> (case r of Inl rc \<Rightarrow> dev t = None | Inr ids \<Rightarrow> True))) s"
      using assms by (intro wp_mono [OF wp_open_first])
        (auto simp: wp_return intro: say split: option.splits prod.splits)
    then show ?thesis using None by (simp add: open_selected_def usb_open_first_def wp_bind)
  next
    case (Some sel)
    obtain ok vid pid where sel: "smsc95xx_parse_vid_pid (Some sel) (Some 0) (Some 0) = (ok, vid, pid)"
      by (metis prod.exhaust)
    have "wp (usb_open_id lib vid pid) (\<lambda>x. wp (case x of (found, kr) \<Rightarrow>
          if \<not> found then do { say (NoDevice kr); return (Inl (1 :: u32)) } else return (Inr (vid, pid)))
        (\<lambda>r t. books {#} t \<and> (case r of Inl rc \<Rightarrow> dev t = None | Inr ids \<Rightarrow> True))) s" for vid pid :: u16
      using assms by (intro wp_mono [OF wp_usb_open_id]) (auto simp: wp_return intro: say split: prod.splits)
    from this [of "the vid" "the pid"] show ?thesis using Some say [OF assms]
      by (simp add: open_selected_def sel wp_bind [of "usb_open_id _ _ _"])
  qed
qed

lemma wp_probe_main:
  fixes s :: "'e tool"
  assumes "books {#} s" and "dev s = None"
  shows "wp (probe_main lib args) (\<lambda>_ t. books {#} t \<and> dev t = None) s"
proof -
  have finish: "wp (do { usb_close lib; return rc }) (\<lambda>_ t. books {#} t \<and> dev t = None) t"
    if "books {#} t" for rc and t :: "'e tool"
    unfolding wp_bind by (rule wp_mono [OF wp_usb_close [OF that]]) (simp add: wp_return)
  have run: "wp (do { say m; rc \<leftarrow> run_command lib c over; usb_close lib; return rc })
      (\<lambda>_ t. books {#} t \<and> dev t = None) t" if "books {#} t" for m c over and t :: "'e tool"
    unfolding wp_bind
    by (rule wp_mono [OF keeps_wp [OF keeps_books_say that]], rule wp_mono [OF keeps_wp [OF books.command_keeps]])
      (auto intro: finish [unfolded wp_bind])
  have usage: "wp (say_return Usage 2) (\<lambda>_ t. books {#} t \<and> dev t = None) s"
    unfolding say_return_def say_def wp_bind by (rule wp_call_out) (simp add: wp_return books_note assms)
  show ?thesis
  proof (cases "command_line args")
    case None
    then show ?thesis using usage by (simp add: probe_main_def)
  next
    case (Some opts)
    have "wp (open_selected lib (device_selector opts)) (\<lambda>r. wp (case r of Inl rc \<Rightarrow> return rc
        | Inr (vid, pid) \<Rightarrow> do { say (DeviceIs vid pid);
            rc \<leftarrow> run_command lib (the (subcommand opts)) (override_mac opts); usb_close lib; return rc })
        (\<lambda>_ t. books {#} t \<and> dev t = None)) s"
      by (rule wp_mono [OF wp_open_selected [OF assms]]) (auto simp: wp_return intro: run split: sum.splits prod.splits)
    then show ?thesis using Some by (simp add: probe_main_def wp_bind [of "open_selected _ _"])
  qed
qed

section \<open>Every run returns\<close>

lemma returns_say: "returns (say m)"
  unfolding say_def by (intro returns_intros) simp

lemma returns_control: "returns (control lib dir req val idx buf len)"
  unfolding control_def by (intro returns_intros) auto

lemma returns_read: "returns (smsc95xx_read_reg lib reg v)"
  unfolding smsc95xx_read_reg_def usb_control_in_def by (intro returns_intros returns_control)

lemma returns_write: "returns (smsc95xx_write_reg lib reg v)"
  unfolding smsc95xx_write_reg_def usb_control_out_def by (intro returns_intros returns_control)

lemma returns_bulk_out: "returns (usb_bulk_out lib bs n)"
  unfolding usb_bulk_out_def Let_def by (intro returns_intros) simp

lemma returns_bulk_in: "returns (usb_bulk_in lib bs n)"
  unfolding usb_bulk_in_def Let_def by (intro returns_intros) auto

text \<open>The invariant is the hypothesis on the library, and that no loop has hung.\<close>

lemma keeps_returning:
  "(\<And>stock. finite_services lib stock \<Longrightarrow> returns m) \<Longrightarrow>
     keeps (\<lambda>s. (\<exists>stock. finite_services lib stock) \<longrightarrow> \<not> hung s) m"
  by (auto simp: returns_def keeps_def)

interpretation ends: whole_tool lib "\<lambda>s. (\<exists>stock. finite_services lib stock) \<longrightarrow> \<not> hung s" for lib
  by unfold_locales
    (intro keeps_returning returns_say returns_read returns_write returns_bulk_out returns_bulk_in returns_claim,
      assumption?)+

lemma returns_close: "returns (usb_close lib)"
  unfolding usb_close_def close_device_def release_device_def by (intro returns_intros)

lemma returns_open_selected:
  assumes "finite_services lib stock"
  shows "returns (open_selected lib selector)"
  unfolding open_selected_def Let_def usb_open_first_def
  by (intro returns_intros returns_say returns_usb_open_id [OF assms] returns_open_first [OF assms])

lemma returns_probe_main:
  assumes "finite_services lib stock"
  shows "returns (probe_main lib args)"
proof -
  have "returns (run_command lib c over)" for c over
    using ends.command_keeps [of lib c over] assms by (auto simp: returns_def keeps_def)
  then show ?thesis
    unfolding probe_main_def say_return_def
    by (auto intro!: returns_intros returns_say returns_open_selected [OF assms] returns_close split: option.split sum.split)
qed

text \<open>
  C21: Every run of the probe ends, and ends clean: with iterators that yield finitely many services and
  no interface of 255 endpoints, whatever the arguments, the library and the device answer, \<open>main\<close>
  returns, and by then everything it acquired has been given back exactly once: services, iterators,
  plug-ins, interface references, open sessions and the allocated structure.
\<close>

theorem probe_ends_clean:
  assumes "finite_services lib stock" and "trace s = []" and "dev s = None"
    and "t = exec_state (probe_main lib args) s"
  shows "Hung \<notin> set (trace t) \<and> dev t = None \<and> owed (ledger r) (trace t) = 0"
proof -
  have "books {#} s" using assms(2,3) by (simp add: books_def owes_def holdings_def)
  then have "books {#} t" "dev t = None"
    using wp_exec [of _ "\<lambda>t. books {#} t \<and> dev t = None"] wp_probe_main [of s lib args] assms(3,4) by auto
  moreover have "\<not> hung t"
    using returns_probe_main [OF assms(1), of args] assms(2,4) by (simp add: returns_def keeps_def hung_def)
  ultimately show ?thesis by (simp add: books_def owes_def holdings_def hung_def)
qed

section \<open>The device's configuration\<close>

text \<open>
  The events that change the device or its interface: a register write other than starting a PHY or
  EEPROM access, claiming the interface, and moving frames.
\<close>

fun configures :: "message event \<Rightarrow> bool" where
  "configures (ControlOut req val idx bs kr) \<longleftrightarrow>
     req \<noteq> REQ_WRITE_REGISTER \<or> idx \<noteq> REG_MII_ADDR \<and> idx \<noteq> REG_E2P_CMD"
| "configures (BulkOut p bs kr) \<longleftrightarrow> True"
| "configures (BulkIn p bs kr) \<longleftrightarrow> True"
| "configures (Acquired (InterfaceSession i)) \<longleftrightarrow> True"
| "configures _ \<longleftrightarrow> False"

text \<open>
  An address the tool has accepted and printed: the user's, or a plausible one from an EEPROM whose
  data register has answered with the signature.
\<close>

fun signature_read :: "message event \<Rightarrow> bool" where
  "signature_read (ControlIn req val idx bs kr) \<longleftrightarrow> req = REQ_READ_REGISTER \<and> idx = REG_E2P_DATA
     \<and> kr = kIOReturnSuccess \<and> bs \<noteq> [] \<and> hd bs = EEPROM_SIGNATURE"
| "signature_read _ \<longleftrightarrow> False"

definition accepted :: "u8 list \<Rightarrow> message event list \<Rightarrow> bool" where
  "accepted m tr \<longleftrightarrow> Say (MacFromOption m) \<in> set tr
     \<or> Say (MacFromEeprom m) \<in> set tr \<and> smsc95xx_mac_plausible m = MAC_PLAUSIBLE \<and> list_ex signature_read tr"

text \<open>A write of the address registers that programs \<open>m\<close>.\<close>

fun programs :: "u8 list \<Rightarrow> message event \<Rightarrow> bool" where
  "programs m (ControlOut req val idx bs kr) \<longleftrightarrow>
     (if idx = REG_ADDRL then bs = le32_bytes (fst (smsc95xx_mac_to_regs m))
      else if idx = REG_ADDRH then bs = le32_bytes (snd (smsc95xx_mac_to_regs m)) else True)"
| "programs m _ \<longleftrightarrow> True"

definition calm :: "'e tool \<Rightarrow> bool" where
  "calm s \<longleftrightarrow> \<not> list_ex configures (trace s)"

definition committed :: "u8 list \<Rightarrow> 'e tool \<Rightarrow> bool" where
  "committed m s \<longleftrightarrow> accepted m (trace s) \<and> list_all (programs m) (trace s)"

lemma calm_programs: "calm s \<Longrightarrow> list_all (programs m) (trace s)"
proof -
  have "programs m e" if "\<not> configures e" for e
    using that by (cases e) (auto simp: reg_defs)
  then show "calm s \<Longrightarrow> list_all (programs m) (trace s)"
    by (auto simp: calm_def list_all_iff list_ex_iff)
qed

lemma configures_acquired: "(\<And>i. q \<noteq> InterfaceSession i) \<Longrightarrow> \<not> configures (Acquired q)"
  by (cases q) auto

interpretation calm_log: event_log calm "\<lambda>e. \<not> configures e"
  by unfold_locales (auto simp: calm_def list_all_iff list_ex_iff configures_acquired)

interpretation calm: diagnostics lib calm for lib
  by unfold_locales (auto intro!: calm_log.read_reg_keeps calm_log.write_reg_keeps calm_log.say_keeps)

interpretation committed_log: event_log "committed m" "programs m" for m
  by unfold_locales (auto simp: committed_def accepted_def)

interpretation committed: bring_up lib "committed m" m for lib m
  by unfold_locales
    (auto intro!: committed_log.read_reg_keeps committed_log.write_reg_keeps committed_log.say_keeps committed_log.claim_keeps
      committed_log.bulk_out_keeps committed_log.bulk_in_keeps simp: reg_defs)

text \<open>
  C30: The diagnostic commands only look: a run with \<open>id\<close>, \<open>phy\<close>, \<open>eeprom\<close> or \<open>all\<close> writes no register but
  the two that start a PHY or an EEPROM access, does not claim the interface and moves no frame, on
  every path and whatever the device answers.
\<close>

theorem diagnostics_only_look:
  assumes "command_line args = Some opts" and "the (subcommand opts) \<notin> {''init'', ''tx'', ''rx''}"
    and "trace s = []"
  shows "\<not> list_ex configures (trace (exec_state (probe_main lib args) s))"
proof -
  have "keeps calm (probe_main lib args)"
    by (rule calm_log.main_keeps) (use assms(1,2) in \<open>auto intro!: calm.diagnostic_keeps\<close>)
  then show ?thesis using assms(3) by (auto simp: keeps_def calm_def)
qed

lemma wp_anything: "wp m (\<lambda>_ _. True) s"
  by (simp add: wp_run)

lemma wp_say: "wp (say m) Q s = Q () (s\<lparr>trace := trace s @ [Say m]\<rparr>)"
  by (simp add: say_def wp_run run_call_out)

interpretation signed_log: event_log "\<lambda>s. list_ex signature_read (trace s)" "\<lambda>_. True"
  by unfold_locales auto

interpretation signed: diagnostics lib "\<lambda>s. list_ex signature_read (trace s)" for lib
  by unfold_locales (auto intro!: signed_log.read_reg_keeps signed_log.write_reg_keeps signed_log.say_keeps)

text \<open>A successful one-byte EEPROM read returns what the data register answered.\<close>

lemma word_of_low: "ucast (word_of raw AND 0xFF) = raw ! 0"
  unfolding mask_255 word_of_def by (rule bit_word_eqI) (simp add: bit_simps le32_word_def)

lemma first_byte: "(take 4 c @ drop (min (length c) 4) [0, 0, 0, 0]) ! 0 = (165 :: u8) \<Longrightarrow> c \<noteq> [] \<and> hd c = 165"
  by (cases c) auto

lemma wp_read_data:
  "wp (smsc95xx_read_reg lib REG_E2P_DATA v)
     (\<lambda>(kr, w) t. kr = 0 \<longrightarrow> ucast (w AND 0xFF) = EEPROM_SIGNATURE \<longrightarrow> list_ex signature_read (trace t)) s"
  unfolding smsc95xx_read_reg_def usb_control_in_def control_def wp_bind wp_gets
  by (cases "Option.bind (dev s) intf")
    (auto simp: wp_bind wp_return wp_run run_call_out kUSBIn_def word_of_low overlay_def ioreturn_defs
      EEPROM_SIGNATURE_def dest!: first_byte split: prod.split if_splits)

lemma wp_signature_loop:
  "wp (eeprom_bytes (io_read lib) (io_write lib) off 1 0 v [0])
     (\<lambda>(kr, b) t. kr = 0 \<longrightarrow> b ! 0 = EEPROM_SIGNATURE \<longrightarrow> list_ex signature_read (trace t)) s"
proof -
  have read: "wp (do { (kr, v) \<leftarrow> io_read lib REG_E2P_DATA v;
        if kr \<noteq> 0 then return (kr, [0]) else return (0, [0 :: u8] [unat (0 :: size_t) := ucast (v AND 0xFF)]) })
      (\<lambda>(kr, b) t. kr = 0 \<longrightarrow> b ! 0 = EEPROM_SIGNATURE \<longrightarrow> list_ex signature_read (trace t)) t" for t
    unfolding io_read_def wp_bind by (rule wp_mono [OF wp_read_data]) (auto simp: wp_return)
  have poll: "wp (do { (kr, cmd) \<leftarrow> poll_clear (io_read lib) REG_E2P_CMD E2P_BUSY INIT_E2P_POLLS INIT_ERR_E2P_TIMEOUT 0 0;
        if kr \<noteq> 0 then return (kr, [0]) else if cmd AND E2P_TIMEOUT \<noteq> 0 then return (INIT_ERR_E2P_NO_EEPROM, [0])
        else do { (kr, v) \<leftarrow> io_read lib REG_E2P_DATA v;
          if kr \<noteq> 0 then return (kr, [0]) else return (0, [0 :: u8] [unat (0 :: size_t) := ucast (v AND 0xFF)]) } })
      (\<lambda>(kr, b) t. kr = 0 \<longrightarrow> b ! 0 = EEPROM_SIGNATURE \<longrightarrow> list_ex signature_read (trace t)) t" for t
    unfolding wp_bind [of "poll_clear _ _ _ _ _ _ _"]
    by (rule wp_mono [OF wp_anything])
      (use read in \<open>auto simp: wp_return init_err_defs split: prod.split simp del: list_update.simps\<close>)
  show ?thesis
    unfolding One_nat_def eeprom_bytes.simps wp_bind [of "io_write _ _ _"]
    by (rule wp_mono [OF wp_anything]) (use poll in \<open>simp add: wp_if wp_return del: list_update.simps\<close>)
qed

lemma wp_signature_byte:
  "wp (probe_eeprom_read lib off [0] 1)
     (\<lambda>(kr, b) t. kr = kIOReturnSuccess \<longrightarrow> smsc95xx_eeprom_sig_valid (b ! 0) \<longrightarrow> list_ex signature_read (trace t)) s"
proof -
  have shared: "shared_to_ioreturn rc = kIOReturnSuccess \<longleftrightarrow> rc = 0" for rc
    by (auto simp: shared_to_ioreturn_def ioreturn_defs init_err_defs)
  have bytes: "wp (do { (kr, b) \<leftarrow> eeprom_bytes (io_read lib) (io_write lib) off (unat (1 :: size_t)) 0 v [0]; return (kr, Some b) })
      (\<lambda>(kr, b) t. kr = 0 \<longrightarrow> the b ! 0 = EEPROM_SIGNATURE \<longrightarrow> list_ex signature_read (trace t)) t" for v t
    unfolding wp_bind [of "eeprom_bytes _ _ _ _ _ _ _"] unsigned_1
    by (rule wp_mono [OF wp_signature_loop]) (auto simp: wp_return)
  have poll: "wp (poll_clear (io_read lib) REG_E2P_CMD E2P_BUSY INIT_E2P_POLLS INIT_ERR_E2P_TIMEOUT 0 0)
      (\<lambda>x. wp (case x of (kr, v) \<Rightarrow> if kr \<noteq> 0 then return (kr, Some [0]) else do {
        (kr, b) \<leftarrow> eeprom_bytes (io_read lib) (io_write lib) off (unat (1 :: size_t)) 0 v [0]; return (kr, Some b) })
      (\<lambda>(kr, b) t. kr = 0 \<longrightarrow> the b ! 0 = EEPROM_SIGNATURE \<longrightarrow> list_ex signature_read (trace t))) s"
    by (rule wp_mono [OF wp_anything]) (auto simp: wp_if wp_return simp del: unsigned_1 intro: bytes split: prod.split)
  then have "wp (smsc95xx_eeprom_read (probe_io lib) off (Some [0]) 1)
      (\<lambda>(kr, b) t. kr = 0 \<longrightarrow> the b ! 0 = EEPROM_SIGNATURE \<longrightarrow> list_ex signature_read (trace t)) s"
    unfolding smsc95xx_eeprom_read_def io_callbacks_def probe_io_def option.case prod.case smsc95xx_io.simps wp_if
      wp_bind [of "poll_clear _ _ _ _ _ _ _"]
    by (simp add: wp_return init_err_defs del: unsigned_1)
  then show ?thesis
    unfolding probe_eeprom_read_def wp_bind
    by (rule wp_mono) (auto simp: wp_return shared smsc95xx_eeprom_sig_valid_def)
qed

lemma wp_resolve_accepted:
  "wp (resolve_mac lib override mac) (\<lambda>(rc, m) t. rc = 0 \<longrightarrow> accepted m (trace t)) s"
proof (cases override)
  case (Some v)
  then show ?thesis
    by (auto simp: resolve_mac_def wp_bind wp_say wp_return accepted_def split: prod.split)
next
  case None
  let ?ok = "\<lambda>r t. (\<forall>rc. r = Inl rc \<longrightarrow> rc = 1) \<and> (\<forall>x. r = Inr x \<longrightarrow> list_ex signature_read (trace t))"
  have verified: "wp (verified_mac lib what mac') ?ok t" for what mac' t
  proof -
    have sig: "wp (smsc95xx_read_mac_verified lib mac' (Some x))
        (\<lambda>(kr, m, sig) t. kr = kIOReturnSuccess \<longrightarrow> list_ex signature_read (trace t)) t" for x
    proof -
      have mac: "wp (do { (kr, m) \<leftarrow> smsc95xx_read_mac lib mac'; return (kr, m, y) })
          (\<lambda>(kr, m, sig) t. kr = kIOReturnSuccess \<longrightarrow> list_ex signature_read (trace t)) u"
        if "list_ex signature_read (trace u)" for y u
        unfolding smsc95xx_read_mac_def wp_bind [of "probe_eeprom_read _ _ _ _"]
        by (rule wp_mono [OF keeps_wp [OF signed.eeprom_keeps that]]) (auto simp: wp_return split: prod.split)
      show ?thesis
        unfolding smsc95xx_read_mac_verified_def wp_bind [of "probe_eeprom_read _ _ _ _"]
        by (rule wp_mono [OF wp_signature_byte])
          (auto simp: wp_return Let_def ioreturn_defs kIOReturnNotReadable_def intro: mac [unfolded kIOReturnSuccess_def] split: prod.split)
    qed
    show ?thesis
      unfolding verified_mac_def wp_bind [of "smsc95xx_read_mac_verified _ _ _"]
      by (rule wp_mono [OF sig]) (auto simp: wp_bind wp_say wp_return split: prod.split)
  qed
  have last: "wp (case r of Inl rc \<Rightarrow> return (rc, mac)
      | Inr (mac, sig) \<Rightarrow>
          if smsc95xx_mac_plausible mac \<noteq> MAC_PLAUSIBLE
          then do { say (BadMac (smsc95xx_mac_plausible mac) mac); return (1, mac) }
          else do { say (MacFromEeprom mac); return (0, mac) }) (\<lambda>(rc, m) t. rc = 0 \<longrightarrow> accepted m (trace t)) t"
    if "?ok r t" for r :: "u32 + u8 list \<times> u8" and t
    using that by (cases r) (auto simp: wp_bind wp_say wp_return accepted_def split: prod.split)
  show ?thesis
    unfolding None resolve_mac_def option.case wp_bind [of "report_loaded _"] wp_bind [of "verified_mac _ _ _"]
    by (rule wp_mono [OF wp_anything], rule wp_mono [OF verified], rule last)
qed

lemma calm_resolve:
  "calm s \<Longrightarrow> wp (resolve_mac lib override mac) (\<lambda>(rc, m) t. calm t \<and> (rc = 0 \<longrightarrow> committed m t)) s"
  by (rule wp_mono [OF wp_conj [OF keeps_wp [OF calm.resolve_keeps] wp_resolve_accepted]])
    (auto simp: committed_def calm_programs)

text \<open>Calm, or committed to an accepted address.\<close>

definition vetted :: "'e tool \<Rightarrow> bool" where
  "vetted s \<longleftrightarrow> calm s \<or> (\<exists>m. committed m s)"

lemma resolve_then:
  assumes "calm s" and "\<And>m. keeps (committed m) (k m)"
  shows "wp (do { (rc, m) \<leftarrow> resolve_mac lib override mac; if rc \<noteq> 0 then return 1 else k m }) (\<lambda>_. vetted) s"
  unfolding wp_bind
proof (rule wp_mono [OF calm_resolve [OF assms(1)]], clarsimp simp: wp_if wp_return vetted_def, goal_cases)
  case (1 m t)
  then have "wp (k m) (\<lambda>_. committed m) t" by (intro keeps_wp assms(2))
  then show ?case by (rule wp_mono) (auto simp: vetted_def)
qed

lemma calm_commands: "calm s \<Longrightarrow> wp (run_command lib c override) (\<lambda>_. vetted) s"
proof (cases "c \<in> {''init'', ''tx'', ''rx''}")
  case True
  then show "calm s \<Longrightarrow> wp (run_command lib c override) (\<lambda>_. vetted) s"
    by (auto simp: run_command_def cmd_init_def cmd_tx_def cmd_rx_def
      intro!: resolve_then committed.init_with_keeps committed.tx_with_keeps committed.rx_with_keeps)
next
  case False
  then show "calm s \<Longrightarrow> wp (run_command lib c override) (\<lambda>_. vetted) s"
    by (auto simp: vetted_def intro: wp_mono [OF keeps_wp [OF calm.diagnostic_keeps]])
qed

lemma calm_vetted: "calm s \<Longrightarrow> vetted s"
  by (simp add: vetted_def)

lemma vetted_close: "vetted s \<Longrightarrow> vetted (exec_state (usb_close lib) s)"
  unfolding vetted_def by (blast intro: keepsD [OF calm_log.close_keeps] keepsD [OF committed_log.close_keeps])

lemma wp_main_vetted:
  assumes "calm s"
  shows "wp (probe_main lib args) (\<lambda>_. vetted) s"
proof (cases "command_line args")
  case None
  then have "keeps calm (probe_main lib args)" by (intro calm_log.main_keeps) simp
  then show ?thesis using assms by (auto simp: wp_run vetted_def keeps_def)
next
  case (Some opts)
  have finish: "wp (do { usb_close lib; return rc }) (\<lambda>_. vetted) t" if "vetted t" for rc and t :: "'a tool"
    using vetted_close [OF that, of lib] by (simp add: wp_run split_def)
  have run: "wp (do { say m; rc \<leftarrow> run_command lib c over; usb_close lib; return rc }) (\<lambda>_. vetted) t"
    if "calm t" for m c over and t :: "'a tool"
    unfolding wp_bind [of "say _"] wp_bind [of "run_command _ _ _"]
    by (rule wp_mono [OF keeps_wp [OF calm_log.say_keeps that]], rule wp_mono [OF calm_commands]) (auto intro: finish)
  have "wp (open_selected lib (device_selector opts)) (\<lambda>r. wp (case r of Inl rc \<Rightarrow> return rc
      | Inr (vid, pid) \<Rightarrow> do { say (DeviceIs vid pid);
          rc \<leftarrow> run_command lib (the (subcommand opts)) (override_mac opts); usb_close lib; return rc })
      (\<lambda>_. vetted)) s"
    by (rule wp_mono [OF keeps_wp [OF calm_log.open_selected_keeps assms]])
      (auto simp: wp_return calm_vetted intro: run split: sum.splits prod.splits)
  then show ?thesis using Some by (simp add: probe_main_def wp_bind [of "open_selected _ _"])
qed


section \<open>Runs on a device with two bulk pipes\<close>

definition idle_probe :: "nat tool" where
  "idle_probe = \<lparr>outside = 0, trace = [], dev = None\<rparr>"

lemma idle_simps [simp]: "trace idle_probe = []" "dev idle_probe = None"
  by (simp_all add: idle_probe_def)

lemma bench_lib_finite: "finite_services (bench_lib 3) (\<lambda>n. n)"
  by (simp add: finite_services_def bench_lib_def no_more_def split: option.split prod.split)

lemma probe_ends_clean_witness:
  "owed (ledger (DeviceSession 12)) (trace (exec_state (probe_main (bench_lib 3) [''id'']) idle_probe)) = 0"
  using probe_ends_clean [OF bench_lib_finite _ _ refl, of idle_probe] by simp

lemma diagnostics_only_look_witness:
  "\<not> list_ex configures (trace (exec_state (probe_main (bench_lib 3) [''eeprom'']) idle_probe))"
proof (rule diagnostics_only_look)
  show "command_line [''eeprom''] = Some \<lparr>override_mac = None, device_selector = None, subcommand = Some ''eeprom''\<rparr>"
    by (simp add: command_line_def no_options_def subcommands_def)
qed simp_all

text \<open>
  A run that claims the interface of a device without endpoints, finds no pipes, and lets it go: the
  address comes from the command line.
\<close>

lemmas bench_run_simps = bench_lib_def run_call_out run_ask acquire_by_def give_back_def if_success_def
  ioreturn_defs

lemma bench_opened:
  "run_state (usb_open_first (bench_lib 0)) idle_probe = ((Some (SMSC95XX_VID_MACH, SMSC95XX_PID_MACH_EE), 0),
    \<lparr>outside = 0, trace = [Acquired (Iterator 1), Acquired (Service 10), Acquired (Plugin 11),
       Acquired (DeviceRef 12), Released (Plugin 11), Released (Service 10), Acquired (DeviceSession 12),
       Configured 12 1 0, Acquired Block, Released (Iterator 1)],
     dev = Some \<lparr>intf = Some 12, iface = None, pipe_in = 0, pipe_out = 0\<rparr>\<rparr>)"
  by (simp add: usb_open_first_def known_ids_def usb_open_id_def loop_forever_def idle_probe_def
    repeat_until.simps [of "open_candidate _ _"] open_candidate_def query_device_def query_plugin_def
    reference_def ensure_configured_def bench_run_simps)

lemma bench_claim:
  assumes "dev s = Some \<lparr>intf = Some 12, iface = None, pipe_in = 0, pipe_out = 0\<rparr>"
  shows "run_state (usb_claim_interface (bench_lib 0)) s = (kIOReturnNotFound,
    s\<lparr>outside := 0, trace := trace s @ [Acquired (Iterator 2), Acquired (Service 20), Acquired (Plugin 21),
      Acquired (InterfaceRef 22), Released (Plugin 21), Released (Service 20), Acquired (InterfaceSession 22),
      Released (InterfaceSession 22), Released (InterfaceRef 22), Released (Iterator 2)],
      dev := Some \<lparr>intf = Some 12, iface = None, pipe_in = 0, pipe_out = 0\<rparr>\<rparr>)"
  using assms
  by (simp add: usb_claim_interface_def loop_forever_def repeat_until.simps [of "claim_candidate _ _"]
    claim_candidate_def query_plugin_def reference_def find_bulk_pipes_def set_dev_def
    repeat_until.simps [of "pipe_step _ _ _"] pipe_step_def bench_run_simps)

lemma bench_mac: "parse_mac ''02:02:02:02:02:02'' (replicate 6 0) = (True, [2, 2, 2, 2, 2, 2])"
proof -
  let ?m = "[2, 2, 2, 2, 2, 2] :: u8 list"
  have six: "length ?m = 6" by simp
  have "scan_fields (length ?m) (mac_text ?m @ []) = map ucast ?m"
    by (rule scan_fields_text) (simp_all add: not_hex_def)
  moreover have "mac_text ?m = ''02:02:02:02:02:02''" by code_simp
  ultimately have fields: "scan_fields 6 ''02:02:02:02:02:02'' = map ucast ?m"
    unfolding six by (simp only: append_Nil2)
  have "store_mac (map ucast ?m) 0 (replicate 6 0) = (True, overlay (replicate 6 0) 0 ?m)"
    by (rule store_mac_bytes) simp
  then show ?thesis unfolding parse_mac_def fields by (simp add: overlay_def)
qed

lemma bench_tx_configures:
  "list_ex configures (trace (exec_state (probe_main (bench_lib 0) [''tx'', ''--mac'', ''02:02:02:02:02:02'']) idle_probe))"
proof -
  have line: "command_line [''tx'', ''--mac'', ''02:02:02:02:02:02''] = Some \<lparr>override_mac = Some ''02:02:02:02:02:02'',
      device_selector = None, subcommand = Some ''tx''\<rparr>"
    by (simp add: command_line_def no_options_def subcommands_def)
  show ?thesis
    by (simp add: probe_main_def line open_selected_def bench_opened run_command_def cmd_tx_def resolve_mac_def bench_mac
      tx_with_def claim_and_init_def bench_claim say_def say_return_def usb_close_def close_device_def
      release_device_def give_back_def run_call_out ioreturn_defs)
qed


end
