(* ===== verification/Probe_Frames.thy ===== *)
theory Probe_Frames
  imports Probe_Safety
begin

text \<open>
  What the probe's \<open>tx\<close> command puts on the wire, and the size of the address it works with.
\<close>

section \<open>An address has six bytes\<close>

lemma store_mac_length: "length (snd (store_mac vs i mac)) = length mac"
  by (induction vs arbitrary: i mac) auto

lemma parse_mac_length: "length (snd (parse_mac s mac)) = length mac"
  by (simp add: parse_mac_def store_mac_length Let_def)

lemma probe_eeprom_length:
  "yields (\<lambda>(kr, b). length b = length buf) (probe_eeprom_read lib off buf len)"
  unfolding probe_eeprom_read_def probe_io_def
  by (rule yields_after [OF eeprom_read_length]) (auto simp: yields_return)

lemma verified_length:
  "yields (\<lambda>r. case r of Inl rc \<Rightarrow> rc = 1 | Inr (m, sig) \<Rightarrow> length m = length mac) (verified_mac lib what mac)"
proof -
  have "yields (\<lambda>(kr, m, sig). length m = length mac) (smsc95xx_read_mac_verified lib mac x)" for x
    unfolding smsc95xx_read_mac_verified_def smsc95xx_read_mac_def Let_def
    by (intro yields_if yields_return yields_bind yields_case_prod yields_after [OF probe_eeprom_length]) auto
  then show ?thesis
    unfolding verified_mac_def by (rule yields_after) (auto intro!: yields_intros)
qed

lemma resolve_length: "yields (\<lambda>(rc, m). rc = 0 \<longrightarrow> length m = length mac) (resolve_mac lib override mac)"
proof (cases override)
  case None
  show ?thesis
    unfolding resolve_mac_def None option.case
    by (rule yields_bind, rule yields_after [OF verified_length])
      (auto intro!: yields_intros split: sum.splits prod.splits)
next
  case (Some v)
  then show ?thesis
    using parse_mac_length [of v mac]
    by (auto simp: resolve_mac_def Let_def intro!: yields_intros split: prod.split)
qed

section \<open>Frames sent\<close>

fun sent :: "message event \<Rightarrow> (u8 \<times> u8 list \<times> kern_return) list" where
  "sent (BulkOut pipe bs kr) = [(pipe, bs, kr)]"
| "sent _ = []"

text \<open>The transfers the run has put on a bulk OUT pipe, in order, with the pipe and the result.\<close>

definition transfers :: "'e tool \<Rightarrow> (u8 \<times> u8 list \<times> kern_return) list" where
  "transfers s = concat (map sent (trace s))"

interpretation unsent_log: event_log "\<lambda>s. transfers s = []" "\<lambda>e. sent e = []"
  by unfold_locales (auto simp: transfers_def list_all_iff)

interpretation unsent: raising lib "\<lambda>s. transfers s = []" m for lib m
  by unfold_locales
    (auto intro!: unsent_log.read_reg_keeps unsent_log.write_reg_keeps unsent_log.say_keeps unsent_log.claim_keeps)

text \<open>The frame: broadcast, from \<open>mac\<close>, of the experimental type, with the tag and padding.\<close>

definition broadcast :: "u8 list \<Rightarrow> u8 list" where
  "broadcast mac = replicate 6 0xFF @ mac @ [0x88, 0xB5] @ probe_tag @ replicate 11 0"

lemma probe_tag_bytes: "probe_tag = [83, 77, 83, 67, 57, 53, 88, 88, 45, 80, 82, 79, 66, 69, 45, 77, 50]"
  by (simp add: probe_tag_def)

lemma probe_frame_broadcast:
  assumes "length mac = 6"
  shows "probe_frame mac = broadcast mac"
proof -
  obtain a b c d e f where "mac = [a, b, c, d, e, f]"
    using assms by (auto simp: numeral_eq_Suc length_Suc_conv)
  moreover have "unat FRAME_MIN = 42" by (simp add: FRAME_MIN_def)
  ultimately show ?thesis
    by (simp add: probe_frame_def broadcast_def overlay_def probe_tag_bytes eval_nat_numeral)
qed

lemma probe_transfer:
  assumes "length mac = 6"
  shows "smsc95xx_tx_prepend (replicate (unat (TX_HEADER_LEN + FRAME_MIN)) 0) (TX_HEADER_LEN + FRAME_MIN) FRAME_MIN
      = (8, tx_header 42 @ replicate 42 0)"
    and "overlay (tx_header 42 @ replicate 42 0) 8 (probe_frame mac) = tx_header 42 @ broadcast mac"
    and "length (broadcast mac) = 42"
proof -
  show "smsc95xx_tx_prepend (replicate (unat (TX_HEADER_LEN + FRAME_MIN)) 0) (TX_HEADER_LEN + FRAME_MIN) FRAME_MIN
      = (8, tx_header 42 @ replicate 42 0)"
    by (subst tx_prepend_result) (simp_all add: TX_HEADER_LEN_def FRAME_MIN_def del: replicate.simps)
  show "length (broadcast mac) = 42" using assms by (simp add: broadcast_def probe_tag_bytes)
  then show "overlay (tx_header 42 @ replicate 42 0) 8 (probe_frame mac) = tx_header 42 @ broadcast mac"
    by (simp add: probe_frame_broadcast [OF assms] overlay_def)
qed

lemma wp_bulk_out_transfers:
  assumes "transfers s = []"
  shows "wp (usb_bulk_out lib bs n) (\<lambda>kr t. transfers t = [] \<and> kr = kIOReturnNotOpen
    \<or> (\<exists>pipe. transfers t = [(pipe, take (unat n) bs, kr)])) s"
  using assms
  by (auto simp: usb_bulk_out_def Let_def wp_bind wp_gets wp_return wp_run run_call_out transfers_def split: option.split prod.split)

definition sends :: "u8 list \<Rightarrow> u32 \<Rightarrow> 'e tool \<Rightarrow> bool" where
  "sends mac rc t \<longleftrightarrow> (\<exists>pipe kr. transfers t = [(pipe, tx_header 42 @ broadcast mac, kr)]
     \<and> rc = of_bool (kr \<noteq> kIOReturnSuccess))"

lemma wp_tx_with:
  assumes "transfers s = []" and "length mac = 6"
  shows "wp (tx_with lib mac) (\<lambda>rc t. transfers t = [] \<and> rc = 1 \<or> sends mac rc t) s"
    (is "wp _ ?Q s")
proof -
  have report: "transfers (t\<lparr>trace := trace t @ [Say m]\<rparr>) = transfers t" for t :: "'a tool" and m
    by (simp add: transfers_def)
  have n: "unat (ucast (8 + FRAME_MIN :: size_t) :: u32) = 50" by (simp add: FRAME_MIN_def)
  have out: "wp (do {
      kr \<leftarrow> usb_bulk_out lib (tx_header 42 @ broadcast mac) (ucast (8 + FRAME_MIN));
      if kr \<noteq> kIOReturnSuccess then say_return (Failed ''bulk OUT'' kr) 1
      else say_return (TxSent (8 + FRAME_MIN) FRAME_MIN 8) 0 }) ?Q t" if "transfers t = []" for t
    unfolding wp_bind say_return_def
    by (rule wp_mono [OF wp_bulk_out_transfers [OF that]])
      (auto simp: wp_if wp_bind wp_say wp_return report n probe_transfer(3) [OF assms(2)] sends_def ioreturn_defs kIOReturnNotOpen_def)
  show ?thesis
    unfolding tx_with_def wp_bind [of "claim_and_init _ _"]
    by (rule wp_mono [OF keeps_wp [OF unsent.claim_and_init_keeps assms(1)]])
      (simp add: wp_if wp_return probe_transfer [OF assms(2)] out)
qed

text \<open>An accepted address stays accepted.\<close>

interpretation accepting_log: event_log "\<lambda>s. accepted m (trace s)" "\<lambda>_. True" for m
  by unfold_locales (auto simp: accepted_def)

interpretation accepting: bring_up lib "\<lambda>s. accepted m (trace s)" m for lib m
  by unfold_locales
    (auto intro!: accepting_log.read_reg_keeps accepting_log.write_reg_keeps accepting_log.say_keeps
      accepting_log.claim_keeps accepting_log.bulk_out_keeps accepting_log.bulk_in_keeps)

text \<open>
  C31: The \<open>tx\<close> command sends one frame and says so truthfully: whatever the address option, the library
  and the device, a run of it puts at most one transfer on the wire, and that is exactly the eight header
  bytes for a 42-byte frame followed by the broadcast test frame whose source is the six-byte address it resolved and
  printed; it returns 0 exactly when that transfer went through, and 1 otherwise.
\<close>

theorem tx_sends_one_frame:
  assumes "transfers s = []" and "run_state (cmd_tx lib override) s = (rc, t)"
  shows "transfers t = [] \<and> rc = 1
    \<or> (\<exists>mac pipe kr. transfers t = [(pipe, tx_header 42 @ broadcast mac, kr)] \<and> length mac = 6
        \<and> accepted mac (trace t) \<and> rc = of_bool (kr \<noteq> kIOReturnSuccess))"
proof -
  have "wp (cmd_tx lib override) (\<lambda>rc t. transfers t = [] \<and> rc = 1
      \<or> (\<exists>mac. sends mac rc t \<and> length mac = 6 \<and> accepted mac (trace t))) s"
    unfolding cmd_tx_def wp_bind
  proof (rule wp_mono [OF wp_conj [OF keeps_wp [OF unsent.resolve_keeps assms(1)] wp_conj [OF wp_resolve_accepted yields_wp [OF resolve_length]]]],
      clarsimp simp: wp_if wp_return, goal_cases)
    case (1 mac t)
    have "keeps (\<lambda>s. accepted mac (trace s)) (tx_with lib mac)" by (rule accepting.tx_with_keeps)
    then have "wp (tx_with lib mac) (\<lambda>_ t. accepted mac (trace t)) t" using 1 by (auto intro: keeps_wp)
    from wp_conj [OF wp_tx_with [OF 1(1,3)] this] show ?case
      by (rule wp_mono) (use 1(3) in blast)
  qed
  from wp_runD [OF this assms(2)] show ?thesis unfolding sends_def by blast
qed

section \<open>A run that sends\<close>

definition bench_claimed :: "nat tool" where
  "bench_claimed = \<lparr>outside = 0, trace = [],
     dev = Some \<lparr>intf = Some 12, iface = Some 22, pipe_in = 2, pipe_out = 3\<rparr>\<rparr>"

lemma four_zeros: "replicate 4 (0 :: u8) = [0, 0, 0, 0]"
  by (simp add: eval_nat_numeral)

lemma bench_control_in:
  "dev s = dev bench_claimed \<Longrightarrow> run_state (smsc95xx_read_reg (bench_lib n) reg v) s =
     ((kIOReturnSuccess, 0), s\<lparr>trace := trace s @ [ControlIn REQ_READ_REGISTER 0 reg [0, 0, 0, 0] 0]\<rparr>)"
  by (simp add: smsc95xx_read_reg_def usb_control_in_def control_def run_call_out bench_lib_def bench_claimed_def
    kUSBIn_def overlay_def word_of_def le32_word_def kIOReturnSuccess_def four_zeros)

lemma bench_control_out:
  "dev s = dev bench_claimed \<Longrightarrow> run_state (smsc95xx_write_reg (bench_lib n) reg v) s =
     (kIOReturnSuccess, s\<lparr>trace := trace s @ [ControlOut REQ_WRITE_REGISTER 0 reg (le32_bytes v) 0]\<rparr>)"
  by (simp add: smsc95xx_write_reg_def usb_control_out_def control_def run_call_out bench_lib_def bench_claimed_def
    kUSBIn_def kUSBOut_def kIOReturnSuccess_def le32_bytes_def)

lemma bench_init:
  "dev s = dev bench_claimed \<Longrightarrow> fst (run_state (smsc95xx_init (bench_lib n) mac True) s) = kIOReturnSuccess
    \<and> dev (snd (run_state (smsc95xx_init (bench_lib n) mac True) s)) = dev bench_claimed"
  by (simp add: smsc95xx_init_def smsc95xx_init_seq_def probe_io_def io_callbacks_def WR_def io_read_def io_write_def
    bench_control_in bench_control_out poll_clear.simps Let_def split_def kIOReturnSuccess_def shared_to_ioreturn_def
    INIT_RESET_POLLS_def)

lemma bench_tx_returns:
  "fst (run_state (cmd_tx (bench_lib n) (Some ''02:02:02:02:02:02'')) bench_claimed) = 0"
proof -
  have claim: "dev s = dev bench_claimed \<Longrightarrow> run_state (usb_claim_interface (bench_lib n)) s = (kIOReturnSuccess, s)" for s
    by (simp add: usb_claim_interface_def bench_claimed_def)
  have out: "dev s = dev bench_claimed \<Longrightarrow> fst (run_state (usb_bulk_out (bench_lib n) bs k) s) = kIOReturnSuccess" for s bs k
    by (simp add: usb_bulk_out_def bench_claimed_def run_call_out bench_lib_def kIOReturnSuccess_def)
  have hdr: "fst (smsc95xx_tx_prepend (replicate (unat (TX_HEADER_LEN + FRAME_MIN)) 0) (TX_HEADER_LEN + FRAME_MIN) FRAME_MIN) \<noteq> 0"
    using probe_transfer(1) [of "[2, 2, 2, 2, 2, 2]"] by simp
  show ?thesis
    using bench_init [of "bench_claimed\<lparr>trace := [Say (MacFromOption [2, 2, 2, 2, 2, 2])]\<rparr>" n "[2, 2, 2, 2, 2, 2]"] hdr
    by (simp add: cmd_tx_def resolve_mac_def bench_mac tx_with_def claim_and_init_def claim say_def say_return_def
      run_call_out split_def out Let_def bench_claimed_def)
qed

lemma tx_sends_one_frame_witness:
  "\<exists>mac pipe kr. transfers (exec_state (cmd_tx (bench_lib 3) (Some ''02:02:02:02:02:02'')) bench_claimed)
     = [(pipe, tx_header 42 @ broadcast mac, kr)]"
  using tx_sends_one_frame [OF _ surjective_pairing, of bench_claimed "bench_lib 3" "Some ''02:02:02:02:02:02''"]
    bench_tx_returns [of 3]
  by (auto simp: bench_claimed_def transfers_def)

end
