(* ===== verification/Spec2Isabelle.thy ===== *)
theory Spec2Isabelle
  imports Bench Rx_Delivery Rx_Idle Tx_Drain Tx_Wire Usb_Device Usb_Reenumerate Probe_Driver Probe_Safety Probe_Frames
begin

text \<open>
  A verification development for the macOS support of the Microchip/SMSC LAN9500A USB Ethernet
  controller: the DriverKit network driver, the device-level driver beside it, the protocol code they
  share, and the command-line tools. Paths below are relative to \<open>src/\<close>.

  \<^bold>\<open>The program.\<close> \<open>common/\<close> is plain C without state of its own: command words and framing
  (\<open>smsc95xx_proto.c\<close>), and the bring-up sequence and EEPROM reader over the caller's two register
  callbacks (\<open>smsc95xx_init.c\<close>). \<open>dext/SMSC95xxUSBDevice\<close> matches the USB device, configures it if needed
  and holds it open. \<open>dext/SMSC95xxDriver\<close> matches the interface: it reads the address, brings the chip up
  through \<open>common/\<close>, registers with the network stack, and moves frames between the stack's packet
  queues and two bulk pipes, one transfer per pipe at a time; it stops asynchronously, when every
  cancellation it issued has run. \<open>tools/smsc95xx-probe\<close> does the same bring-up from user space through
  \<open>common/\<close> and prints what it finds; \<open>tools/usb-reenumerate\<close> makes the system match the device again.

  \<^bold>\<open>Theories and code.\<close> Each operation has the name it has in the source, and a part of a long function
  that is a definition of its own is composed where the function has it.
  \<^item> \<open>Prelude\<close>: integers of the C sources as words of their width, the state monad in which a stateful
    function is written, its weakest-precondition rules (\<open>wp_simps\<close>), the rules for computations that
    keep a predicate (\<open>keeps_intros\<close>) or return values in one (\<open>yields_intros\<close>), bytes and words.
  \<^item> \<open>Registers\<close>, \<open>Proto\<close>, \<open>Init_Seq\<close>, \<open>Rx_Walk\<close>: \<open>common/\<close>. The callbacks of \<open>Init_Seq\<close> are the locale
    \<open>register_io\<close>, and iterating \<open>smsc95xx_rx_next\<close> is the locale \<open>record_source\<close>.
  \<^item> \<open>Platform\<close>: DriverKit, USBDriverKit and NetworkingDriverKit as a record \<open>dk\<close> of operations on a state
    \<open>'e\<close> of everything outside, and the record of the calls made. \<open>Ivars\<close>: the instance variables
    (\<open>SMSC95xxDriver_ivars.h\<close>), and the state of the driver: those, \<open>'e\<close> and the calls.
  \<^item> \<open>Control\<close>, \<open>Lifecycle\<close>: \<open>SMSC95xxDriver.cpp\<close>. \<open>Receive\<close>, \<open>Transmit\<close>, \<open>Datapath\<close>:
    \<open>SMSC95xxDriver_datapath.cpp\<close>.
  \<^item> \<open>Invariant\<close>, \<open>Frames\<close>, \<open>Shutdown\<close>, \<open>Bring_Up\<close>: the invariant of the driver and its preservation by
    every operation, the counter that joins the cancellations, the stages of \<open>Start\<close>. \<open>Driver\<close>: the
    driver as a transition system, one step per entry point in any order (\<open>driver_step\<close>), with its
    reachable states; the locale \<open>invariant_system\<close> carries invariants over to them.
  \<^item> \<open>Rx_Delivery\<close>, \<open>Rx_Idle\<close>, \<open>Tx_Drain\<close>, \<open>Tx_Wire\<close>: what reaches the stack, how often an idle device is
    polled, when the drain loop ends, and the bytes on the wire. \<open>Bench\<close>: the concrete outside of the
    witnesses.
  \<^item> \<open>Trace\<close>: calls with a record, and loops that may not end, for the smaller components. \<open>Usb_Device\<close>:
    \<open>SMSC95xxUSBDevice.cpp\<close>.
  \<^item> \<open>Usb_Backend\<close>: \<open>usb_backend.c\<close>, over IOKit and IOUSBLib as a record \<open>iolib\<close>; \<open>Usb_Books\<close>, \<open>Usb_Pipes\<close>
    and \<open>Usb_Ends\<close> are its resource books, pipe discovery and termination. \<open>Probe_Ops\<close>: \<open>smsc95xx_ops.c\<close>.
    \<open>Probe_Args\<close>, \<open>Probe_Main\<close>: \<open>main.c\<close>.
  \<^item> \<open>Probe_Driver\<close>: the probe and the driver in front of the same device (locale \<open>same_access\<close>).
    \<open>Probe_Commands\<close>: every command of the probe walked once, inside the locales \<open>diagnostics\<close>,
    \<open>raising\<close>, \<open>bring_up\<close>, \<open>whole_tool\<close> and \<open>event_log\<close>; \<open>Probe_Safety\<close> and \<open>Probe_Frames\<close> interpret them
    with the invariants behind the properties of the tool.
  \<^item> \<open>Usb_Reenumerate\<close>: \<open>usb_reenumerate.c\<close>. This theory: the properties of whole runs of the driver.

  \<^bold>\<open>What is shown.\<close> Of the driver, in every reachable state and whatever the system and the device do:
  no packet is lost or disposed of twice in either direction and the counters say so; one
  transfer per pipe; every copy stays in its buffer and no null pointer is used; the
  instance variables stay well formed; stopping ends in one \<open>super::Stop\<close> with everything let go, and
  nothing reaches the device afterwards; \<open>Start\<close> on every path; end to end, the frames
  the device packed reach the stack without their checksum, and what is sent is a framed packet
 . Of the shared layer: round trips, bounds and exact results on all branches, and the bring-up as
  a refinement of its script. Of the tools: every run ends and gives everything back, the diagnostic
  commands change nothing, no address is programmed that was not accepted, the test frame is exact, and
  the probe and the driver agree on every operation they share. The theorems named \<open>..._witness\<close> apply a
  property to a concrete run.

  \<^bold>\<open>Conventions.\<close> A null pointer is \<open>None\<close>; a call through one is recorded as \<open>NullDeref\<close> and yields an
  arbitrary result. An out-parameter goes in with the old value and comes back with the new. Two kinds
  of loop are bounded by their code and are recursive on that bound: polls (100 attempts for the PHY,
  \<open>INIT_RESET_POLLS\<close> and \<open>INIT_E2P_POLLS\<close> in the bring-up) and loops over lists and lengths. No fuel is used:
  the loops nothing in the code bounds are partial functions, and not returning is part of the model:
  \<open>Diverged\<close> on the record of the driver's drain loop, \<open>Hung\<close> on the record of the probe's searches and
  pipe loop. \<open>Tx_Drain\<close>, \<open>Usb_Ends\<close> and \<open>Probe_Safety\<close> give conditions under which they return, \<open>Tx_Drain\<close> and
  \<open>Usb_Pipes\<close> inputs on which they do not. Entry points do not overlap,
  because DriverKit delivers them on the driver's one serial queue. What a property relies on of code
  that is not in the repository is one of its hypotheses: \<open>platform_ok\<close> (a successful creation leaves an
  object, a mapping covers the length it reports), \<open>reads_whole\<close> (a packet's bytes can be read),
  \<open>supplying\<close> (the stack has packets and takes them), \<open>finite_supply\<close> and \<open>finite_services\<close> (a queue or an
  iterator runs dry); \<open>Bench\<close> and the benches of the tools satisfy them.

  \<^bold>\<open>Not modelled.\<close> Log lines, and \<open>logDatapathCounters\<close> and the code under \<open>SMSC95XX_TRACE\<close>, which only log;
  of the tools' output the wording, but not the values or the order. The register status bits that only
  such lines print. The Core Foundation numbers of a matching dictionary, whose two values are passed on
  directly. The installer application, property lists and make files, the Python and shell tools, the
  unit tests and the recorded traces have no logic of the program.
\<close>

section \<open>Safety of the running driver\<close>

lemma cancelling_drv_inv: "cancelling fs s \<Longrightarrow> drv_inv None s"
  by (auto simp: cancelling_def waiting_def finished_def)

lemma sys_inv_drv_inv: "sys_inv (p, s) \<Longrightarrow> drv_inv None s"
  using initial_staged
  by (cases p) (auto simp: running_def unstopped_def untouched_def dest: cancelling_drv_inv)

lemma reachable_drv_inv: "platform_ok dk \<Longrightarrow> reachable dk provider (p, s) \<Longrightarrow> drv_inv None s"
  by (blast intro: sys_inv_drv_inv reachable_inv)

text \<open>
  C1: No transmit packet is lost or handed back twice: in every reachable state the packets taken off
  the submission queue are, as a multiset, the packets given to the completion queue and the one
  still with the device, and the counters agree: \<open>txDequeued = txReturned + txLost + (1 if in flight)\<close>.
\<close>

theorem tx_packets_conserved:
  assumes "platform_ok dk" and "reachable dk provider (p, s)"
  shows "tally tx_taken (calls s) = tally tx_given (calls s) + pkts (txPacket s)
    \<and> txDequeued s = txReturned s + txLost s + of_bool (txInFlight s)
    \<and> (txInFlight s \<longleftrightarrow> txPacket s \<noteq> None)"
  using reachable_drv_inv [OF assms] by (simp add: drv_inv_def tx_inv_def)

lemma tx_packets_conserved_witness:
  "txInFlight bench_busy \<and> txPacket bench_busy = Some 100
    \<and> tally tx_taken (calls bench_busy) = tally tx_given (calls bench_busy) + {#100#}"
  using tx_packets_conserved [OF bench_dk_ok bench_busy_reachable] by (simp add: bench_busy_facts)



text \<open>
  C11: The driver never has two transfers outstanding on a pipe: in every reachable state the reads it
  submitted exceed the read completions it saw by at most one, likewise the writes.
\<close>

theorem one_transfer_per_pipe:
  assumes "platform_ok dk" and "reachable dk provider (p, s)"
  shows "tally in_accepted (calls s) \<le> tally in_completed (calls s) + 1
    \<and> tally out_accepted (calls s) \<le> tally out_completed (calls s) + 1"
  using reachable_drv_inv [OF assms] by (simp add: drv_inv_def inv_defs)

lemma one_transfer_per_pipe_witness:
  "tally in_accepted (calls bench_busy) = 1 \<and> tally out_accepted (calls bench_busy) = 1
    \<and> 1 \<le> tally in_completed (calls bench_busy) + 1"
  using one_transfer_per_pipe [OF bench_dk_ok bench_busy_reachable] by (simp add: bench_busy_facts)



section \<open>Stopping\<close>

lemma reachable_cancelling:
  "platform_ok dk \<Longrightarrow> reachable dk provider (Stopped, s) \<Longrightarrow> cancelling [] s"
  using reachable_inv by fastforce

text \<open>
  C3: \<open>super::Stop\<close> is called at most once, and only when it is safe: while a cancellation handler is
  still to run it has not been called, and once none is left it has been called and every object,
  buffer and packet has been let go. This holds whatever each \<open>Cancel\<close> returned and in whatever
  order the handlers ran.
\<close>

theorem stopped_exactly_once:
  assumes "platform_ok dk" and "reachable dk provider (Stopped, s)"
  shows "if outstanding s = 0 then super_stops s = 1 \<and> gone s
    else super_stops s = 0 \<and> unat (stopCancelsPending s) = outstanding s"
  using reachable_cancelling [OF assms] by (auto simp: cancelling_def waiting_def finished_def)

lemma stopped_exactly_once_witness:
  "outstanding bench_stopped = 4 \<and> super_stops bench_stopped = 0
    \<and> unat (stopCancelsPending bench_stopped) = 4"
  using stopped_exactly_once [OF bench_dk_ok bench_stopped_reachable]
  by (simp add: bench_stopped_outstanding)

text \<open>Running every handler that is left.\<close>

lemma handlers_finish:
  "cancelling [] s \<Longrightarrow> n = outstanding s \<Longrightarrow>
     finished ((exec_state (cancel_handler dk provider) ^^ n) s)"
proof (induction n arbitrary: s)
  case 0
  then show ?case by (simp add: cancelling_def waiting_def)
next
  case (Suc n)
  let ?t = "exec_state (cancel_handler dk provider) s"
  have "cancelling [] ?t \<and> outstanding ?t = n"
    using wp_cancel_handler [OF Suc.prems(1), of dk provider] Suc.prems(2) by (simp add: wp_run)
  then show ?case using Suc.IH [of ?t] by (simp add: funpow_Suc_right del: funpow.simps)
qed

text \<open>
  C9: The asynchronous stop completes: from any reachable state after \<open>Stop\<close>, once every outstanding
  cancellation handler has run, \<open>super::Stop\<close> has been called exactly once and the driver holds
  nothing any more.
\<close>

theorem stop_completes:
  assumes "platform_ok dk" and "reachable dk provider (Stopped, s)"
    and "t = (exec_state (cancel_handler dk provider) ^^ outstanding s) s"
  shows "super_stops t = 1 \<and> outstanding t = 0 \<and> gone t \<and> drv_inv None t"
  using handlers_finish [OF reachable_cancelling [OF assms(1,2)] refl, of dk provider] assms(3)
  by (simp add: finished_def)

lemma stop_completes_witness:
  "super_stops ((exec_state (cancel_handler bench_dk 1) ^^ 4) bench_stopped) = 1
    \<and> gone ((exec_state (cancel_handler bench_dk 1) ^^ 4) bench_stopped)"
  using stop_completes [OF bench_dk_ok bench_stopped_reachable refl]
  by (simp only: bench_stopped_outstanding) 

lemma silent_same_device: "keeps (silent s) m \<Longrightarrow> silent s s \<Longrightarrow> same_device s (exec_state m s)"
  by (auto simp: keeps_def silent_def same_device_def)

lemma stopped_step:
  assumes "driver_step dk provider (Stopped, s) d" and "cancelling [] s"
  shows "fst d = Stopped \<and> same_device s (snd d)"
  using assms(1)
proof (cases rule: driver_step.cases)
  case (entry e)
  have q: "silent s s" "silent (fill_rx bs s) (fill_rx bs s)" for bs
    using assms(2) by (auto simp: silent_def cancelling_def waiting_def finished_def quiet_def fill_rx_def)
  have "same_device s (enter dk e s)"
  proof (cases e)
    case (RxDone status n bs)
    have "silent (fill_rx bs s) (exec_state (RxComplete dk status n) (fill_rx bs s))"
      by (rule keepsD [OF RxComplete_silent q(2)])
    then show ?thesis by (simp add: RxDone silent_def same_device_def) (simp add: fill_rx_def)
  next
    case (Promiscuous b)
    then show ?thesis
      using setPromiscuous_quiet [of s dk b] q(1) by (simp add: silent_def quiet_def same_device_def)
  qed (simp_all add: q(1) silent_same_device TxDataAvailable_silent TxComplete_silent
      RxBackoffExpired_silent setInterfaceEnable_silent)
  then show ?thesis by (simp add: entry)
next
  case cancelled
  then show ?thesis
    using keepsD [OF cancel_handler_same_device, of s s dk provider] by (simp add: same_device_def)
next
  case (outside e)
  then show ?thesis by (simp add: same_device_def)
qed


text \<open>
  C6: Once the driver has begun to stop, nothing reaches the device any more: whatever entry points
  run afterwards, in any order, no transfer is submitted on a pipe, not even one that fails, and no
  register is read or written.
\<close>

theorem silent_after_stop:
  assumes "platform_ok dk" and "reachable dk provider (Stopped, s)"
    and "(driver_step dk provider)\<^sup>*\<^sup>* (Stopped, s) (p, t)"
  shows "p = Stopped \<and> filter device_call (calls t) = filter device_call (calls s)"
proof -
  have inv: "reaches fresh (driver_step dk provider) c \<Longrightarrow> fst c = Stopped \<Longrightarrow> cancelling [] (snd c)" for c
    using reachable_cancelling [OF assms(1)] by (cases c) auto
  have "reachable dk provider c \<and> fst c = Stopped \<and> same_device s (snd c)"
    if "(driver_step dk provider)\<^sup>*\<^sup>* (Stopped, s) c" for c
    using that
  proof (induction rule: rtranclp_induct)
    case base
    then show ?case using assms(2) by (simp add: same_device_def)
  next
    case (step c d)
    then show ?case
      using stopped_step [of dk provider "snd c" d] inv [of c] reaches.onward [of fresh _ c d]
      by (cases c) (auto simp: same_device_def)
  qed
  from this [OF assms(3)] show ?thesis by (simp add: same_device_def)
qed

lemma silent_after_stop_witness:
  "filter device_call (calls (enter bench_dk Doorbell bench_stopped)) = filter device_call (calls bench_stopped)"
proof -
  have "driver_step bench_dk 1 (Stopped, bench_stopped) (Stopped, enter bench_dk Doorbell bench_stopped)"
    by (rule driver_step.entry) simp
  then have "(driver_step bench_dk 1)\<^sup>*\<^sup>* (Stopped, bench_stopped) (Stopped, enter bench_dk Doorbell bench_stopped)"
    by (rule r_into_rtranclp)
  from silent_after_stop [OF bench_dk_ok bench_stopped_reachable this] show ?thesis by blast
qed

section \<open>Starting and the MAC address\<close>





section \<open>Well-formed instance variables\<close>

lemma well_formed_parts:
  assumes "sys_inv (p, s)"
  shows "mac_ok s" "p = Started \<Longrightarrow> ctrl_ok s" "p = Stopped \<Longrightarrow> quiet s"
proof -
  show "mac_ok s" using assms initial_staged(2) by (cases p) (auto simp: running_def unstopped_def untouched_def)
  show "p = Started \<Longrightarrow> ctrl_ok s" using assms by (simp add: running_def)
  show "p = Stopped \<Longrightarrow> quiet s" using assms by (auto simp: cancelling_def waiting_def finished_def)
qed

text \<open>
  C13: The instance variables stay well formed: in every reachable state, before \<open>Start\<close>, while running, through
  shutdown and after a refused start, the address has six bytes and is plausible whenever it is marked
  valid, a mapped transmit buffer holds the longest transfer, a mapped receive buffer has a pipe to
  read, the transmit flag and its packet agree and a packet in flight has a queue to go back to; a
  running driver's control buffer takes a register, and a stopping driver neither receives nor sends.
\<close>

theorem state_well_formed:
  assumes "platform_ok dk" and "reachable dk provider (p, s)"
  shows "length (macAddress s) = 6 \<and> (macValid s \<longrightarrow> smsc95xx_mac_plausible (macAddress s) = MAC_PLAUSIBLE)
    \<and> (\<forall>b. txBytes s = Some b \<longrightarrow> unat TX_BUFFER_LEN \<le> length b)
    \<and> (rxBytes s \<noteq> None \<longrightarrow> pipeIn s \<noteq> None)
    \<and> (txInFlight s \<longleftrightarrow> txPacket s \<noteq> None) \<and> (txPacket s \<noteq> None \<longrightarrow> txComplete s \<noteq> None)
    \<and> (p = Started \<longrightarrow> ctrlBuffer s \<noteq> None \<longrightarrow> (\<exists>b. ctrlBytes s = Some b \<and> 4 \<le> length b))
    \<and> (p = Stopped \<longrightarrow> stopping s \<and> \<not> rxRunning s \<and> \<not> txDatapathReady s)"
proof -
  have "sys_inv (p, s)" by (rule reachable_inv [OF assms])
  from well_formed_parts [OF this] show ?thesis
    using reachable_drv_inv [OF assms]
    by (simp add: mac_ok_def ctrl_ok_def quiet_def drv_inv_def tx_inv_def mem_inv_def TX_BUFFER_LEN_def
      TX_HEADER_LEN_def TX_MAX_FRAME_def)
qed

lemma state_well_formed_witness:
  "length (macAddress bench_busy) = 6 \<and> (txInFlight bench_busy \<longleftrightarrow> txPacket bench_busy \<noteq> None)"
  using state_well_formed [OF bench_dk_ok bench_busy_reachable] by simp

end
